(* ===== verification/Prelude.thy ===== *)
theory Prelude
  imports Main "HOL-Library.Sublist"
begin

text \<open>
  Shared vocabulary of the recipe scraper development: the names of the model's
  types, the exceptions the two Python scripts can raise, and the generic list
  facts the components share.  The central generic operation is
  \<open>dedup_from\<close>, the "keep the first element of every key" loop with a
  \<open>seen\<close> set: \<open>normalize_ingredients\<close> in \<open>src/scrape_recipes.py\<close> is this
  loop with the case-folded key, and \<open>dict.fromkeys\<close> in
  \<open>extract_recipe_links\<close> is it with the identity key.  Its lemmas
  (subsequence, distinct keys, same key set, first occurrence, fixpoint) are
  proved once here and used by both components.
\<close>

named_theorems py_char_defs "definitions of Python's character classes on Latin-1"

type_synonym url = string
type_synonym path = string

text \<open>
  The exceptions that reach the scripts' \<open>try\<close> blocks or escape from
  \<open>main\<close>.  \<open>HTTPError\<close> is \<open>raise_for_status\<close> on a 4xx/5xx answer,
  \<open>RetryError\<close> is urllib3's \<open>MaxRetryError\<close> once the retry budget is
  spent on a forced-retry status, \<open>ConnectionError\<close> a transport failure,
  \<open>AttributeError\<close> a method called on \<open>None\<close> (\<open>soup.find("h1")\<close>
  returning nothing), \<open>TranslationError\<close> a failure of the DeepL client,
  \<open>ValueError\<close> what \<open>urllib.parse\<close> raises on a malformed network location,
  \<open>OSError\<close> a file that cannot be opened (a directory opened for writing,
  a missing file opened for reading).
\<close>

datatype py_error =
    HTTPError nat
  | RetryError nat
  | ConnectionError
  | AttributeError string
  | TranslationError string
  | ValueError string
  | OSError string

type_synonym 'a result = "py_error + 'a"

text \<open>Running the next statement unless the last one raised.\<close>

definition bind_result :: "'a result \<Rightarrow> ('a \<Rightarrow> 'b result) \<Rightarrow> 'b result" where
  "bind_result r f = (case r of Inl e \<Rightarrow> Inl e | Inr x \<Rightarrow> f x)"

subsection \<open>Keeping the first element of every key\<close>

fun dedup_from :: "('a \<Rightarrow> 'k) \<Rightarrow> 'k set \<Rightarrow> 'a list \<Rightarrow> 'a list" where
  "dedup_from key seen [] = []"
| "dedup_from key seen (x # xs) =
     (if key x \<in> seen then dedup_from key seen xs
      else x # dedup_from key (insert (key x) seen) xs)"

text \<open>
  The reference description, by position: the element at index \<open>i\<close> is kept
  exactly when no earlier element has its key.
\<close>

definition first_occurrences :: "('a \<Rightarrow> 'k) \<Rightarrow> 'a list \<Rightarrow> 'a list" where
  "first_occurrences key xs =
     map fst (filter (\<lambda>(x, i). key x \<notin> key ` set (take i xs)) (zip xs [0..<length xs]))"

lemma bind_result_simps [simp]:
  "bind_result (Inl e) f = Inl e" "bind_result (Inr x) f = f x"
  by (simp_all add: bind_result_def)

lemma bind_result_eq_Inr:
  "bind_result r f = Inr y \<longleftrightarrow> (\<exists>x. r = Inr x \<and> f x = Inr y)"
  by (cases r) simp_all

lemma bind_result_eq_Inl:
  "bind_result r f = Inl e \<longleftrightarrow> r = Inl e \<or> (\<exists>x. r = Inr x \<and> f x = Inl e)"
  by (cases r) simp_all

lemma zip_upt_Suc:
  "zip xs [Suc 0..<Suc (length xs)] = map (\<lambda>(x, i). (x, Suc i)) (zip xs [0..<length xs])"
proof -
  have "[Suc 0..<Suc (length xs)] = map Suc [0..<length xs]"
    by (simp add: map_Suc_upt)
  then show ?thesis by (simp add: zip_map2)
qed

lemma dedup_from_positions:
  "dedup_from key seen xs =
     map fst (filter (\<lambda>(x, i). key x \<notin> seen \<union> key ` set (take i xs)) (zip xs [0..<length xs]))"
proof (induction xs arbitrary: seen)
  case Nil
  then show ?case by simp
next
  case (Cons x xs)
  have ups: "[0..<Suc (length xs)] = 0 # [Suc 0..<Suc (length xs)]"
    by (simp del: upt_Suc add: upt_conv_Cons)
  have shift: "\<And>S. filter (\<lambda>(y, i). key y \<notin> S \<union> key ` set (take i (x # xs)))
                 (zip xs [Suc 0..<Suc (length xs)])
             = map (\<lambda>(y, i). (y, Suc i))
                 (filter (\<lambda>(y, i). key y \<notin> insert (key x) S \<union> key ` set (take i xs))
                    (zip xs [0..<length xs]))"
    by (simp del: upt_Suc add: zip_upt_Suc filter_map comp_def split_def conj_ac)
  show ?case
  proof (cases "key x \<in> seen")
    case True
    then have ins: "insert (key x) seen = seen" by blast
    let ?Q = "\<lambda>(y, i). key y \<notin> seen \<union> key ` set (take i xs)"
    have "dedup_from key seen (x # xs) = dedup_from key seen xs"
      using True by simp
    also have "\<dots> = map fst (filter ?Q (zip xs [0..<length xs]))"
      by (rule Cons.IH)
    also have "\<dots> = map fst (map (\<lambda>(y, i). (y, Suc i)) (filter ?Q (zip xs [0..<length xs])))"
      by (simp add: comp_def case_prod_beta)
    also have "\<dots> = map fst (filter (\<lambda>(y, i). key y \<notin> seen \<union> key ` set (take i (x # xs)))
                 (zip xs [Suc 0..<Suc (length xs)]))"
      by (simp only: shift [of seen, unfolded ins])
    finally show ?thesis
      using True by (simp del: upt_Suc add: ups)
  next
    case False
    let ?Q = "\<lambda>(y, i). key y \<notin> insert (key x) seen \<union> key ` set (take i xs)"
    have "dedup_from key seen (x # xs) = x # dedup_from key (insert (key x) seen) xs"
      using False by simp
    also have "\<dots> = x # map fst (filter ?Q (zip xs [0..<length xs]))"
      by (simp only: Cons.IH)
    also have "\<dots> = x # map fst (map (\<lambda>(y, i). (y, Suc i)) (filter ?Q (zip xs [0..<length xs])))"
      by (simp add: comp_def case_prod_beta)
    also have "\<dots> = x # map fst (filter (\<lambda>(y, i). key y \<notin> seen \<union> key ` set (take i (x # xs)))
                 (zip xs [Suc 0..<Suc (length xs)]))"
      by (simp only: shift [of seen])
    finally show ?thesis
      using False by (simp del: upt_Suc add: ups)
  qed
qed

lemma dedup_from_first_occurrences: "dedup_from key {} xs = first_occurrences key xs"
  by (simp add: dedup_from_positions first_occurrences_def)

lemma subseq_dedup_from: "subseq (dedup_from key seen xs) xs"
  by (induction xs arbitrary: seen) auto

lemma set_dedup_from: "set (dedup_from key seen xs) \<subseteq> set xs"
  by (induction xs arbitrary: seen) auto

lemma keys_dedup_from: "key ` set (dedup_from key seen xs) = key ` set xs - seen"
  by (induction xs arbitrary: seen) auto

lemma distinct_dedup_from: "distinct (map key (dedup_from key seen xs))"
proof (induction xs arbitrary: seen)
  case Nil
  then show ?case by simp
next
  case (Cons x xs)
  have "key x \<notin> key ` set (dedup_from key (insert (key x) seen) xs)"
    by (simp add: keys_dedup_from)
  with Cons.IH show ?case by auto
qed

lemma dedup_from_find:
  "y \<in> set (dedup_from key seen xs) \<Longrightarrow> find (\<lambda>x. key x = key y) xs = Some y"
proof (induction xs arbitrary: seen)
  case Nil
  then show ?case by simp
next
  case (Cons x xs)
  show ?case
  proof (cases "key x \<in> seen")
    case True
    with Cons.prems have y: "y \<in> set (dedup_from key seen xs)" by simp
    then have "key y \<in> key ` set xs - seen"
      using keys_dedup_from [of key seen xs] by blast
    with True have "key x \<noteq> key y" by auto
    with Cons.IH [OF y] show ?thesis by simp
  next
    case False
    show ?thesis
    proof (cases "y = x")
      case True
      then show ?thesis by simp
    next
      case ne: False
      with Cons.prems False
      have y: "y \<in> set (dedup_from key (insert (key x) seen) xs)" by simp
      then have "key y \<in> key ` set xs - insert (key x) seen"
        using keys_dedup_from [of key "insert (key x) seen" xs] by blast
      then have "key x \<noteq> key y" by auto
      with Cons.IH [OF y] show ?thesis by simp
    qed
  qed
qed

lemma dedup_from_id:
  "distinct (map key xs) \<Longrightarrow> key ` set xs \<inter> seen = {} \<Longrightarrow> dedup_from key seen xs = xs"
  by (induction xs arbitrary: seen) auto

lemma dedup_from_idem:
  "dedup_from key {} (dedup_from key {} xs) = dedup_from key {} xs"
  by (rule dedup_from_id) (simp_all add: distinct_dedup_from)


lemma first_failure_Cons:
  assumes "P x" "\<not> Q x"
  shows "(\<exists>pre h post. x # F = pre @ h # post \<and> list_all P pre \<and> Q h) \<longleftrightarrow>
         (\<exists>pre h post. F = pre @ h # post \<and> list_all P pre \<and> Q h)"
proof
  assume "\<exists>pre h post. x # F = pre @ h # post \<and> list_all P pre \<and> Q h"
  then obtain pre h post where d: "x # F = pre @ h # post" and p: "list_all P pre" and q: "Q h" by blast
  show "\<exists>pre h post. F = pre @ h # post \<and> list_all P pre \<and> Q h"
  proof (cases pre)
    case Nil
    with d q assms(2) show ?thesis by simp
  next
    case (Cons y pre')
    with d p q show ?thesis by auto
  qed
next
  assume "\<exists>pre h post. F = pre @ h # post \<and> list_all P pre \<and> Q h"
  then obtain pre h post where "F = pre @ h # post" "list_all P pre" "Q h" by blast
  with assms(1) have "x # F = (x # pre) @ h # post" "list_all P (x # pre)" by simp_all
  with \<open>Q h\<close> show "\<exists>pre h post. x # F = pre @ h # post \<and> list_all P pre \<and> Q h" by blast
qed

end
