(* ===== verification/PyStr.thy ===== *)
theory PyStr
  imports Prelude
begin

text \<open>
  The parts of Python's \<open>str\<close> that the scraper calls: \<open>str.isspace\<close> (which is
  also what the regex class \<open>\s\<close> and \<open>str.strip()\<close> use), the regex class
  \<open>\w\<close>, \<open>str.lower\<close>, \<open>str.strip\<close>, \<open>str.split()\<close>, \<open>str.endswith\<close>, the
  \<open>in\<close> operator and \<open>str.join\<close>.  A Python string is a sequence of code
  points; the model's \<open>char\<close> has 256 values, so it models the strings whose
  code points are all below 256 (Latin-1).  On that range the tables below are
  CPython's: whitespace is 9--13, 28--32, 133 and 160; \<open>\w\<close> is the ASCII word
  characters plus the Latin-1 letters and numerics; \<open>lower\<close> moves A--Z and
  the Latin-1 capitals 192--222 (except 215) up by 32 and fixes every other
  character.  These are library semantics, modelled from the Python
  documentation and the CPython tables.
\<close>

definition py_isspace :: "char \<Rightarrow> bool" where [py_char_defs]:
  "py_isspace c =
     (let n = (of_char c :: nat)
      in (9 \<le> n \<and> n \<le> 13) \<or> (28 \<le> n \<and> n \<le> 32) \<or> n = 133 \<or> n = 160)"

definition py_isword :: "char \<Rightarrow> bool" where [py_char_defs]:
  "py_isword c =
     (let n = (of_char c :: nat)
      in n = 95 \<or> (48 \<le> n \<and> n \<le> 57) \<or> (65 \<le> n \<and> n \<le> 90) \<or> (97 \<le> n \<and> n \<le> 122)
         \<or> n \<in> {170, 178, 179, 181, 185, 186, 188, 189, 190}
         \<or> (192 \<le> n \<and> n \<le> 214) \<or> (216 \<le> n \<and> n \<le> 246) \<or> 248 \<le> n)"

definition py_isupper :: "char \<Rightarrow> bool" where [py_char_defs]:
  "py_isupper c =
     (let n = (of_char c :: nat)
      in (65 \<le> n \<and> n \<le> 90) \<or> (192 \<le> n \<and> n \<le> 214) \<or> (216 \<le> n \<and> n \<le> 222))"

definition py_lower_char :: "char \<Rightarrow> char" where [py_char_defs]:
  "py_lower_char c = (if py_isupper c then char_of (of_char c + (32::nat)) else c)"

definition py_lower :: "string \<Rightarrow> string" where
  "py_lower s = map py_lower_char s"

definition py_strip :: "string \<Rightarrow> string" where
  "py_strip s = rev (dropWhile py_isspace (rev (dropWhile py_isspace s)))"

text \<open>\<open>str.split()\<close> without a separator: maximal runs of non-whitespace.\<close>

function py_split :: "string \<Rightarrow> string list" where
  "py_split s =
     (let s' = dropWhile py_isspace s
      in if s' = [] then []
         else takeWhile (\<lambda>c. \<not> py_isspace c) s' # py_split (dropWhile (\<lambda>c. \<not> py_isspace c) s'))"
  by pat_completeness auto
termination
proof (relation "measure length")
  fix s s' :: string
  assume s': "s' = dropWhile py_isspace s" and ne: "s' \<noteq> []"
  then have "\<not> py_isspace (hd s')"
    using hd_dropWhile by blast
  with ne have "length (dropWhile (\<lambda>c. \<not> py_isspace c) s') < length s'"
    by (cases s') (auto simp: less_Suc_eq_le length_dropWhile_le)
  moreover have "length s' \<le> length s"
    using s' by (simp add: length_dropWhile_le)
  ultimately show "(dropWhile (\<lambda>c. \<not> py_isspace c) s', s) \<in> measure length"
    by simp
qed simp

declare py_split.simps [simp del]

definition py_endswith :: "string \<Rightarrow> string \<Rightarrow> bool" where
  "py_endswith s suf \<longleftrightarrow> length suf \<le> length s \<and> drop (length s - length suf) s = suf"

text \<open>\<open>needle in hay\<close>: some position of \<open>hay\<close> starts with \<open>needle\<close>.\<close>

fun py_contains :: "string \<Rightarrow> string \<Rightarrow> bool" where
  "py_contains needle [] \<longleftrightarrow> needle = []"
| "py_contains needle (c # cs) \<longleftrightarrow>
     take (length needle) (c # cs) = needle \<or> py_contains needle cs"

fun py_join :: "string \<Rightarrow> string list \<Rightarrow> string" where
  "py_join sep [] = []"
| "py_join sep [x] = x"
| "py_join sep (x # y # ys) = x @ sep @ py_join sep (y # ys)"

text \<open>\<open>s.split(c)\<close> with a one-character separator, and \<open>s.rfind\<close>-free helpers.\<close>

fun py_split_sep :: "char \<Rightarrow> string \<Rightarrow> string list" where
  "py_split_sep c [] = [[]]"
| "py_split_sep c (x # xs) =
     (if x = c then [] # py_split_sep c xs
      else (case py_split_sep c xs of w # ws \<Rightarrow> (x # w) # ws | [] \<Rightarrow> [[x]]))"

text \<open>\<open>s.split(c, 1)\<close> when \<open>c in s\<close>: the text before the first \<open>c\<close> and after it.\<close>

definition split_first :: "char \<Rightarrow> string \<Rightarrow> string \<times> string" where
  "split_first c s = (takeWhile (\<lambda>x. x \<noteq> c) s, drop 1 (dropWhile (\<lambda>x. x \<noteq> c) s))"

text \<open>\<open>str.isprintable\<close> on one character: CPython's table below 256.\<close>

definition py_printable :: "char \<Rightarrow> bool" where [py_char_defs]:
  "py_printable c =
     (let n = (of_char c :: nat) in (32 \<le> n \<and> n \<le> 126) \<or> (161 \<le> n \<and> n \<noteq> 173))"

text \<open>A lower-case hexadecimal digit, as \<open>'%x'\<close> and \<open>repr\<close> print it.\<close>

definition hex_char :: "nat \<Rightarrow> char" where
  "hex_char d = (if d < 10 then char_of (48 + d) else char_of (87 + d))"

text \<open>\<open>repr(s)\<close> of a string (\<open>unicode_repr\<close>): single quotes unless the
  string has a single quote and no double quote; the quote and the backslash
  are escaped, tab, newline and return by name, every other unprintable
  character as \<open>\xNN\<close>.\<close>

definition repr_char :: "char \<Rightarrow> char \<Rightarrow> string" where
  "repr_char q c =
     (if c = q \<or> c = CHR 0x5C then [CHR 0x5C, c]
      else if c = CHR 0x09 then [CHR 0x5C, CHR ''t'']
      else if c = CHR 0x0A then [CHR 0x5C, CHR ''n'']
      else if c = CHR 0x0D then [CHR 0x5C, CHR ''r'']
      else if py_printable c then [c]
      else [CHR 0x5C, CHR ''x'', hex_char (of_char c div 16), hex_char (of_char c mod 16)])"

definition py_repr :: "string \<Rightarrow> string" where
  "py_repr s =
     (let q = (if CHR 0x27 \<in> set s \<and> CHR 0x22 \<notin> set s then CHR 0x22 else CHR 0x27)
      in q # concat (map (repr_char q) s) @ [q])"

subsection \<open>Character classes\<close>

lemma eq_char_of_iff: "c = char_of n \<longleftrightarrow> take_bit 8 n = of_char c"
  by (metis char_of_eq_iff)

text \<open>Evaluating the character classes on literal strings.\<close>

lemmas py_eval = py_char_defs char_of_eq_iff eq_char_of_iff

lemma of_char_lower_upper:
  assumes "py_isupper c"
  shows "(of_char (py_lower_char c) :: nat) = of_char c + 32"
proof -
  from assms have "(of_char c :: nat) + 32 < 256"
    by (auto simp: py_isupper_def Let_def)
  with assms show ?thesis by (simp add: py_lower_char_def)
qed

lemma py_lower_char_id: "\<not> py_isupper c \<Longrightarrow> py_lower_char c = c"
  by (simp add: py_lower_char_def)

lemma upper_ranges:
  assumes "py_isupper c"
  obtains "65 \<le> (of_char c :: nat)" "(of_char c :: nat) \<le> 90"
  | "192 \<le> (of_char c :: nat)" "(of_char c :: nat) \<le> 222" "(of_char c :: nat) \<noteq> 215"
  using assms by (auto simp: py_isupper_def Let_def)

lemma py_isupper_lower [simp]: "\<not> py_isupper (py_lower_char c)"
proof (cases "py_isupper c")
  case True
  then show ?thesis
    by (rule upper_ranges) (simp_all add: of_char_lower_upper [OF True] py_isupper_def Let_def)
qed (simp add: py_lower_char_id)

lemma py_lower_char_sharp_s: "py_lower_char c = CHR 0xDF \<longleftrightarrow> c = CHR 0xDF"
proof (cases "py_isupper c")
  case True
  then have "(of_char (py_lower_char c) :: nat) \<noteq> 223"
    by (rule upper_ranges) (simp_all add: of_char_lower_upper [OF True])
  moreover have "\<not> py_isupper (CHR 0xDF)" by (simp add: py_isupper_def)
  ultimately show ?thesis using True by auto
qed (simp add: py_lower_char_id)

lemma py_isspace_lower [simp]: "py_isspace (py_lower_char c) = py_isspace c"
proof (cases "py_isupper c")
  case True
  then show ?thesis
    by (rule upper_ranges) (simp_all add: of_char_lower_upper [OF True] py_isspace_def Let_def)
qed (simp add: py_lower_char_id)

lemma py_isword_lower [simp]: "py_isword (py_lower_char c) = py_isword c"
proof (cases "py_isupper c")
  case True
  then show ?thesis
    by (rule upper_ranges) (simp_all add: of_char_lower_upper [OF True] py_isword_def Let_def)
qed (simp add: py_lower_char_id)

lemma py_lower_char_idem [simp]: "py_lower_char (py_lower_char c) = py_lower_char c"
  by (simp add: py_lower_char_id)

lemma py_isword_not_space: "py_isword c \<Longrightarrow> \<not> py_isspace c"
  by (auto simp: py_isword_def py_isspace_def Let_def)


lemma hyphen_classes [simp]:
  "\<not> py_isspace CHR ''-''" "\<not> py_isword CHR ''-''" "\<not> py_isupper CHR ''-''"
  by (simp_all add: py_char_defs)

lemma py_lower_hyphen [simp]: "py_lower_char CHR ''-'' = CHR ''-''"
  by (simp add: py_lower_char_id)

subsection \<open>\<open>lower\<close> and \<open>strip\<close>\<close>

lemma py_lower_idem [simp]: "py_lower (py_lower s) = py_lower s"
  by (simp add: py_lower_def)

lemma py_lower_append [simp]: "py_lower (xs @ ys) = py_lower xs @ py_lower ys"
  by (simp add: py_lower_def)

lemma dropWhile_space_lower:
  "dropWhile py_isspace (map py_lower_char s) = map py_lower_char (dropWhile py_isspace s)"
  by (induction s) auto

lemma py_strip_lower: "py_strip (py_lower s) = py_lower (py_strip s)"
  by (simp add: py_strip_def py_lower_def dropWhile_space_lower rev_map)

lemma sublist_py_strip: "sublist (py_strip s) s"
proof -
  have "suffix (dropWhile py_isspace s) s" by (rule suffix_dropWhile)
  moreover have "prefix (rev (dropWhile py_isspace (rev (dropWhile py_isspace s))))
                        (dropWhile py_isspace s)"
    using suffix_dropWhile [of py_isspace "rev (dropWhile py_isspace s)"]
    by (simp add: suffix_to_prefix)
  ultimately show ?thesis
    unfolding py_strip_def sublist_altdef' by blast
qed

lemma set_py_strip: "set (py_strip s) \<subseteq> set s"
proof
  fix x assume x: "x \<in> set (py_strip s)"
  obtain ps ss where "s = ps @ py_strip s @ ss"
    using sublist_py_strip [of s] by (auto simp: sublist_def)
  with x show "x \<in> set s" by (metis Un_iff set_append)
qed

lemma filter_py_strip:
  "(\<And>c. P c \<Longrightarrow> \<not> py_isspace c) \<Longrightarrow> filter P (py_strip s) = filter P s"
proof -
  assume np: "\<And>c. P c \<Longrightarrow> \<not> py_isspace c"
  have drop: "\<And>xs. filter P (dropWhile py_isspace xs) = filter P xs"
  proof -
    fix xs show "filter P (dropWhile py_isspace xs) = filter P xs"
      by (induction xs) (auto dest: np)
  qed
  show ?thesis
    by (simp add: py_strip_def drop rev_filter [symmetric])
qed

lemma dropWhile_none: "\<forall>x\<in>set xs. \<not> P x \<Longrightarrow> dropWhile P xs = xs"
  by (induction xs) auto

lemma py_strip_no_space: "\<forall>c\<in>set s. \<not> py_isspace c \<Longrightarrow> py_strip s = s"
  by (simp add: py_strip_def dropWhile_none)

lemma py_strip_ends:
  "py_strip s \<noteq> [] \<Longrightarrow> \<not> py_isspace (hd (py_strip s)) \<and> \<not> py_isspace (last (py_strip s))"
proof -
  let ?d = "dropWhile py_isspace s"
  assume ne: "py_strip s \<noteq> []"
  have last: "\<not> py_isspace (last (py_strip s))"
    using ne hd_dropWhile [of py_isspace "rev ?d"] by (simp add: py_strip_def last_rev)
  have "prefix (py_strip s) ?d"
    using suffix_dropWhile [of py_isspace "rev ?d"] by (simp add: py_strip_def suffix_to_prefix)
  then obtain zs where d: "?d = py_strip s @ zs"
    by (auto simp: prefix_def)
  with ne have "hd (py_strip s) = hd ?d" and "?d \<noteq> []"
    by (simp_all add: hd_append)
  then have "\<not> py_isspace (hd (py_strip s))"
    using hd_dropWhile by metis
  with last show ?thesis by blast
qed

lemma py_strip_Cons_nonspace:
  assumes "\<not> py_isspace c"
  shows "py_strip (c # x) = c # rev (dropWhile py_isspace (rev x))"
proof (cases "\<forall>d\<in>set (rev x). py_isspace d")
  case True
  then have "dropWhile py_isspace (rev x) = []" by (simp add: dropWhile_eq_Nil_conv)
  with True assms show ?thesis by (simp add: py_strip_def dropWhile_append)
next
  case False
  with assms show ?thesis by (simp add: py_strip_def dropWhile_append)
qed

lemma py_strip_snoc_nonspace:
  assumes "\<not> py_isspace c"
  shows "py_strip (x @ [c]) = dropWhile py_isspace x @ [c]"
proof (cases "\<forall>d\<in>set x. py_isspace d")
  case True
  then have "dropWhile py_isspace x = []" by (simp add: dropWhile_eq_Nil_conv)
  with True assms show ?thesis by (simp add: py_strip_def dropWhile_append)
next
  case False
  with assms show ?thesis by (simp add: py_strip_def dropWhile_append)
qed

subsection \<open>\<open>in\<close> and \<open>endswith\<close> against the library's notions\<close>

lemma py_contains_sublist: "py_contains needle hay \<longleftrightarrow> sublist needle hay"
proof (induction hay)
  case Nil
  then show ?case by simp
next
  case (Cons c cs)
  have "take (length needle) (c # cs) = needle \<longleftrightarrow> prefix needle (c # cs)"
  proof
    assume "take (length needle) (c # cs) = needle"
    then show "prefix needle (c # cs)" by (metis append_take_drop_id prefixI)
  next
    assume "prefix needle (c # cs)"
    then show "take (length needle) (c # cs) = needle" by (auto simp: prefix_def)
  qed
  with Cons.IH show ?case by (simp add: sublist_Cons_right)
qed

lemma py_endswith_suffix: "py_endswith s suf \<longleftrightarrow> suffix suf s"
proof
  assume "py_endswith s suf"
  then have "s = take (length s - length suf) s @ suf"
    by (metis append_take_drop_id py_endswith_def)
  then show "suffix suf s" by (metis suffix_def)
next
  assume "suffix suf s"
  then obtain p where "s = p @ suf" by (auto simp: suffix_def)
  then show "py_endswith s suf" by (simp add: py_endswith_def)
qed

end
