(* ===== verification/Html.thy ===== *)
theory Html
  imports PyStr
begin

text \<open>
  The parsed page that \<open>parse_recipe\<close> and \<open>extract_recipe_links\<close> query
  (\<open>BeautifulSoup(response.text, "html.parser")\<close>).  Turning the response
  text into a tree is the library's parser and is not modelled: a page is the
  tree itself, a list of nodes, each a text node or an element with its tag
  name, its attributes in source order and its children.  What is modelled is
  what the scraper asks of the tree, with BeautifulSoup's and soupsieve's
  semantics:
  \<^item> an attribute repeated in a tag keeps its last value (BeautifulSoup's
    default \<open>on_duplicate_attribute\<close>), and an attribute written without a
    value has the value \<open>""\<close>;
  \<^item> \<open>class\<close> is a multi-valued attribute, split at whitespace; the CSS
    selector \<open>tag.cls\<close> matches when \<open>cls\<close> is one of the classes, while
    \<open>find(tag, class_=cls)\<close> also accepts the whole space-joined value;
  \<^item> \<open>find\<close>, \<open>select_one\<close> and \<open>select\<close> visit the elements below the
    root in document order (pre-order), each once; \<open>div.steps p\<close> selects the
    \<open>p\<close> elements with a \<open>div.steps\<close> ancestor;
  \<^item> \<open>get_text(strip=True)\<close> concatenates the text nodes below an element,
    each stripped of surrounding whitespace.
\<close>

datatype node = Text string | Elem string "(string \<times> string) list" "node list"

type_synonym document = "node list"

primrec elements :: "node \<Rightarrow> node list"
  and elements_list :: "node list \<Rightarrow> node list" where
  "elements (Text s) = []"
| "elements (Elem t a cs) = Elem t a cs # elements_list cs"
| "elements_list [] = []"
| "elements_list (n # ns) = elements n @ elements_list ns"

primrec node_strings :: "node \<Rightarrow> string list"
  and node_list_strings :: "node list \<Rightarrow> string list" where
  "node_strings (Text s) = [s]"
| "node_strings (Elem t a cs) = node_list_strings cs"
| "node_list_strings [] = []"
| "node_list_strings (n # ns) = node_strings n @ node_list_strings ns"

fun node_attrs :: "node \<Rightarrow> (string \<times> string) list" where
  "node_attrs (Elem t a cs) = a"
| "node_attrs (Text s) = []"

definition attr_lookup :: "(string \<times> string) list \<Rightarrow> string \<Rightarrow> string option" where
  "attr_lookup attrs k = map_of (rev attrs) k"

definition attr_get :: "node \<Rightarrow> string \<Rightarrow> string option" where
  "attr_get n k = attr_lookup (node_attrs n) k"

definition has_class :: "string \<Rightarrow> (string \<times> string) list \<Rightarrow> bool" where
  "has_class c attrs =
     (case attr_lookup attrs ''class'' of None \<Rightarrow> False | Some v \<Rightarrow> c \<in> set (py_split v))"

fun is_tag :: "string \<Rightarrow> node \<Rightarrow> bool" where
  "is_tag t (Elem t' a cs) \<longleftrightarrow> t' = t"
| "is_tag t (Text s) \<longleftrightarrow> False"

text \<open>The CSS selector \<open>tag.cls\<close>.\<close>

fun css_tag_class :: "string \<Rightarrow> string \<Rightarrow> node \<Rightarrow> bool" where
  "css_tag_class t c (Elem t' a cs) \<longleftrightarrow> t' = t \<and> has_class c a"
| "css_tag_class t c (Text s) \<longleftrightarrow> False"

text \<open>\<open>find(tag, class_=cls)\<close>: one of the classes, or all of them joined by spaces.\<close>

fun find_tag_class :: "string \<Rightarrow> string \<Rightarrow> node \<Rightarrow> bool" where
  "find_tag_class t c (Elem t' a cs) \<longleftrightarrow>
     t' = t \<and> (case attr_lookup a ''class'' of
                 None \<Rightarrow> False
               | Some v \<Rightarrow> c \<in> set (py_split v) \<or> py_join '' '' (py_split v) = c)"
| "find_tag_class t c (Text s) \<longleftrightarrow> False"

definition soup_find :: "(node \<Rightarrow> bool) \<Rightarrow> document \<Rightarrow> node option" where
  "soup_find P soup = find P (elements_list soup)"

definition soup_select :: "(node \<Rightarrow> bool) \<Rightarrow> document \<Rightarrow> node list" where
  "soup_select P soup = filter P (elements_list soup)"

text \<open>
  Elements paired with whether some ancestor is a \<open>div\<close> of class
  \<open>steps\<close>: the descendant combinator of \<open>div.steps p\<close>.
\<close>

primrec elements_under :: "bool \<Rightarrow> node \<Rightarrow> (bool \<times> node) list"
  and elements_list_under :: "bool \<Rightarrow> node list \<Rightarrow> (bool \<times> node) list" where
  "elements_under b (Text s) = []"
| "elements_under b (Elem t a cs) =
     (b, Elem t a cs) # elements_list_under (b \<or> (t = ''div'' \<and> has_class ''steps'' a)) cs"
| "elements_list_under b [] = []"
| "elements_list_under b (n # ns) = elements_under b n @ elements_list_under b ns"

definition select_steps_p :: "document \<Rightarrow> node list" where
  "select_steps_p soup =
     map snd (filter (\<lambda>(inside, n). inside \<and> is_tag ''p'' n) (elements_list_under False soup))"

definition get_text :: "node \<Rightarrow> string" where
  "get_text n = concat (map py_strip (node_strings n))"

subsection \<open>Traversal facts\<close>

lemma elements_under_snd: "map snd (elements_under b n) = elements n"
proof (induction n arbitrary: b)
  case (Elem t a cs)
  have "map snd (elements_list_under b' cs) = elements_list cs" for b'
    using Elem.IH by (induction cs) auto
  then show ?case by simp
qed simp

lemma elements_list_under_snd: "map snd (elements_list_under b ns) = elements_list ns"
  by (induction ns) (auto simp: elements_under_snd)

lemma elements_list_append [simp]:
  "elements_list (xs @ ys) = elements_list xs @ elements_list ys"
  by (induction xs) auto

lemma elements_under_inside: "elements_under True n = map (\<lambda>x. (True, x)) (elements n)"
proof (induction n)
  case (Elem t a cs)
  have "elements_list_under True cs = map (\<lambda>x. (True, x)) (elements_list cs)"
    using Elem.IH by (induction cs) auto
  then show ?case by simp
qed simp

lemma elements_list_under_inside:
  "elements_list_under True ns = map (\<lambda>x. (True, x)) (elements_list ns)"
  by (induction ns) (auto simp: elements_under_inside)

lemma elements_under_no_steps:
  "list_all (\<lambda>x. \<not> css_tag_class ''div'' ''steps'' x) (elements n) \<Longrightarrow>
     elements_under False n = map (\<lambda>x. (False, x)) (elements n)"
proof (induction n)
  case (Elem t a cs)
  then have "list_all (\<lambda>x. \<not> css_tag_class ''div'' ''steps'' x) (elements_list cs)"
    and nd: "\<not> (t = ''div'' \<and> has_class ''steps'' a)" by auto
  then have "elements_list_under False cs = map (\<lambda>x. (False, x)) (elements_list cs)"
    using Elem.IH by (induction cs) auto
  moreover from nd have "(False \<or> (t = ''div'' \<and> has_class ''steps'' a)) = False" by simp
  ultimately show ?case by (simp only: elements_under.simps list.map elements.simps prod.simps)
qed simp

lemma elements_list_under_no_steps:
  "list_all (\<lambda>x. \<not> css_tag_class ''div'' ''steps'' x) (elements_list ns) \<Longrightarrow>
     elements_list_under False ns = map (\<lambda>x. (False, x)) (elements_list ns)"
  by (induction ns) (auto simp: elements_under_no_steps)

end
