(* ===== verification/IpAddress.thy ===== *)
theory IpAddress
  imports PyStr
begin

text \<open>
  The part of Python's \<open>ipaddress\<close> module that \<open>urlsplit\<close> calls to check
  a bracketed host (CPython 3.11): \<open>ip_address(s)\<close> tries
  \<open>IPv4Address(s)\<close> and then \<open>IPv6Address(s)\<close>, and raises
  \<open>ValueError\<close> with the \<open>repr\<close> of the string when both fail.  An
  \<open>AddressValueError\<close> inside the two constructors is caught by
  \<open>ip_address\<close> and never seen by the caller, so the constructors' results
  are options, \<open>None\<close> for that error.  Address values are Python ints,
  here \<open>nat\<close>, built with the shifts and ORs of the source.  Library code,
  modelled from the CPython source of \<open>Lib/ipaddress.py\<close>.
\<close>

unbundle bit_operations_syntax

definition ascii_digit :: "char \<Rightarrow> bool" where
  "ascii_digit c \<longleftrightarrow> (let n = (of_char c :: nat) in 48 \<le> n \<and> n \<le> 57)"

text \<open>\<open>_HEX_DIGITS = frozenset('0123456789abcdefABCDEF')\<close>.\<close>

definition hex_digit :: "char \<Rightarrow> bool" where
  "hex_digit c \<longleftrightarrow>
     ascii_digit c \<or> (let n = (of_char c :: nat) in (97 \<le> n \<and> n \<le> 102) \<or> (65 \<le> n \<and> n \<le> 70))"

definition digit_value :: "char \<Rightarrow> nat" where
  "digit_value c =
     (let n = (of_char c :: nat) in if n \<le> 57 then n - 48 else if n \<le> 70 then n - 55 else n - 87)"

text \<open>\<open>int(s, base)\<close> on a non-empty string of digits of the base.\<close>

definition int_base :: "nat \<Rightarrow> string \<Rightarrow> nat" where
  "int_base b s = foldl (\<lambda>acc c. acc * b + digit_value c) 0 s"

text \<open>\<open>'%x' % n\<close>: lower-case hexadecimal, no prefix.\<close>

fun hex_format :: "nat \<Rightarrow> string" where
  "hex_format n = (if n < 16 then [hex_char n] else hex_format (n div 16) @ [hex_char (n mod 16)])"

declare hex_format.simps [simp del]

text \<open>\<open>_BaseV4._parse_octet\<close>.\<close>

definition parse_octet :: "string \<Rightarrow> nat option" where
  "parse_octet s =
     (if s = [] then None
      else if \<not> list_all ascii_digit s then None
      else if 3 < length s then None
      else if s \<noteq> ''0'' \<and> hd s = CHR ''0'' then None
      else (let v = int_base 10 s in if 255 < v then None else Some v))"

text \<open>\<open>int.from_bytes(map(cls._parse_octet, octets), 'big')\<close>: the octets are
  parsed in order and the first failure ends the conversion.\<close>

fun from_bytes :: "nat \<Rightarrow> string list \<Rightarrow> nat option" where
  "from_bytes acc [] = Some acc"
| "from_bytes acc (o1 # os) =
     (case parse_octet o1 of None \<Rightarrow> None | Some b \<Rightarrow> from_bytes (acc * 256 + b) os)"

text \<open>\<open>_BaseV4._ip_int_from_string\<close>.\<close>

definition ipv4_int_from_string :: "string \<Rightarrow> nat option" where
  "ipv4_int_from_string s =
     (if s = [] then None
      else (let octets = py_split_sep CHR ''.'' s
            in if length octets \<noteq> 4 then None else from_bytes 0 octets))"

text \<open>\<open>IPv4Address(s)\<close> for a string \<open>s\<close>.\<close>

definition ipv4_address :: "string \<Rightarrow> nat option" where
  "ipv4_address s = (if CHR ''/'' \<in> set s then None else ipv4_int_from_string s)"

text \<open>\<open>_BaseV6._parse_hextet\<close>; the last test is \<open>int('', 16)\<close>, which raises.\<close>

definition parse_hextet :: "string \<Rightarrow> nat option" where
  "parse_hextet s =
     (if \<not> list_all hex_digit s then None
      else if 4 < length s then None
      else if s = [] then None
      else Some (int_base 16 s))"

text \<open>The loops \<open>ip_int <<= 16; ip_int |= cls._parse_hextet(parts[i])\<close>.\<close>

fun hextets :: "nat \<Rightarrow> string list \<Rightarrow> nat option" where
  "hextets acc [] = Some acc"
| "hextets acc (p # ps) =
     (case parse_hextet p of None \<Rightarrow> None | Some h \<Rightarrow> hextets (push_bit 16 acc OR h) ps)"

text \<open>The loop that finds the \<open>::\<close>: an empty part strictly inside the list;
  a second one raises (\<open>None\<close>).  It runs over \<open>parts[1:-1]\<close> with the
  index \<open>i\<close> of the source.\<close>

fun skip_scan :: "string list \<Rightarrow> nat \<Rightarrow> nat option \<Rightarrow> nat option option" where
  "skip_scan [] i sk = Some sk"
| "skip_scan (p # ps) i sk =
     (if p = [] then (if sk \<noteq> None then None else skip_scan ps (Suc i) (Some i))
      else skip_scan ps (Suc i) sk)"

text \<open>The IPv4 suffix of an IPv6 address, as two hextets.\<close>

definition ipv4_suffix :: "string list \<Rightarrow> string list option" where
  "ipv4_suffix parts =
     (if CHR ''.'' \<in> set (last parts)
      then (case ipv4_address (last parts) of
              None \<Rightarrow> None
            | Some v \<Rightarrow> Some (butlast parts @
                [hex_format (drop_bit 16 v AND 0xFFFF), hex_format (v AND 0xFFFF)]))
      else Some parts)"

text \<open>The \<open>if skip_index is not None: ... else: ...\<close> block of
  \<open>_BaseV6._ip_int_from_string\<close>: the numbers \<open>parts_hi\<close>, \<open>parts_lo\<close>
  and \<open>parts_skipped\<close> of hextets before the \<open>::\<close>, after it, and left out,
  with \<open>_HEXTET_COUNT = 8\<close>.\<close>

definition ipv6_layout :: "string list \<Rightarrow> (nat \<times> nat \<times> nat) option" where
  "ipv6_layout parts =
     (case skip_scan (butlast (tl parts)) 1 None of
        None \<Rightarrow> None
      | Some (Some k) \<Rightarrow>
          (let hi = (if hd parts = [] then k - 1 else k);
               lo = (if last parts = [] then length parts - k - 2 else length parts - k - 1);
               skipped = (8::int) - int (hi + lo)
           in if hd parts = [] \<and> hi \<noteq> 0 then None
              else if last parts = [] \<and> lo \<noteq> 0 then None
              else if skipped < 1 then None
              else Some (hi, lo, nat skipped))
      | Some None \<Rightarrow>
          if length parts \<noteq> 8 then None
          else if hd parts = [] then None
          else if last parts = [] then None
          else Some (length parts, 0, 0))"

text \<open>\<open>_BaseV6._ip_int_from_string\<close>: split at the colons, turn an IPv4
  suffix into two hextets, at most nine parts, then the layout and the two
  loops over \<open>parts[:parts_hi]\<close> and \<open>parts[-parts_lo:]\<close> with the shift
  by \<open>16 * parts_skipped\<close> between them.\<close>

definition ipv6_int_from_string :: "string \<Rightarrow> nat option" where
  "ipv6_int_from_string s =
     (if s = [] then None
      else (let parts0 = py_split_sep CHR '':'' s in
        if length parts0 < 3 then None
        else (case ipv4_suffix parts0 of
          None \<Rightarrow> None
        | Some parts \<Rightarrow>
          if 9 < length parts then None
          else (case ipv6_layout parts of
            None \<Rightarrow> None
          | Some (hi, lo, skipped) \<Rightarrow>
              (case hextets 0 (take hi parts) of
                 None \<Rightarrow> None
               | Some a \<Rightarrow> hextets (push_bit (16 * skipped) a) (drop (length parts - lo) parts))))))"

text \<open>\<open>_BaseV6._split_scope_id\<close>: \<open>ip_str.partition('%')\<close>.\<close>

definition split_scope_id :: "string \<Rightarrow> (string \<times> string option) option" where
  "split_scope_id s =
     (if CHR ''%'' \<notin> set s then Some (s, None)
      else (let (addr, scope) = split_first CHR ''%'' s
            in if scope = [] \<or> CHR ''%'' \<in> set scope then None else Some (addr, Some scope)))"

text \<open>\<open>IPv6Address(s)\<close> for a string \<open>s\<close>: the address and its scope id.\<close>

definition ipv6_address :: "string \<Rightarrow> (nat \<times> string option) option" where
  "ipv6_address s =
     (if CHR ''/'' \<in> set s then None
      else (case split_scope_id s of
              None \<Rightarrow> None
            | Some (addr, scope) \<Rightarrow> map_option (\<lambda>v. (v, scope)) (ipv6_int_from_string addr)))"

datatype ip_addr = IPv4Address nat | IPv6Address nat "string option"

text \<open>\<open>ip_address(s)\<close> for a string \<open>s\<close>.\<close>

definition ip_address :: "string \<Rightarrow> ip_addr result" where
  "ip_address s =
     (case ipv4_address s of
        Some v \<Rightarrow> Inr (IPv4Address v)
      | None \<Rightarrow>
          (case ipv6_address s of
             Some (v, scope) \<Rightarrow> Inr (IPv6Address v scope)
           | None \<Rightarrow> Inl (ValueError (py_repr s @ '' does not appear to be an IPv4 or IPv6 address''))))"

text \<open>\<open>re.match(r"\Av[a-fA-F0-9]+\..+\Z", h)\<close>: the run of hex digits is
  maximal because a dot is not one, and \<open>.\<close> matches every character but a
  newline.\<close>

definition ipvfuture :: "string \<Rightarrow> bool" where
  "ipvfuture h \<longleftrightarrow>
     (case h of
        [] \<Rightarrow> False
      | c # r \<Rightarrow> c = CHR ''v'' \<and> takeWhile hex_digit r \<noteq> []
          \<and> (case dropWhile hex_digit r of
               [] \<Rightarrow> False
             | d # t \<Rightarrow> d = CHR ''.'' \<and> t \<noteq> [] \<and> CHR 0x0A \<notin> set t))"

text \<open>\<open>urllib.parse._check_bracketed_host\<close>.\<close>

definition check_bracketed_host :: "string \<Rightarrow> unit result" where
  "check_bracketed_host h =
     (if take 1 h = ''v''
      then (if ipvfuture h then Inr () else Inl (ValueError ''IPvFuture address is invalid''))
      else (case ip_address h of
              Inl e \<Rightarrow> Inl e
            | Inr (IPv4Address v) \<Rightarrow> Inl (ValueError ''An IPv4 address cannot be in brackets'')
            | Inr (IPv6Address v scope) \<Rightarrow> Inr ()))"

subsection \<open>Arithmetic of the parsers\<close>

text \<open>\<open>ip_int <<= 16; ip_int |= h\<close> with \<open>h < 2 ^ 16\<close> is \<open>ip_int * 65536 + h\<close>;
  \<open>x & 0xFFFF\<close> is \<open>x mod 65536\<close>.\<close>

lemma push_bit_or_small:
  assumes "h < 2 ^ n" shows "push_bit n (a::nat) OR h = a * 2 ^ n + h"
proof -
  have "\<not> bit (push_bit n a) m \<or> \<not> bit h m" for m
  proof (cases "m < n")
    case False
    then have "(2::nat) ^ n \<le> 2 ^ m" by simp
    with assms have "h < 2 ^ m" by (meson less_le_trans)
    then have "h div 2 ^ m = 0" by simp
    then show ?thesis by (simp add: bit_iff_odd)
  qed (simp add: bit_push_bit_iff)
  then show ?thesis by (metis disjunctive_add push_bit_eq_mult)
qed

lemma and_0xFFFF: "(x::nat) AND 0xFFFF = x mod 65536"
  using take_bit_eq_mask [of 16 x] take_bit_eq_mod [of 16 x] by (simp add: mask_eq_exp_minus_1)

lemma int_base_snoc: "int_base b (xs @ [c]) = int_base b xs * b + digit_value c"
  by (simp add: int_base_def)

lemma foldl_digits_bound:
  "list_all (\<lambda>c. digit_value c < b) s \<Longrightarrow>
     foldl (\<lambda>acc c. acc * b + digit_value c) acc s < (acc + 1) * b ^ length s"
proof (induction s arbitrary: acc)
  case (Cons c s)
  then have "foldl (\<lambda>acc c. acc * b + digit_value c) (acc * b + digit_value c) s
      < (acc * b + digit_value c + 1) * b ^ length s" by simp
  also have "\<dots> \<le> (acc + 1) * b * b ^ length s"
    using Cons.prems by (intro mult_right_mono) (auto simp: algebra_simps)
  finally show ?case by (simp add: algebra_simps)
qed simp

lemma int_base_bound: "list_all (\<lambda>c. digit_value c < b) s \<Longrightarrow> int_base b s < b ^ length s"
  using foldl_digits_bound [of b s 0] by (simp add: int_base_def)

lemma hex_digit_value: "hex_digit c \<Longrightarrow> digit_value c < 16"
  by (auto simp: hex_digit_def ascii_digit_def digit_value_def Let_def)

lemma ascii_digit_value: "ascii_digit c \<Longrightarrow> digit_value c < 10"
  by (auto simp: ascii_digit_def digit_value_def Let_def)

lemma parse_hextet_bound: "parse_hextet p = Some h \<Longrightarrow> h < 65536"
proof -
  assume p: "parse_hextet p = Some h"
  then have "list_all (\<lambda>c. digit_value c < 16) p" "length p \<le> 4" "h = int_base 16 p"
    by (auto simp: parse_hextet_def list_all_iff hex_digit_value split: if_splits)
  moreover have "(16::nat) ^ length p \<le> 16 ^ 4" using \<open>length p \<le> 4\<close> by (rule power_increasing) simp
  ultimately show ?thesis using int_base_bound [of 16 p] by simp
qed

lemma parse_octet_bound: "parse_octet p = Some b \<Longrightarrow> b < 256"
  by (auto simp: parse_octet_def Let_def split: if_splits)

lemma hex_char_digit: "d < 16 \<Longrightarrow> hex_digit (hex_char d) \<and> digit_value (hex_char d) = d"
  by (auto simp: hex_char_def hex_digit_def ascii_digit_def digit_value_def Let_def)

lemma hex_format_digits: "list_all hex_digit (hex_format n) \<and> int_base 16 (hex_format n) = n"
proof (induction n rule: hex_format.induct)
  case (1 n)
  show ?case
  proof (cases "n < 16")
    case True
    then show ?thesis by (simp add: hex_format.simps hex_char_digit int_base_def)
  next
    case False
    with 1 show ?thesis by (simp add: hex_format.simps [of n] hex_char_digit int_base_snoc)
  qed
qed

lemma length_hex_format: "n < 16 ^ Suc k \<Longrightarrow> length (hex_format n) \<le> Suc k"
proof (induction n arbitrary: k rule: hex_format.induct)
  case (1 n)
  show ?case
  proof (cases "n < 16")
    case False
    then obtain k' where k: "k = Suc k'" using "1.prems" by (cases k) auto
    with "1.prems" have "n div 16 < 16 ^ Suc k'" by simp
    with 1 False k show ?thesis by (simp add: hex_format.simps [of n])
  qed (simp add: hex_format.simps)
qed

lemma hex_format_ne [simp]: "hex_format n \<noteq> []"
  by (simp add: hex_format.simps [of n])

lemma parse_hextet_hex_format: "n < 65536 \<Longrightarrow> parse_hextet (hex_format n) = Some n"
  using hex_format_digits [of n] length_hex_format [of n 3] by (simp add: parse_hextet_def)

lemma push_bit16_or: "h < 65536 \<Longrightarrow> push_bit 16 (acc::nat) OR h = acc * 65536 + h"
  using push_bit_or_small [of h 16 acc] by simp

lemma hextets_Cons_Some:
  "parse_hextet p = Some h \<Longrightarrow> hextets acc (p # ps) = hextets (acc * 65536 + h) ps"
  using parse_hextet_bound [of p h] push_bit_or_small [of h 16 acc] by simp

lemma hextets_bound: "hextets acc ps = Some v \<Longrightarrow> v < (acc + 1) * 65536 ^ length ps"
proof (induction acc ps rule: hextets.induct)
  case (2 acc p ps)
  then obtain h where h: "parse_hextet p = Some h" by (auto split: option.splits)
  with 2 have "v < (acc * 65536 + h + 1) * 65536 ^ length ps"
    by (simp add: push_bit16_or parse_hextet_bound)
  also have "\<dots> \<le> (acc + 1) * 65536 * 65536 ^ length ps"
    using parse_hextet_bound [OF h] by (intro mult_right_mono) auto
  finally show ?case by (simp add: algebra_simps)
qed simp

lemma hextets_map_hex_format:
  "list_all (\<lambda>w. w < 65536) ws \<Longrightarrow>
     hextets acc (map hex_format ws) = Some (foldl (\<lambda>a w. a * 65536 + w) acc ws)"
  by (induction ws arbitrary: acc) (simp_all add: push_bit16_or parse_hextet_hex_format)

lemma hextets_skip_bound:
  assumes a: "hextets 0 xs = Some a" and v: "hextets (push_bit (16 * k) a) ys = Some v"
    and len: "length xs + k + length ys \<le> 8"
  shows "v < 2 ^ 128"
proof -
  have "a < 65536 ^ length xs" using hextets_bound [OF a] by simp
  then have "push_bit (16 * k) a < 65536 ^ length xs * 65536 ^ k"
    by (simp add: push_bit_eq_mult power_mult)
  then have "push_bit (16 * k) a + 1 \<le> 65536 ^ (length xs + k)" by (simp add: power_add)
  then have "v < 65536 ^ (length xs + k) * 65536 ^ length ys"
    using hextets_bound [OF v] by (meson less_le_trans mult_right_mono zero_le)
  also have "\<dots> = 65536 ^ (length xs + k + length ys)" by (simp add: power_add)
  also have "\<dots> \<le> 65536 ^ 8" using len by (rule power_increasing) simp
  finally show ?thesis by simp
qed

lemma skip_scan_nonempty: "list_all (\<lambda>p. p \<noteq> []) ps \<Longrightarrow> skip_scan ps i sk = Some sk"
  by (induction ps i sk rule: skip_scan.induct) auto

lemma py_split_sep_none: "c \<notin> set s \<Longrightarrow> py_split_sep c s = [s]"
  by (induction s) auto

lemma py_split_sep_append:
  "c \<notin> set x \<Longrightarrow> py_split_sep c (x @ c # y) = x # py_split_sep c y"
  by (induction x) (auto split: list.splits)

lemma py_split_sep_join:
  "xs \<noteq> [] \<Longrightarrow> \<forall>x\<in>set xs. c \<notin> set x \<Longrightarrow> py_split_sep c (py_join [c] xs) = xs"
  by (induction "[c]" xs rule: py_join.induct) (simp_all add: py_split_sep_none py_split_sep_append)

lemma in_py_split_sep: "x \<in> set s \<Longrightarrow> x \<noteq> c \<Longrightarrow> \<exists>w\<in>set (py_split_sep c s). x \<in> set w"
  by (induction s) (force split: list.splits)+

lemma hex_format_chars: "c \<in> set (hex_format n) \<Longrightarrow> hex_digit c"
  using hex_format_digits [of n] by (simp add: list_all_iff)

lemma not_ascii_digit_colon: "\<not> ascii_digit CHR '':''"
  by (simp add: ascii_digit_def)

lemma not_hex_digit [simp]: "\<not> hex_digit CHR '':''" "\<not> hex_digit CHR ''.''"
  by (simp_all add: hex_digit_def ascii_digit_def)

lemma from_bytes_Some:
  "from_bytes acc os = Some v \<Longrightarrow>
     (\<forall>o1\<in>set os. parse_octet o1 \<noteq> None) \<and> v < (acc + 1) * 256 ^ length os"
proof (induction acc os rule: from_bytes.induct)
  case (2 acc o1 os)
  then obtain b where b: "parse_octet o1 = Some b" by (auto split: option.splits)
  with 2 have IH: "(\<forall>o1\<in>set os. parse_octet o1 \<noteq> None) \<and> v < (acc * 256 + b + 1) * 256 ^ length os"
    by simp
  have "v < (acc + 1) * 256 ^ length (o1 # os)"
  proof -
    from IH have "v < (acc * 256 + b + 1) * 256 ^ length os" by simp
    also have "\<dots> \<le> (acc + 1) * 256 * 256 ^ length os"
      using parse_octet_bound [OF b] by (intro mult_right_mono) auto
    finally show ?thesis by (simp add: algebra_simps)
  qed
  with IH b show ?case by simp
qed simp

lemma ipv4_address_Some:
  assumes "ipv4_address s = Some v"
  shows "v < 2 ^ 32" and "CHR ''.'' \<in> set s" and "list_all (\<lambda>c. c = CHR ''.'' \<or> ascii_digit c) s"
proof -
  from assms have nd: "from_bytes 0 (py_split_sep CHR ''.'' s) = Some v"
    and len: "length (py_split_sep CHR ''.'' s) = 4"
    by (auto simp: ipv4_address_def ipv4_int_from_string_def Let_def split: if_splits)
  from from_bytes_Some [OF nd] len show "v < 2 ^ 32" by simp
  show "CHR ''.'' \<in> set s"
  proof (rule ccontr)
    assume "CHR ''.'' \<notin> set s"
    with len show False by (simp add: py_split_sep_none)
  qed
  have "\<forall>o1\<in>set (py_split_sep CHR ''.'' s). list_all ascii_digit o1"
    using from_bytes_Some [OF nd] by (auto simp: parse_octet_def split: if_splits)
  then show "list_all (\<lambda>c. c = CHR ''.'' \<or> ascii_digit c) s"
    by (auto simp: list_all_iff dest: in_py_split_sep)
qed

lemma ipv6_layout_total: "ipv6_layout parts = Some (hi, lo, sk) \<Longrightarrow> hi + lo + sk = 8"
  by (auto simp: ipv6_layout_def Let_def split: option.splits if_splits)

lemma ipv6_int_from_string_bound: "ipv6_int_from_string s = Some v \<Longrightarrow> v < 2 ^ 128"
proof -
  assume "ipv6_int_from_string s = Some v"
  then obtain parts hi lo sk a where l: "ipv6_layout parts = Some (hi, lo, sk)"
    and a: "hextets 0 (take hi parts) = Some a"
    and v: "hextets (push_bit (16 * sk) a) (drop (length parts - lo) parts) = Some v"
    by (auto simp: ipv6_int_from_string_def Let_def split: if_splits option.splits)
  have "length (take hi parts) + sk + length (drop (length parts - lo) parts) \<le> 8"
    using ipv6_layout_total [OF l] by auto
  with a v show ?thesis by (rule hextets_skip_bound)
qed

lemma ipv6_layout_full:
  "length parts = 8 \<Longrightarrow> list_all (\<lambda>p. p \<noteq> []) parts \<Longrightarrow> ipv6_layout parts = Some (8, 0, 0)"
proof -
  assume len: "length parts = 8" and ne: "list_all (\<lambda>p. p \<noteq> []) parts"
  then have "list_all (\<lambda>p. p \<noteq> []) (butlast (tl parts))"
    by (cases parts) (auto simp: list_all_iff dest: in_set_butlastD)
  moreover have "hd parts \<noteq> []" "last parts \<noteq> []"
    using len ne by (cases parts; simp add: list_all_iff)+
  ultimately show ?thesis using len by (simp add: ipv6_layout_def skip_scan_nonempty)
qed

lemma hex_format_ffff: "hex_format 65535 = ''ffff''"
  by (simp add: hex_format.simps hex_char_def char_of_eq_iff)

lemma ipv6_address_bound: "ipv6_address s = Some (v, scope) \<Longrightarrow> v < 2 ^ 128"
  by (auto simp: ipv6_address_def split: if_splits option.splits dest: ipv6_int_from_string_bound)

lemmas ip_eval = ip_address_def ipv4_address_def ipv6_address_def ipv4_int_from_string_def
  ipv6_int_from_string_def ipv6_layout_def split_scope_id_def ipv4_suffix_def parse_hextet_def
  parse_octet_def int_base_def digit_value_def hex_digit_def ascii_digit_def split_first_def
  check_bracketed_host_def ipvfuture_def push_bit_eq_mult

subsection \<open>Properties\<close>

text \<open>
  The value of a parsed address fits its width: an \<open>IPv4Address\<close>
  is below \<open>2 ^ 32\<close> and an \<open>IPv6Address\<close> below \<open>2 ^ 128\<close>, whatever
  string \<open>ip_address\<close> accepted.
\<close>

theorem ip_address_bounds:
  "ip_address s = Inr a \<Longrightarrow> (case a of IPv4Address v \<Rightarrow> v < 2 ^ 32 | IPv6Address v scope \<Rightarrow> v < 2 ^ 128)"
  by (auto simp: ip_address_def split: option.splits prod.splits
      dest: ipv4_address_Some(1) ipv6_address_bound)

theorem ip_address_bounds_witness:
  "ip_address ''::1'' = Inr (IPv6Address 1 None) \<and> (1::nat) < 2 ^ 128"
proof -
  have e: "ip_address ''::1'' = Inr (IPv6Address 1 None)" by (simp add: ip_eval Let_def)
  from ip_address_bounds [OF e] e show ?thesis by simp
qed

text \<open>
  Printing eight 16-bit groups with \<open>'%x'\<close> and joining them with
  colons gives a string that \<open>IPv6Address\<close> parses back to the number whose
  hextets they are, most significant first.
\<close>

theorem ipv6_full_form_roundtrip:
  "length ws = 8 \<Longrightarrow> list_all (\<lambda>w. w < 65536) ws \<Longrightarrow>
     ipv6_int_from_string (py_join '':'' (map hex_format ws)) = Some (foldl (\<lambda>a w. a * 65536 + w) 0 ws)"
proof -
  assume len: "length ws = 8" and ws: "list_all (\<lambda>w. w < 65536) ws"
  let ?parts = "map hex_format ws"
  have "\<forall>x\<in>set ?parts. CHR '':'' \<notin> set x" by (auto dest: hex_format_chars)
  then have split: "py_split_sep CHR '':'' (py_join '':'' ?parts) = ?parts"
    using len by (intro py_split_sep_join) auto
  then have ne: "py_join '':'' ?parts \<noteq> []" using len by auto
  have "ws \<noteq> []" using len by auto
  then have "CHR ''.'' \<notin> set (last ?parts)" by (auto simp: last_map dest: hex_format_chars)
  then have sfx: "ipv4_suffix ?parts = Some ?parts" by (simp add: ipv4_suffix_def)
  have lay: "ipv6_layout ?parts = Some (8, 0, 0)"
    using len by (intro ipv6_layout_full) (simp_all add: list_all_iff)
  show ?thesis
    using split ne sfx lay len hextets_map_hex_format [OF ws, of 0]
    by (simp add: ipv6_int_from_string_def)
qed

theorem ipv6_full_form_roundtrip_witness:
  "ipv6_int_from_string ''1:2:3:4:5:6:7:8'' = Some 5192455318486707404433266433261576"
proof -
  have "py_join '':'' (map hex_format [1, 2, 3, 4, 5, 6, 7, 8]) = ''1:2:3:4:5:6:7:8''"
    by (simp add: hex_format.simps hex_char_def char_of_eq_iff)
  moreover have "foldl (\<lambda>a w. a * 65536 + w) 0 [1, 2, 3, 4, 5, 6, 7, 8::nat]
      = 5192455318486707404433266433261576" by simp
  moreover have "ipv6_int_from_string (py_join '':'' (map hex_format [1, 2, 3, 4, 5, 6, 7, 8]))
      = Some (foldl (\<lambda>a w. a * 65536 + w) 0 [1, 2, 3, 4, 5, 6, 7, 8::nat])"
    by (rule ipv6_full_form_roundtrip) simp_all
  ultimately show ?thesis by simp
qed

text \<open>
  An IPv4 address written after \<open>::ffff:\<close> is the IPv4-mapped
  IPv6 address: the dotted quad is parsed, printed as two hextets with
  \<open>'%x'\<close> and parsed again, and the value is \<open>0xFFFF * 2 ^ 32\<close> plus the
  IPv4 value.
\<close>

theorem ipv6_mapped_ipv4:
  "ipv4_address s = Some v \<Longrightarrow> ipv6_int_from_string (''::ffff:'' @ s) = Some (0xFFFF * 2 ^ 32 + v)"
proof -
  assume s: "ipv4_address s = Some v"
  note facts = ipv4_address_Some [OF s]
  have "CHR '':'' \<notin> set s" using facts(3) not_ascii_digit_colon unfolding list_all_iff by fastforce
  then have split: "py_split_sep CHR '':'' (''::ffff:'' @ s) = [[], [], ''ffff'', s]"
    by (simp add: py_split_sep_none)
  have hi: "v div 65536 < 65536" using facts(1) by simp
  have sfx: "ipv4_suffix [[], [], ''ffff'', s] =
      Some [[], [], ''ffff'', hex_format (v div 65536), hex_format (v mod 65536)]"
    using s facts(2) hi by (simp add: ipv4_suffix_def and_0xFFFF drop_bit_eq_div)
  have lay: "ipv6_layout [[], [], ''ffff'', hex_format (v div 65536), hex_format (v mod 65536)]
      = Some (0, 3, 5)"
    by (simp add: ipv6_layout_def)
  have "hextets 0 (map hex_format [65535, v div 65536, v mod 65536])
      = Some ((65535 * 65536 + v div 65536) * 65536 + v mod 65536)"
    using hi by (subst hextets_map_hex_format) simp_all
  also have "(65535 * 65536 + v div 65536) * 65536 + v mod 65536 = 0xFFFF * 2 ^ 32 + v"
    using facts(1) by simp
  finally have hx: "hextets 0 [''ffff'', hex_format (v div 65536), hex_format (v mod 65536)]
      = Some (0xFFFF * 2 ^ 32 + v)"
    by (simp only: list.map hex_format_ffff)
  show ?thesis using split sfx lay hx
    by (simp add: ipv6_int_from_string_def del: hextets.simps(2))
qed

theorem ipv6_mapped_ipv4_witness:
  "ipv6_int_from_string ''::ffff:1.2.3.4'' = Some 0xFFFF01020304"
proof -
  have "ipv4_address ''1.2.3.4'' = Some 16909060" by (simp add: ip_eval Let_def)
  from ipv6_mapped_ipv4 [OF this] show ?thesis by simp
qed

end
