(* ===== verification/Url.thy ===== *)
theory Url
  imports IpAddress
begin

text \<open>
  \<open>urllib.parse.urljoin\<close>, which \<open>extract_recipe_links\<close> and
  \<open>parse_recipe\<close> call to make links and image sources absolute, and the
  \<open>urlsplit\<close>/\<open>urlparse\<close>/\<open>urlunparse\<close> it is built from, as CPython 3.11
  writes them: leading C0 controls and spaces are stripped and tab, CR and LF
  removed; a scheme is a prefix of ASCII letters, digits and \<open>+-.\<close> before
  the first colon that starts with a letter; \<open>//\<close> starts a network location
  that ends at the first \<open>/\<close>, \<open>?\<close> or \<open>#\<close>; a network location with an
  unbalanced bracket raises \<open>ValueError\<close>, and so does one whose
  bracketed host (the text between the first \<open>[\<close> and the next
  \<open>]\<close>) is neither an IPvFuture literal nor an IPv6 address
  (\<open>_check_bracketed_host\<close>, theory \<open>IpAddress\<close>); the fragment is split
  off before the query; parameters (\<open>;\<close> in the last path segment) are
  split off for the schemes of \<open>uses_params\<close>.  \<open>urljoin\<close> then follows
  RFC 3986 with CPython's treatment of \<open>.\<close>, \<open>..\<close> and empty segments.
  This is library code, modelled from the CPython source.  The NFKC check of
  non-ASCII network locations (\<open>_checknetloc\<close>) is left out because it
  cannot raise here: no character below 256 has an NFKC form containing
  \<open>/?#@:\<close>, and the model's strings are Latin-1.
\<close>

definition uses_relative :: "string list" where
  "uses_relative = [[], ''ftp'', ''http'', ''gopher'', ''nntp'', ''imap'', ''wais'', ''file'',
     ''https'', ''shttp'', ''mms'', ''prospero'', ''rtsp'', ''rtsps'', ''rtspu'', ''sftp'',
     ''svn'', ''svn+ssh'', ''ws'', ''wss'']"

definition uses_netloc :: "string list" where
  "uses_netloc = [[], ''ftp'', ''http'', ''gopher'', ''nntp'', ''telnet'', ''imap'', ''wais'',
     ''file'', ''mms'', ''https'', ''shttp'', ''snews'', ''prospero'', ''rtsp'', ''rtsps'',
     ''rtspu'', ''rsync'', ''svn'', ''svn+ssh'', ''sftp'', ''nfs'', ''git'', ''git+ssh'',
     ''ws'', ''wss'']"

definition uses_params :: "string list" where
  "uses_params = [[], ''ftp'', ''hdl'', ''prospero'', ''http'', ''imap'', ''https'', ''shttp'',
     ''rtsp'', ''rtsps'', ''rtspu'', ''sip'', ''sips'', ''mms'', ''sftp'', ''tel'']"

definition c0_or_space :: "char \<Rightarrow> bool" where
  "c0_or_space c \<longleftrightarrow> (of_char c :: nat) \<le> 32"

definition url_unsafe :: "char \<Rightarrow> bool" where
  "url_unsafe c \<longleftrightarrow> c = CHR 0x09 \<or> c = CHR 0x0D \<or> c = CHR 0x0A"

definition ascii_alpha :: "char \<Rightarrow> bool" where
  "ascii_alpha c \<longleftrightarrow>
     (let n = (of_char c :: nat) in (65 \<le> n \<and> n \<le> 90) \<or> (97 \<le> n \<and> n \<le> 122))"

definition scheme_char :: "char \<Rightarrow> bool" where
  "scheme_char c \<longleftrightarrow>
     ascii_alpha c \<or> (let n = (of_char c :: nat) in 48 \<le> n \<and> n \<le> 57)
     \<or> c = CHR ''+'' \<or> c = CHR ''-'' \<or> c = CHR ''.''"

record url_parts =
  up_scheme :: string
  up_netloc :: string
  up_path :: string
  up_params :: string
  up_query :: string
  up_fragment :: string

text \<open>The scheme test of \<open>urlsplit\<close>: \<open>i = url.find(':')\<close>, \<open>i > 0\<close>, \<open>url[0]\<close> an
  ASCII letter, every character before \<open>i\<close> a scheme character.\<close>

definition split_scheme :: "string \<Rightarrow> string \<Rightarrow> string \<times> string" where
  "split_scheme scheme url =
     (let i = takeWhile (\<lambda>c. c \<noteq> CHR '':'') url
      in if CHR '':'' \<in> set url \<and> i \<noteq> [] \<and> ascii_alpha (hd url) \<and> list_all scheme_char i
         then (py_lower i, drop 1 (dropWhile (\<lambda>c. c \<noteq> CHR '':'') url))
         else (scheme, url))"

definition netloc_delim :: "char \<Rightarrow> bool" where
  "netloc_delim c \<longleftrightarrow> c = CHR ''/'' \<or> c = CHR ''?'' \<or> c = CHR ''#''"

text \<open>\<open>netloc.partition('[')[2].partition(']')[0]\<close>.\<close>

definition bracketed_host :: "string \<Rightarrow> string" where
  "bracketed_host netloc = fst (split_first CHR '']'' (snd (split_first CHR ''['' netloc)))"

definition urlsplit :: "string \<Rightarrow> string \<Rightarrow> url_parts result" where
  "urlsplit url0 scheme0 =
     (let url1 = filter (\<lambda>c. \<not> url_unsafe c) (dropWhile c0_or_space url0);
          scheme1 = filter (\<lambda>c. \<not> url_unsafe c)
                      (rev (dropWhile c0_or_space (rev (dropWhile c0_or_space scheme0))));
          (scheme, url2) = split_scheme scheme1 url1;
          (netloc, url3) =
             (if take 2 url2 = ''//''
              then (takeWhile (\<lambda>c. \<not> netloc_delim c) (drop 2 url2),
                    dropWhile (\<lambda>c. \<not> netloc_delim c) (drop 2 url2))
              else ([], url2))
      in if (CHR ''['' \<in> set netloc \<and> CHR '']'' \<notin> set netloc)
            \<or> (CHR '']'' \<in> set netloc \<and> CHR ''['' \<notin> set netloc)
         then Inl (ValueError ''Invalid IPv6 URL'')
         else
           (case (if CHR ''['' \<in> set netloc \<and> CHR '']'' \<in> set netloc
                  then check_bracketed_host (bracketed_host netloc) else Inr ()) of
              Inl e \<Rightarrow> Inl e
            | Inr _ \<Rightarrow>
              (let (url4, fragment) =
                     (if CHR ''#'' \<in> set url3 then split_first CHR ''#'' url3 else (url3, []));
                   (path, query) =
                     (if CHR ''?'' \<in> set url4 then split_first CHR ''?'' url4 else (url4, []))
               in Inr \<lparr>up_scheme = scheme, up_netloc = netloc, up_path = path, up_params = [],
                       up_query = query, up_fragment = fragment\<rparr>)))"

text \<open>\<open>_splitparams\<close>: the first \<open>;\<close> after the last \<open>/\<close>.\<close>

definition split_params :: "string \<Rightarrow> string \<times> string" where
  "split_params url =
     (let dir = rev (dropWhile (\<lambda>c. c \<noteq> CHR ''/'') (rev url));
          seg = rev (takeWhile (\<lambda>c. c \<noteq> CHR ''/'') (rev url))
      in if CHR '';'' \<in> set seg
         then (dir @ takeWhile (\<lambda>c. c \<noteq> CHR '';'') seg, drop 1 (dropWhile (\<lambda>c. c \<noteq> CHR '';'') seg))
         else (url, []))"

definition urlparse :: "string \<Rightarrow> string \<Rightarrow> url_parts result" where
  "urlparse url scheme =
     (case urlsplit url scheme of
        Inl e \<Rightarrow> Inl e
      | Inr r \<Rightarrow>
          if up_scheme r \<in> set uses_params \<and> CHR '';'' \<in> set (up_path r)
          then (let (p, params) = split_params (up_path r) in Inr (r\<lparr>up_path := p, up_params := params\<rparr>))
          else Inr r)"

definition urlunsplit :: "string \<Rightarrow> string \<Rightarrow> string \<Rightarrow> string \<Rightarrow> string \<Rightarrow> string" where
  "urlunsplit scheme netloc url query fragment =
     (let url1 =
        (if netloc \<noteq> [] \<or> (scheme \<noteq> [] \<and> scheme \<in> set uses_netloc) \<or> take 2 url = ''//''
         then ''//'' @ netloc @ (if url \<noteq> [] \<and> hd url \<noteq> CHR ''/'' then CHR ''/'' # url else url)
         else url);
          url2 = (if scheme \<noteq> [] then scheme @ '':'' @ url1 else url1);
          url3 = (if query \<noteq> [] then url2 @ ''?'' @ query else url2)
      in if fragment \<noteq> [] then url3 @ ''#'' @ fragment else url3)"

definition urlunparse :: "url_parts \<Rightarrow> string" where
  "urlunparse p =
     urlunsplit (up_scheme p) (up_netloc p)
       (if up_params p \<noteq> [] then up_path p @ '';'' @ up_params p else up_path p)
       (up_query p) (up_fragment p)"

fun resolve_path :: "string list \<Rightarrow> string list \<Rightarrow> string list" where
  "resolve_path acc [] = acc"
| "resolve_path acc (seg # segs) =
     (if seg = ''..'' then resolve_path (butlast acc) segs
      else if seg = ''.'' then resolve_path acc segs
      else resolve_path (acc @ [seg]) segs)"

text \<open>\<open>segments[1:-1] = filter(None, segments[1:-1])\<close>.\<close>

definition filter_middle :: "string list \<Rightarrow> string list" where
  "filter_middle xs =
     (if length xs < 2 then xs else hd xs # filter (\<lambda>s. s \<noteq> []) (butlast (tl xs)) @ [last xs])"

definition join_path :: "url_parts \<Rightarrow> url_parts \<Rightarrow> string" where
  "join_path b u =
     (let base_parts0 = py_split_sep CHR ''/'' (up_path b);
          base_parts = (if last base_parts0 \<noteq> [] then butlast base_parts0 else base_parts0);
          segments = (if take 1 (up_path u) = ''/'' then py_split_sep CHR ''/'' (up_path u)
                      else filter_middle (base_parts @ py_split_sep CHR ''/'' (up_path u)));
          resolved0 = resolve_path [] segments;
          resolved = (if last segments = ''.'' \<or> last segments = ''..''
                      then resolved0 @ [[]] else resolved0);
          p = py_join ''/'' resolved
      in if p = [] then ''/'' else p)"

definition urljoin :: "string \<Rightarrow> string \<Rightarrow> string result" where
  "urljoin base url =
     (if base = [] then Inr url
      else if url = [] then Inr base
      else (case urlparse base [] of
        Inl e \<Rightarrow> Inl e
      | Inr b \<Rightarrow>
          (case urlparse url (up_scheme b) of
             Inl e \<Rightarrow> Inl e
           | Inr u \<Rightarrow>
               if up_scheme u \<noteq> up_scheme b \<or> up_scheme u \<notin> set uses_relative then Inr url
               else if up_scheme u \<in> set uses_netloc \<and> up_netloc u \<noteq> [] then Inr (urlunparse u)
               else
                 (let u1 = (if up_scheme u \<in> set uses_netloc then u\<lparr>up_netloc := up_netloc b\<rparr> else u)
                  in if up_path u1 = [] \<and> up_params u1 = []
                     then Inr (urlunparse (u1\<lparr>up_path := up_path b, up_params := up_params b,
                                  up_query := (if up_query u1 = [] then up_query b else up_query u1)\<rparr>))
                     else Inr (urlunparse (u1\<lparr>up_path := join_path b u1\<rparr>))))))"


subsection \<open>The bracketed host check\<close>

lemma urlsplit_clean_id:
  "list_all (\<lambda>c. \<not> url_unsafe c) (h @ rest) \<Longrightarrow>
     filter (\<lambda>c. \<not> url_unsafe c) (dropWhile c0_or_space (''//['' @ h @ '']'' @ rest))
       = ''//['' @ h @ '']'' @ rest"
  by (simp add: c0_or_space_def url_unsafe_def list_all_iff)

lemma split_scheme_slashes: "split_scheme s (''//'' @ u) = (s, ''//'' @ u)"
  by (simp add: split_scheme_def ascii_alpha_def)

lemma netloc_bracketed:
  assumes h: "\<forall>c\<in>set h. \<not> netloc_delim c \<and> c \<noteq> CHR '']''"
    and r: "rest = [] \<or> netloc_delim (hd rest)"
  shows "takeWhile (\<lambda>c. \<not> netloc_delim c) (''['' @ h @ '']'' @ rest) = ''['' @ h @ '']''"
    and "dropWhile (\<lambda>c. \<not> netloc_delim c) (''['' @ h @ '']'' @ rest) = rest"
proof -
  have nd: "\<not> netloc_delim CHR ''[''" "\<not> netloc_delim CHR '']''" by (simp_all add: netloc_delim_def)
  have "takeWhile (\<lambda>c. \<not> netloc_delim c) rest = []" "dropWhile (\<lambda>c. \<not> netloc_delim c) rest = rest"
    using r by (cases rest; auto)+
  then show "takeWhile (\<lambda>c. \<not> netloc_delim c) (''['' @ h @ '']'' @ rest) = ''['' @ h @ '']''"
    "dropWhile (\<lambda>c. \<not> netloc_delim c) (''['' @ h @ '']'' @ rest) = rest"
    using h nd by (simp_all add: takeWhile_append2 dropWhile_append2)
qed

lemma urljoin_split_error:
  "base \<noteq> [] \<Longrightarrow> url \<noteq> [] \<Longrightarrow> urlparse base [] = Inr b \<Longrightarrow> urlsplit url (up_scheme b) = Inl e \<Longrightarrow>
     urljoin base url = Inl e"
  by (simp add: urljoin_def urlparse_def)

lemma bracketed_host_simple:
  "\<forall>c\<in>set h. c \<noteq> CHR ''['' \<and> c \<noteq> CHR '']'' \<Longrightarrow> bracketed_host (''['' @ h @ '']'') = h"
  by (simp add: bracketed_host_def split_first_def takeWhile_append2)

text \<open>
  A URL \<open>//[h]\<close> followed by a path, query or fragment (or nothing)
  raises exactly the \<open>ValueError\<close> of \<open>_check_bracketed_host(h)\<close> when that
  check fails, and otherwise splits with the network location \<open>[h]\<close>.
\<close>

theorem urlsplit_bracketed_host:
  assumes h: "list_all (\<lambda>c. \<not> netloc_delim c \<and> \<not> url_unsafe c \<and> c \<noteq> CHR ''['' \<and> c \<noteq> CHR '']'') h"
    and rest: "list_all (\<lambda>c. \<not> url_unsafe c) rest" "rest = [] \<or> netloc_delim (hd rest)"
  shows "(case check_bracketed_host h of
            Inl e \<Rightarrow> urlsplit (''//['' @ h @ '']'' @ rest) sch = Inl e
          | Inr _ \<Rightarrow> (\<exists>p. urlsplit (''//['' @ h @ '']'' @ rest) sch = Inr p \<and> up_netloc p = ''['' @ h @ '']''))"
proof -
  have s1: "filter (\<lambda>c. \<not> url_unsafe c) (dropWhile c0_or_space (''//['' @ h @ '']'' @ rest))
      = ''//['' @ h @ '']'' @ rest"
    using h rest(1) by (intro urlsplit_clean_id) (auto simp: list_all_iff)
  have s2: "split_scheme s (''//['' @ h @ '']'' @ rest) = (s, ''//['' @ h @ '']'' @ rest)" for s
    using split_scheme_slashes [of s "''['' @ h @ '']'' @ rest"] by simp
  from h have h': "\<forall>c\<in>set h. \<not> netloc_delim c \<and> c \<noteq> CHR '']''"
    "\<forall>c\<in>set h. c \<noteq> CHR ''['' \<and> c \<noteq> CHR '']''"
    by (simp_all add: list_all_iff)
  have net: "(if take 2 (''//['' @ h @ '']'' @ rest) = ''//''
      then (takeWhile (\<lambda>c. \<not> netloc_delim c) (drop 2 (''//['' @ h @ '']'' @ rest)),
            dropWhile (\<lambda>c. \<not> netloc_delim c) (drop 2 (''//['' @ h @ '']'' @ rest)))
      else ([], ''//['' @ h @ '']'' @ rest)) = (''['' @ h @ '']'', rest)"
    using netloc_bracketed [OF h'(1) rest(2)] by simp
  have br: "CHR ''['' \<in> set (''['' @ h @ '']'')" "CHR '']'' \<in> set (''['' @ h @ '']'')" by simp_all
  note bh = bracketed_host_simple [OF h'(2)]
  show ?thesis
    unfolding urlsplit_def Let_def s1 s2 prod.case net
    by (simp only: br bh simp_thms if_True if_False)
      (cases "check_bracketed_host h"; simp split: prod.split)
qed

theorem urlsplit_bracketed_host_witness:
  "urlsplit ''//[recipe]/'' [] =
     Inl (ValueError ([CHR 0x27] @ ''recipe'' @ [CHR 0x27] @ '' does not appear to be an IPv4 or IPv6 address''))"
proof -
  have c: "check_bracketed_host ''recipe'' =
      Inl (ValueError ([CHR 0x27] @ ''recipe'' @ [CHR 0x27] @ '' does not appear to be an IPv4 or IPv6 address''))"
    by (simp add: ip_eval Let_def py_repr_def repr_char_def py_printable_def)
  have "list_all (\<lambda>c. \<not> netloc_delim c \<and> \<not> url_unsafe c \<and> c \<noteq> CHR ''['' \<and> c \<noteq> CHR '']'') ''recipe''"
    "list_all (\<lambda>c. \<not> url_unsafe c) ''/''" "''/'' = [] \<or> netloc_delim (hd ''/'')"
    by (simp_all add: netloc_delim_def url_unsafe_def)
  from urlsplit_bracketed_host [OF this, of "[]"] c show ?thesis by simp
qed

end
