(* ===== verification/Fetch.thy ===== *)
theory Fetch
  imports Prelude
begin

text \<open>
  The HTTP side of \<open>src/scrape_recipes.py\<close>.  Lines 13--26 build one
  \<open>requests.Session\<close> whose adapters retry with
  \<open>Retry(total=3, backoff_factor=1, status_forcelist=[429, 500, 502, 503, 504, 403])\<close>;
  \<open>extract_recipe_links\<close> and \<open>parse_recipe\<close> call \<open>session.get(url)\<close>
  and then \<open>response.raise_for_status()\<close> (lines 52--53, 65--66).

  The server is the input: \<open>srv k\<close> is its answer to the \<open>k\<close>-th attempt
  (counting from 0) at the URL, a status with a body, or a transport failure.
  Following urllib3, an answer whose status is in the force list, or a
  transport failure, spends one unit of the budget of 3 and is retried after
  sleeping \<open>backoff_time n\<close> seconds, \<open>n\<close> the number of failed attempts so
  far: 0 after the first, then \<open>backoff_factor * 2^(n-1)\<close>, capped at 120.
  When the budget is spent, a forced status raises \<open>RetryError\<close> (requests'
  wrapper of \<open>MaxRetryError\<close> with a response reason) and a transport failure
  \<open>ConnectionError\<close>.  Any other answer is returned, and
  \<open>raise_for_status\<close> turns a 4xx or 5xx status into \<open>HTTPError\<close>.
  Not modelled: \<open>Retry-After\<close> headers (the answers carry none), redirects
  (the answers are those after requests has followed them), and time-outs: the
  session sets none, so a server that never answers stalls the run, which an
  answer function cannot express.
\<close>

datatype 'b answer = Answer nat 'b | TransportFailure

datatype 'b response = Response nat 'b

definition status_forcelist :: "nat list" where
  "status_forcelist = [429, 500, 502, 503, 504, 403]"

definition retry_total :: nat where
  "retry_total = 3"

definition backoff_factor :: nat where
  "backoff_factor = 1"

definition backoff_time :: "nat \<Rightarrow> nat" where
  "backoff_time n = (if n \<le> 1 then 0 else min 120 (backoff_factor * 2 ^ (n - 1)))"

text \<open>
  \<open>retry_loop r k srv\<close>: attempt number \<open>k\<close> with \<open>r\<close> retries left; the
  result and the sleeps taken between attempts.
\<close>

primrec retry_loop :: "nat \<Rightarrow> nat \<Rightarrow> (nat \<Rightarrow> 'b answer) \<Rightarrow> 'b response result \<times> nat list" where
  "retry_loop 0 k srv =
     (case srv k of
        TransportFailure \<Rightarrow> (Inl ConnectionError, [])
      | Answer st b \<Rightarrow>
          if st \<in> set status_forcelist then (Inl (RetryError st), []) else (Inr (Response st b), []))"
| "retry_loop (Suc r) k srv =
     (case srv k of
        TransportFailure \<Rightarrow>
          (let (res, sl) = retry_loop r (Suc k) srv in (res, backoff_time (Suc k) # sl))
      | Answer st b \<Rightarrow>
          if st \<in> set status_forcelist
          then (let (res, sl) = retry_loop r (Suc k) srv in (res, backoff_time (Suc k) # sl))
          else (Inr (Response st b), []))"

definition session_get :: "(nat \<Rightarrow> 'b answer) \<Rightarrow> 'b response result \<times> nat list" where
  "session_get srv = retry_loop retry_total 0 srv"

definition raise_for_status :: "'b response \<Rightarrow> 'b result" where
  "raise_for_status resp =
     (case resp of Response st b \<Rightarrow> if 400 \<le> st \<and> st < 600 then Inl (HTTPError st) else Inr b)"

text \<open>\<open>response = session.get(url); response.raise_for_status()\<close>.\<close>

definition fetch :: "(nat \<Rightarrow> 'b answer) \<Rightarrow> 'b result" where
  "fetch srv = (case fst (session_get srv) of Inl e \<Rightarrow> Inl e | Inr resp \<Rightarrow> raise_for_status resp)"

subsection \<open>The contract of one fetch\<close>

text \<open>
  The abstract view: attempts \<open>0 .. retry_total\<close> are made in order until one
  gives an answer that is not retried; that answer decides.  If all of them are
  retried, the last one decides the error.
\<close>

definition retried :: "'b answer \<Rightarrow> bool" where
  "retried a = (case a of TransportFailure \<Rightarrow> True | Answer st _ \<Rightarrow> st \<in> set status_forcelist)"

definition final_error :: "'b answer \<Rightarrow> py_error" where
  "final_error a = (case a of TransportFailure \<Rightarrow> ConnectionError | Answer st _ \<Rightarrow> RetryError st)"

definition first_final :: "nat \<Rightarrow> (nat \<Rightarrow> 'b answer) \<Rightarrow> nat option" where
  "first_final n srv = find (\<lambda>k. \<not> retried (srv k)) [0..<n]"

definition fetch_spec :: "(nat \<Rightarrow> 'b answer) \<Rightarrow> 'b result" where
  "fetch_spec srv =
     (case first_final (Suc retry_total) srv of
        None \<Rightarrow> Inl (final_error (srv retry_total))
      | Some i \<Rightarrow>
          (case srv i of
             Answer st b \<Rightarrow> if 400 \<le> st \<and> st < 600 then Inl (HTTPError st) else Inr b
           | TransportFailure \<Rightarrow> Inl ConnectionError))"

lemma retry_loop_retried:
  "retried (srv k) \<Longrightarrow> fst (retry_loop (Suc r) k srv) = fst (retry_loop r (Suc k) srv)"
  by (cases "srv k") (auto simp: retried_def split: prod.splits)

lemma retry_loop_spec:
  "fst (retry_loop r k srv) =
     (case find (\<lambda>i. \<not> retried (srv i)) [k..<Suc (k + r)] of
        Some i \<Rightarrow> (case srv i of Answer st b \<Rightarrow> Inr (Response st b) | TransportFailure \<Rightarrow> Inl ConnectionError)
      | None \<Rightarrow> Inl (final_error (srv (k + r))))"
proof (induction r arbitrary: k)
  case 0
  then show ?case
    by (cases "srv k") (auto simp: retried_def final_error_def)
next
  case (Suc r)
  show ?case
  proof (cases "retried (srv k)")
    case True
    then have "find (\<lambda>i. \<not> retried (srv i)) [k..<Suc (k + Suc r)]
                 = find (\<lambda>i. \<not> retried (srv i)) [Suc k..<Suc (Suc k + r)]"
      by (simp del: upt_Suc add: upt_conv_Cons)
    with True Suc.IH [of "Suc k"] show ?thesis
      by (simp add: retry_loop_retried del: upt_Suc retry_loop.simps cong: option.case_cong)
  next
    case False
    then obtain st b where a: "srv k = Answer st b" and nf: "st \<notin> set status_forcelist"
      by (cases "srv k") (auto simp: retried_def)
    then have "\<not> retried (srv k)" by (simp add: retried_def)
    then have "find (\<lambda>i. \<not> retried (srv i)) [k..<Suc (k + Suc r)] = Some k"
      by (simp del: upt_Suc add: upt_conv_Cons)
    with a nf show ?thesis by simp
  qed
qed

lemma length_retry_loop: "length (snd (retry_loop r k srv)) \<le> r"
proof (induction r arbitrary: k)
  case 0
  show ?case by (cases "srv k") auto
next
  case (Suc r)
  obtain res sl where rl: "retry_loop r (Suc k) srv = (res, sl)"
    by (cases "retry_loop r (Suc k) srv")
  have "length sl \<le> r" using Suc.IH [of "Suc k"] rl by simp
  then show ?case using rl by (cases "srv k") auto
qed

lemma retry_loop_sleeps:
  "prefix (snd (retry_loop r k srv)) (map backoff_time [Suc k..<Suc (k + r)])"
proof (induction r arbitrary: k)
  case 0
  show ?case by (cases "srv k") auto
next
  case (Suc r)
  obtain res sl where rl: "retry_loop r (Suc k) srv = (res, sl)"
    by (cases "retry_loop r (Suc k) srv")
  have ups: "map backoff_time [Suc k..<Suc (Suc (k + r))]
               = backoff_time (Suc k) # map backoff_time [Suc (Suc k)..<Suc (Suc (k + r))]"
    by (simp del: upt_Suc add: upt_conv_Cons)
  have "prefix sl (map backoff_time [Suc (Suc k)..<Suc (Suc k + r)])"
    using Suc.IH [of "Suc k"] rl by (simp del: upt_Suc)
  then show ?case
    using rl by (cases "srv k") (auto simp: ups simp del: upt_Suc)
qed

lemma retry_loop_all_retried:
  "(\<forall>i\<le>r. retried (srv (k + i))) \<Longrightarrow>
     snd (retry_loop r k srv) = map backoff_time [Suc k..<Suc (k + r)]"
proof (induction r arbitrary: k)
  case 0
  then have "retried (srv k)" by auto
  then show ?case by (cases "srv k") (auto simp: retried_def)
next
  case (Suc r)
  then have rk: "retried (srv k)" and rest: "\<forall>i\<le>r. retried (srv (Suc k + i))"
    by (metis add_0_right le0, metis Suc_le_mono add_Suc add_Suc_right)
  obtain res sl where rl: "retry_loop r (Suc k) srv = (res, sl)"
    by (cases "retry_loop r (Suc k) srv")
  have sl: "sl = map backoff_time [Suc (Suc k)..<Suc (Suc k + r)]"
    using Suc.IH [OF rest] rl by (simp del: upt_Suc)
  have ups: "map backoff_time [Suc k..<Suc (Suc (k + r))]
               = backoff_time (Suc k) # map backoff_time [Suc (Suc k)..<Suc (Suc (k + r))]"
    by (simp del: upt_Suc add: upt_conv_Cons)
  show ?case
    using rl rk by (cases "srv k") (auto simp: retried_def sl ups simp del: upt_Suc)
qed

lemma backoff_schedule: "map backoff_time [Suc 0..<Suc retry_total] = [0, 2, 4]"
  by (simp add: retry_total_def backoff_time_def backoff_factor_def upt_rec)

text \<open>
  C7: one \<open>session.get\<close> followed by \<open>raise_for_status\<close> implements the
  contract: the first of the four attempts whose answer is not retried decides
  (a 4xx or 5xx status is \<open>HTTPError\<close>, any other returns the body); if all
  four are retried, the fourth decides the error.
\<close>

theorem fetch_refines_spec: "fetch srv = fetch_spec srv"
proof -
  have "fst (session_get srv) =
          (case first_final (Suc retry_total) srv of
             Some i \<Rightarrow> (case srv i of Answer st b \<Rightarrow> Inr (Response st b)
                                 | TransportFailure \<Rightarrow> Inl ConnectionError)
           | None \<Rightarrow> Inl (final_error (srv retry_total)))"
    using retry_loop_spec [of retry_total 0 srv]
    by (simp add: session_get_def first_final_def del: upt_Suc cong: option.case_cong)
  then show ?thesis
    by (auto simp: fetch_def fetch_spec_def raise_for_status_def
        split: option.splits answer.splits)
qed

text \<open>
  C19: the sleeps between attempts are a prefix of 0, 2, 4 seconds: at most
  three retries, and the first retry follows at once.  The spec describes the
  backoff as exponential starting at one time unit; urllib3's schedule with
  \<open>backoff_factor=1\<close> starts at zero.
\<close>

theorem session_get_backoff: "prefix (snd (session_get srv)) [0, 2, 4]"
  using retry_loop_sleeps [of retry_total 0 srv] backoff_schedule
  by (simp add: session_get_def)

text \<open>
  C18: when all four attempts are retried (forced statuses such as 403 or 503,
  or transport failures), the fetch fails with the error of the fourth after
  sleeping 0, 2 and 4 seconds.
\<close>

theorem session_get_exhausted:
  "(\<forall>i<4. retried (srv i)) \<Longrightarrow> session_get srv = (Inl (final_error (srv 3)), [0, 2, 4])"
proof -
  assume all: "\<forall>i<4. retried (srv i)"
  then have "\<forall>i\<le>retry_total. retried (srv (0 + i))" by (simp add: retry_total_def)
  then have "snd (retry_loop retry_total 0 srv) = [0, 2, 4]"
    using backoff_schedule by (simp add: retry_loop_all_retried)
  moreover have "first_final (Suc retry_total) srv = None"
    using all by (simp add: first_final_def retry_total_def find_None_iff)
  then have "fst (retry_loop retry_total 0 srv) = Inl (final_error (srv 3))"
    using retry_loop_spec [of retry_total 0 srv] by (simp add: first_final_def retry_total_def)
  ultimately show ?thesis
    by (simp add: session_get_def prod_eq_iff)
qed

theorem session_get_exhausted_witness:
  "session_get (\<lambda>_. Answer 503 ()) = (Inl (RetryError 503), [0, 2, 4])"
proof -
  have "\<forall>i<4. retried ((\<lambda>_::nat. Answer 503 ()) i)"
    by (simp add: retried_def status_forcelist_def)
  from session_get_exhausted [OF this] show ?thesis
    by (simp add: final_error_def)
qed

end
