(* ===== verification/Parser.thy ===== *)
theory Parser
  imports Html Url Fetch
begin

text \<open>
  \<open>parse_recipe(url)\<close> of \<open>src/scrape_recipes.py\<close> (lines 63--101): fetch the
  page (\<open>fetch\<close>, with the session's retries), then read the fields off the
  tree.  The Python dictionary it returns is the record \<open>recipe\<close>, one field
  per key.  The first \<open>h1\<close> gives the name; \<open>soup.find("h1")\<close> returning
  \<open>None\<close> makes \<open>.get_text\<close> raise \<open>AttributeError\<close>, the one field whose
  absence fails the parse.  Every other field falls back to \<open>""\<close> or
  \<open>[]\<close>.  Photos are the \<open>src\<close> values of the \<open>img\<close> elements that are
  non-empty and end, lower-cased, in \<open>.jpg\<close>, \<open>.jpeg\<close> or \<open>.png\<close>, made
  absolute with \<open>urljoin\<close>, whose \<open>ValueError\<close> also fails the parse.
\<close>

record recipe =
  r_name :: string
  r_type :: string
  r_ingredients :: "string list"
  r_prep_time :: string
  r_cook_time :: string
  r_total_time :: string
  r_steps :: "string list"
  r_photos :: "url list"

definition photo_exts :: "string list" where
  "photo_exts = [''.jpg'', ''.jpeg'', ''.png'']"

definition is_photo_src :: "string \<Rightarrow> bool" where
  "is_photo_src src \<longleftrightarrow> src \<noteq> [] \<and> list_ex (py_endswith (py_lower src)) photo_exts"

text \<open>The loop over \<open>soup.select("img")\<close>.\<close>

fun collect_photos :: "url \<Rightarrow> node list \<Rightarrow> url list result" where
  "collect_photos url [] = Inr []"
| "collect_photos url (img # imgs) =
     (case attr_get img ''src'' of
        None \<Rightarrow> collect_photos url imgs
      | Some src \<Rightarrow>
          if is_photo_src src then
            (case urljoin url src of
               Inl e \<Rightarrow> Inl e
             | Inr p \<Rightarrow> (case collect_photos url imgs of Inl e \<Rightarrow> Inl e | Inr ps \<Rightarrow> Inr (p # ps)))
          else collect_photos url imgs)"

definition text_or_empty :: "node option \<Rightarrow> string" where
  "text_or_empty n = (case n of None \<Rightarrow> [] | Some x \<Rightarrow> get_text x)"

definition parse_recipe_doc :: "url \<Rightarrow> document \<Rightarrow> recipe result" where
  "parse_recipe_doc url soup =
     (case soup_find (is_tag ''h1'') soup of
        None \<Rightarrow> Inl (AttributeError ''get_text'')
      | Some h1 \<Rightarrow>
          (case collect_photos url (soup_select (is_tag ''img'') soup) of
             Inl e \<Rightarrow> Inl e
           | Inr photo_urls \<Rightarrow>
               Inr \<lparr>r_name = get_text h1,
                    r_type = text_or_empty (soup_find (find_tag_class ''div'' ''type'') soup),
                    r_ingredients = map get_text (soup_select (css_tag_class ''li'' ''ingredient'') soup),
                    r_prep_time = text_or_empty (soup_find (css_tag_class ''time'' ''prep'') soup),
                    r_cook_time = text_or_empty (soup_find (css_tag_class ''time'' ''cook'') soup),
                    r_total_time = text_or_empty (soup_find (css_tag_class ''time'' ''total'') soup),
                    r_steps = map get_text (select_steps_p soup),
                    r_photos = photo_urls\<rparr>))"

definition parse_recipe :: "(url \<Rightarrow> nat \<Rightarrow> document answer) \<Rightarrow> url \<Rightarrow> recipe result" where
  "parse_recipe net url =
     (case fetch (net url) of Inl e \<Rightarrow> Inl e | Inr soup \<Rightarrow> parse_recipe_doc url soup)"

subsection \<open>Photos\<close>

definition img_srcs :: "node list \<Rightarrow> string list" where
  "img_srcs imgs = concat (map (\<lambda>n. case attr_get n ''src'' of None \<Rightarrow> [] | Some s \<Rightarrow> [s]) imgs)"

lemma is_photo_src_iff:
  "is_photo_src s \<longleftrightarrow> s \<noteq> [] \<and> (\<exists>e\<in>{''.jpg'', ''.jpeg'', ''.png''}. suffix e (py_lower s))"
  by (auto simp: is_photo_src_def photo_exts_def py_endswith_suffix)

lemma collect_photos_ok:
  "collect_photos url imgs = Inr ps \<Longrightarrow>
     map Inr ps = map (urljoin url) (filter is_photo_src (img_srcs imgs))"
proof (induction url imgs arbitrary: ps rule: collect_photos.induct)
  case (2 url img imgs)
  then show ?case
    by (auto simp: img_srcs_def split: option.splits if_splits sum.splits)
qed (simp add: img_srcs_def)

lemma collect_photos_all_join:
  "list_all (\<lambda>s. \<exists>p. urljoin url s = Inr p) (filter is_photo_src (img_srcs imgs)) \<Longrightarrow>
     \<exists>ps. collect_photos url imgs = Inr ps"
proof (induction imgs)
  case (Cons img imgs)
  from Cons.prems
  have "list_all (\<lambda>s. \<exists>p. urljoin url s = Inr p) (filter is_photo_src (img_srcs imgs))"
    by (auto simp: img_srcs_def split: option.splits)
  with Cons.IH obtain ps where ps: "collect_photos url imgs = Inr ps" by blast
  show ?case
    using Cons.prems ps by (auto simp: img_srcs_def split: option.splits if_splits)
qed simp

lemma collect_photos_Inr:
  "(\<exists>ps. collect_photos url imgs = Inr ps) \<longleftrightarrow>
     list_all (\<lambda>s. \<exists>p. urljoin url s = Inr p) (filter is_photo_src (img_srcs imgs))"
proof
  assume "\<exists>ps. collect_photos url imgs = Inr ps"
  then obtain ps where "map Inr ps = map (urljoin url) (filter is_photo_src (img_srcs imgs))"
    using collect_photos_ok by blast
  then have "\<forall>s\<in>set (filter is_photo_src (img_srcs imgs)). urljoin url s \<in> Inr ` set ps"
    by (metis image_eqI list.set_map)
  then show "list_all (\<lambda>s. \<exists>p. urljoin url s = Inr p) (filter is_photo_src (img_srcs imgs))"
    by (auto simp: list_all_iff)
qed (rule collect_photos_all_join)

lemma soup_find_None: "soup_find P soup = None \<longleftrightarrow> \<not> list_ex P (elements_list soup)"
  by (auto simp: soup_find_def find_None_iff list_ex_iff)

lemma select_steps_p_no_steps:
  "list_all (\<lambda>n. \<not> css_tag_class ''div'' ''steps'' n) (elements_list soup) \<Longrightarrow> select_steps_p soup = []"
  by (simp add: select_steps_p_def elements_list_under_no_steps filter_map comp_def)

subsection \<open>Properties of \<open>parse_recipe\<close>\<close>

text \<open>
  C8: the parse of a page fails exactly when the page has no \<open>h1\<close> element
  or the source of some photo cannot be joined to the page URL; every other
  field is optional.
\<close>

theorem parse_recipe_doc_succeeds:
  "(\<exists>r. parse_recipe_doc url soup = Inr r) \<longleftrightarrow>
     list_ex (is_tag ''h1'') (elements_list soup)
     \<and> list_all (\<lambda>s. \<exists>p. urljoin url s = Inr p)
          (filter is_photo_src (img_srcs (soup_select (is_tag ''img'') soup)))"
proof -
  have "(\<exists>r. parse_recipe_doc url soup = Inr r) \<longleftrightarrow>
          soup_find (is_tag ''h1'') soup \<noteq> None
          \<and> (\<exists>ps. collect_photos url (soup_select (is_tag ''img'') soup) = Inr ps)"
    by (auto simp: parse_recipe_doc_def split: option.splits sum.splits)
  then show ?thesis
    by (simp add: soup_find_None collect_photos_Inr)
qed

text \<open>
  A page whose only relevant element is its heading parses, and every
  optional field is empty: no type, ingredients, times, steps or photos (the
  spec's minimal page, section 8).
\<close>

theorem parse_recipe_minimal:
  assumes "soup_find (is_tag ''h1'') soup = Some h"
    and "list_all (\<lambda>n. \<not> is_tag ''div'' n \<and> \<not> is_tag ''li'' n \<and> \<not> is_tag ''time'' n
                       \<and> \<not> is_tag ''img'' n) (elements_list soup)"
  shows "parse_recipe_doc url soup =
           Inr \<lparr>r_name = get_text h, r_type = [], r_ingredients = [], r_prep_time = [],
                r_cook_time = [], r_total_time = [], r_steps = [], r_photos = []\<rparr>"
proof -
  have tag: "css_tag_class t c n \<Longrightarrow> is_tag t n" "find_tag_class t c n \<Longrightarrow> is_tag t n" for t c n
    by (cases n; simp)+
  have nd: "\<not> is_tag ''div'' n" "\<not> is_tag ''li'' n" "\<not> is_tag ''time'' n" "\<not> is_tag ''img'' n"
    if "n \<in> set (elements_list soup)" for n
    using assms(2) that by (simp_all add: list_all_iff)
  have "list_all (\<lambda>n. \<not> css_tag_class ''div'' ''steps'' n) (elements_list soup)"
    unfolding list_all_iff using nd(1) tag(1) by blast
  then have "select_steps_p soup = []"
    by (rule select_steps_p_no_steps)
  moreover have "soup_find (find_tag_class ''div'' ''type'') soup = None"
    unfolding soup_find_None list_ex_iff using nd(1) tag(2) by blast
  moreover have "soup_find (css_tag_class ''time'' c) soup = None" for c
    unfolding soup_find_None list_ex_iff using nd(3) tag(1) by blast
  moreover have "soup_select (css_tag_class ''li'' ''ingredient'') soup = []"
    unfolding soup_select_def filter_empty_conv using nd(2) tag(1) by blast
  moreover have "soup_select (is_tag ''img'') soup = []"
    unfolding soup_select_def filter_empty_conv using nd(4) by blast
  ultimately show ?thesis
    using assms(1) by (simp add: parse_recipe_doc_def text_or_empty_def)
qed

theorem parse_recipe_minimal_witness:
  "parse_recipe_doc ''https://x.test/r'' [Elem ''body'' [] [Elem ''h1'' [] [Text '' Soup '']]] =
     Inr \<lparr>r_name = ''Soup'', r_type = [], r_ingredients = [], r_prep_time = [],
          r_cook_time = [], r_total_time = [], r_steps = [], r_photos = []\<rparr>"
proof -
  let ?soup = "[Elem ''body'' [] [Elem ''h1'' [] [Text '' Soup '']]]"
  have "soup_find (is_tag ''h1'') ?soup = Some (Elem ''h1'' [] [Text '' Soup ''])"
    by (simp add: soup_find_def)
  moreover have "list_all (\<lambda>n. \<not> is_tag ''div'' n \<and> \<not> is_tag ''li'' n \<and> \<not> is_tag ''time'' n
                       \<and> \<not> is_tag ''img'' n) (elements_list ?soup)"
    by simp
  moreover have "get_text (Elem ''h1'' [] [Text '' Soup '']) = ''Soup''"
    by (simp add: get_text_def py_strip_def py_eval)
  ultimately show ?thesis
    using parse_recipe_minimal [of ?soup "Elem ''h1'' [] [Text '' Soup '']" "''https://x.test/r''"]
    by simp
qed

text \<open>
  C16: the photo URLs of a parsed recipe are the \<open>src\<close> values of the
  page's images that end in .jpg, .jpeg or .png (in any case), in document
  order and with repetitions, each joined to the page URL.
\<close>

theorem parse_recipe_photos:
  "parse_recipe_doc url soup = Inr r \<Longrightarrow>
     map Inr (r_photos r) = map (urljoin url)
       (filter (\<lambda>s. s \<noteq> [] \<and> (\<exists>e\<in>{''.jpg'', ''.jpeg'', ''.png''}. suffix e (py_lower s)))
          (img_srcs (soup_select (is_tag ''img'') soup)))"
  unfolding is_photo_src_iff [abs_def, symmetric]
  by (auto simp: parse_recipe_doc_def split: option.splits sum.splits dest: collect_photos_ok)

theorem parse_recipe_photos_witness:
  "\<exists>r. parse_recipe_doc ''https://x.test/r/''
      [Elem ''h1'' [] [Text ''Pie''], Elem ''img'' [(''src'', ''a.JPG'')] [],
       Elem ''img'' [(''src'', ''b.gif'')] [], Elem ''img'' [(''src'', ''a.JPG'')] []] = Inr r
     \<and> r_photos r = [''https://x.test/r/a.JPG'', ''https://x.test/r/a.JPG'']"
proof -
  have j: "urljoin ''https://x.test/r/'' ''a.JPG'' = Inr ''https://x.test/r/a.JPG''"
    by code_simp
  have p: "is_photo_src ''a.JPG''" "\<not> is_photo_src ''b.gif''"
    by (simp_all add: is_photo_src_def photo_exts_def py_endswith_def py_lower_def py_eval)
  have "\<exists>r. parse_recipe_doc ''https://x.test/r/''
      [Elem ''h1'' [] [Text ''Pie''], Elem ''img'' [(''src'', ''a.JPG'')] [],
       Elem ''img'' [(''src'', ''b.gif'')] [], Elem ''img'' [(''src'', ''a.JPG'')] []] = Inr r"
    using j p by (simp add: parse_recipe_doc_def soup_find_def soup_select_def attr_get_def attr_lookup_def)
  then obtain r where ok: "parse_recipe_doc ''https://x.test/r/''
      [Elem ''h1'' [] [Text ''Pie''], Elem ''img'' [(''src'', ''a.JPG'')] [],
       Elem ''img'' [(''src'', ''b.gif'')] [], Elem ''img'' [(''src'', ''a.JPG'')] []] = Inr r" ..
  from parse_recipe_photos [OF ok] j p [unfolded is_photo_src_iff]
  have "map Inr (r_photos r)
      = (map Inr [''https://x.test/r/a.JPG'', ''https://x.test/r/a.JPG''] :: url result list)"
    by (simp add: soup_select_def img_srcs_def attr_get_def attr_lookup_def)
  then have "r_photos r = [''https://x.test/r/a.JPG'', ''https://x.test/r/a.JPG'']"
    by (simp only: inj_map_eq_map [OF inj_Inr])
  with ok show ?thesis by blast
qed

text \<open>
  C17: \<open>div.steps p\<close>, by structural recursion on the document: under a
  \<open>div\<close> of class \<open>steps\<close> every \<open>p\<close> descendant is a step, at any depth
  and in document order, and nothing else inside it is; any other element,
  a \<open>p\<close> or an element of another tag with class \<open>steps\<close> included,
  contributes only the steps of the \<open>div.steps\<close> containers below it.
\<close>

theorem select_steps_p_container:
  "select_steps_p [] = []
   \<and> select_steps_p (Text s # ns) = select_steps_p ns
   \<and> select_steps_p (Elem t a cs # ns) =
       (if t = ''div'' \<and> has_class ''steps'' a then filter (is_tag ''p'') (elements_list cs)
        else select_steps_p cs) @ select_steps_p ns"
proof (cases "t = ''div'' \<and> has_class ''steps'' a")
  case True
  then show ?thesis by (simp add: select_steps_p_def elements_list_under_inside filter_map comp_def)
next
  case False
  then have "(t = ''div'' \<and> has_class ''steps'' a) = False" by simp
  then show ?thesis by (simp only: select_steps_p_def elements_list_under.simps elements_under.simps
      simp_thms filter_append map_append) simp
qed

end
