(* ===== verification/Links.thy ===== *)
theory Links
  imports Html Url Fetch
begin

text \<open>
  \<open>extract_recipe_links(start_url)\<close> of \<open>src/scrape_recipes.py\<close> (lines
  50--60): fetch the start page, walk \<open>soup.select("a[href]")\<close> in document
  order, keep the \<open>href\<close> values that contain \<open>"recipe"\<close>, make each absolute
  with \<open>urljoin(start_url, href)\<close> (whose \<open>ValueError\<close> ends the call) and
  drop repetitions with \<open>list(dict.fromkeys(links))\<close>, which keeps the first
  occurrence of each link in its place.
\<close>

text \<open>The selector \<open>a[href]\<close>: an \<open>a\<close> element that has an \<open>href\<close> attribute.\<close>

definition a_href :: "node \<Rightarrow> bool" where
  "a_href n \<longleftrightarrow> is_tag ''a'' n \<and> attr_get n ''href'' \<noteq> None"

text \<open>The loop of lines 56--59.\<close>

fun collect_links :: "url \<Rightarrow> node list \<Rightarrow> url list result" where
  "collect_links start [] = Inr []"
| "collect_links start (a # as) =
     (case attr_get a ''href'' of
        None \<Rightarrow> collect_links start as
      | Some href \<Rightarrow>
          if py_contains ''recipe'' href then
            (case urljoin start href of
               Inl e \<Rightarrow> Inl e
             | Inr l \<Rightarrow> (case collect_links start as of Inl e \<Rightarrow> Inl e | Inr ls \<Rightarrow> Inr (l # ls)))
          else collect_links start as)"

text \<open>\<open>list(dict.fromkeys(links))\<close>: a dictionary keeps its keys in insertion
  order and inserting a present key again changes nothing.\<close>

definition dict_fromkeys :: "'a list \<Rightarrow> 'a list" where
  "dict_fromkeys xs = dedup_from id {} xs"

definition extract_recipe_links_doc :: "url \<Rightarrow> document \<Rightarrow> url list result" where
  "extract_recipe_links_doc start soup =
     (case collect_links start (soup_select a_href soup) of
        Inl e \<Rightarrow> Inl e
      | Inr links \<Rightarrow> Inr (dict_fromkeys links))"

definition extract_recipe_links :: "(url \<Rightarrow> nat \<Rightarrow> document answer) \<Rightarrow> url \<Rightarrow> url list result" where
  "extract_recipe_links net start =
     (case fetch (net start) of Inl e \<Rightarrow> Inl e | Inr soup \<Rightarrow> extract_recipe_links_doc start soup)"

text \<open>The \<open>href\<close> values of a list of elements, in order.\<close>

definition hrefs :: "node list \<Rightarrow> string list" where
  "hrefs as = concat (map (\<lambda>n. case attr_get n ''href'' of None \<Rightarrow> [] | Some h \<Rightarrow> [h]) as)"

subsection \<open>The loop\<close>

lemma collect_links_ok:
  "collect_links start as = Inr ls \<Longrightarrow>
     map Inr ls = map (urljoin start) (filter (py_contains ''recipe'') (hrefs as))"
proof (induction start as arbitrary: ls rule: collect_links.induct)
  case (2 start a as)
  then show ?case
    by (auto simp: hrefs_def split: option.splits if_splits sum.splits)
qed (simp add: hrefs_def)

lemma collect_links_all_join:
  "list_all (\<lambda>h. \<exists>l. urljoin start h = Inr l) (filter (py_contains ''recipe'') (hrefs as)) \<Longrightarrow>
     \<exists>ls. collect_links start as = Inr ls"
proof (induction as)
  case (Cons a as)
  from Cons.prems
  have "list_all (\<lambda>h. \<exists>l. urljoin start h = Inr l) (filter (py_contains ''recipe'') (hrefs as))"
    by (auto simp: hrefs_def split: option.splits)
  with Cons.IH obtain ls where "collect_links start as = Inr ls" by blast
  with Cons.prems show ?case by (auto simp: hrefs_def split: option.splits if_splits)
qed simp

lemma hrefs_Cons:
  "hrefs (a # as) = (case attr_get a ''href'' of None \<Rightarrow> [] | Some h \<Rightarrow> [h]) @ hrefs as"
  by (simp add: hrefs_def)

lemma collect_links_Inl:
  "collect_links start as = Inl e \<longleftrightarrow>
     (\<exists>pre h post. filter (py_contains ''recipe'') (hrefs as) = pre @ h # post
        \<and> list_all (\<lambda>x. \<exists>l. urljoin start x = Inr l) pre \<and> urljoin start h = Inl e)"
proof (induction as)
  case Nil
  then show ?case by (simp add: hrefs_def)
next
  case (Cons a as)
  show ?case
  proof (cases "attr_get a ''href''")
    case None
    with Cons show ?thesis by (simp add: hrefs_Cons)
  next
    case (Some href)
    show ?thesis
    proof (cases "py_contains ''recipe'' href")
      case False
      with Some Cons show ?thesis by (simp add: hrefs_Cons)
    next
      case True
      show ?thesis
      proof (cases "urljoin start href")
        case (Inl e')
        have f: "filter (py_contains ''recipe'') (hrefs (a # as)) = href # filter (py_contains ''recipe'') (hrefs as)"
          using Some True by (simp add: hrefs_Cons)
        have "collect_links start (a # as) = Inl e'" using Some True Inl by simp
        moreover have "(\<exists>pre h post. href # filter (py_contains ''recipe'') (hrefs as) = pre @ h # post
            \<and> list_all (\<lambda>x. \<exists>l. urljoin start x = Inr l) pre \<and> urljoin start h = Inl e) \<longleftrightarrow> e' = e"
        proof
          assume "\<exists>pre h post. href # filter (py_contains ''recipe'') (hrefs as) = pre @ h # post
            \<and> list_all (\<lambda>x. \<exists>l. urljoin start x = Inr l) pre \<and> urljoin start h = Inl e"
          then obtain pre h post where d: "href # filter (py_contains ''recipe'') (hrefs as) = pre @ h # post"
            and ok: "list_all (\<lambda>x. \<exists>l. urljoin start x = Inr l) pre" and h: "urljoin start h = Inl e"
            by blast
          show "e' = e"
          proof (cases pre)
            case Nil
            with d h Inl show ?thesis by simp
          next
            case (Cons p pre')
            with d ok Inl show ?thesis by simp
          qed
        next
          assume "e' = e"
          show "\<exists>pre h post. href # filter (py_contains ''recipe'') (hrefs as) = pre @ h # post
            \<and> list_all (\<lambda>x. \<exists>l. urljoin start x = Inr l) pre \<and> urljoin start h = Inl e"
          proof -
            have "href # filter (py_contains ''recipe'') (hrefs as) = [] @ href # filter (py_contains ''recipe'') (hrefs as)"
              "list_all (\<lambda>x. \<exists>l. urljoin start x = Inr l) []" by simp_all
            with Inl \<open>e' = e\<close> show ?thesis by blast
          qed
        qed
        ultimately show ?thesis by (simp add: f)
      next
        case (Inr l)
        have "(\<exists>pre h post. href # filter (py_contains ''recipe'') (hrefs as) = pre @ h # post
            \<and> list_all (\<lambda>x. \<exists>l. urljoin start x = Inr l) pre \<and> urljoin start h = Inl e) \<longleftrightarrow>
          (\<exists>pre h post. filter (py_contains ''recipe'') (hrefs as) = pre @ h # post
            \<and> list_all (\<lambda>x. \<exists>l. urljoin start x = Inr l) pre \<and> urljoin start h = Inl e)"
          using Inr by (intro first_failure_Cons) auto
        moreover have "collect_links start (a # as) = Inl e \<longleftrightarrow> collect_links start as = Inl e"
          using Some True Inr by (simp split: sum.split)
        moreover have "filter (py_contains ''recipe'') (hrefs (a # as)) = href # filter (py_contains ''recipe'') (hrefs as)"
          using Some True by (simp add: hrefs_Cons)
        ultimately show ?thesis using Cons.IH by simp
      qed
    qed
  qed
qed

subsection \<open>Properties\<close>

text \<open>
  C6: the links are the \<open>href\<close> values of the \<open>a[href]\<close> elements that
  contain \<open>"recipe"\<close>, in document order, each joined to the start URL, with
  every repetition after the first dropped: no two links are equal and no link
  is lost.
\<close>

theorem extract_recipe_links_doc_spec:
  "extract_recipe_links_doc start soup = Inr ls \<Longrightarrow>
     \<exists>links. map Inr links = map (urljoin start) (filter (py_contains ''recipe'') (hrefs (soup_select a_href soup)))
       \<and> ls = first_occurrences id links \<and> distinct ls \<and> set ls = set links"
proof -
  assume ok: "extract_recipe_links_doc start soup = Inr ls"
  then obtain links where c: "collect_links start (soup_select a_href soup) = Inr links"
    and ls: "ls = dedup_from id {} links"
    by (auto simp: extract_recipe_links_doc_def dict_fromkeys_def split: sum.splits)
  have "distinct (map id (dedup_from id {} links))" by (rule distinct_dedup_from)
  moreover have "id ` set (dedup_from id {} links) = id ` set links - {}" by (rule keys_dedup_from)
  ultimately show ?thesis
    using collect_links_ok [OF c] ls by (auto simp: dedup_from_first_occurrences)
qed

theorem extract_recipe_links_doc_spec_witness:
  "\<exists>links. map Inr links = map (urljoin ''https://x.test/'')
        (filter (py_contains ''recipe'') (hrefs (soup_select a_href
          [Elem ''a'' [(''href'', ''recipe'')] [], Elem ''a'' [(''href'', ''recipe'')] []])))
     \<and> [''https://x.test/recipe''] = first_occurrences id links
     \<and> distinct [''https://x.test/recipe''] \<and> set [''https://x.test/recipe''] = set links"
proof -
  have "urljoin ''https://x.test/'' ''recipe'' = Inr ''https://x.test/recipe''"
    by code_simp
  then have "extract_recipe_links_doc ''https://x.test/''
      [Elem ''a'' [(''href'', ''recipe'')] [], Elem ''a'' [(''href'', ''recipe'')] []]
      = Inr [''https://x.test/recipe'']"
    by (simp add: extract_recipe_links_doc_def soup_select_def a_href_def attr_get_def
        attr_lookup_def dict_fromkeys_def)
  then show ?thesis by (rule extract_recipe_links_doc_spec)
qed

text \<open>
  The example of the spec (section 8): anchors \<open>/recipe/1\<close>,
  \<open>/other\<close>, \<open>/recipe/1\<close>, \<open>recipe/2\<close> on \<open>https://x.test/a/\<close> give
  exactly \<open>https://x.test/recipe/1\<close> and \<open>https://x.test/a/recipe/2\<close>, in
  that order.
\<close>

theorem extract_recipe_links_example:
  "extract_recipe_links_doc ''https://x.test/a/''
     [Elem ''a'' [(''href'', ''/recipe/1'')] [], Elem ''a'' [(''href'', ''/other'')] [],
      Elem ''a'' [(''href'', ''/recipe/1'')] [], Elem ''a'' [(''href'', ''recipe/2'')] []]
   = Inr [''https://x.test/recipe/1'', ''https://x.test/a/recipe/2'']"
proof -
  have "urljoin ''https://x.test/a/'' ''/recipe/1'' = Inr ''https://x.test/recipe/1''"
    "urljoin ''https://x.test/a/'' ''recipe/2'' = Inr ''https://x.test/a/recipe/2''"
    by code_simp+
  moreover have "py_contains ''recipe'' ''/recipe/1''" "py_contains ''recipe'' ''recipe/2''"
    "\<not> py_contains ''recipe'' ''/other''"
    by simp_all
  ultimately show ?thesis
    by (simp add: extract_recipe_links_doc_def soup_select_def a_href_def attr_get_def
        attr_lookup_def dict_fromkeys_def)
qed


text \<open>
  C34: link extraction fails exactly when some \<open>href\<close> that contains
  \<open>recipe\<close> cannot be joined to the start URL, and then with the error of
  the first such \<open>href\<close> in document order: every one before it joined.
\<close>

theorem extract_recipe_links_doc_error:
  "extract_recipe_links_doc start soup = Inl e \<longleftrightarrow>
     (\<exists>pre h post. filter (py_contains ''recipe'') (hrefs (soup_select a_href soup)) = pre @ h # post
        \<and> list_all (\<lambda>x. \<exists>l. urljoin start x = Inr l) pre \<and> urljoin start h = Inl e)"
proof -
  have "extract_recipe_links_doc start soup = Inl e \<longleftrightarrow> collect_links start (soup_select a_href soup) = Inl e"
    by (simp add: extract_recipe_links_doc_def split: sum.split)
  then show ?thesis by (simp only: collect_links_Inl)
qed

theorem extract_recipe_links_doc_error_witness:
  "extract_recipe_links_doc ''https://x.test/'' [Elem ''a'' [(''href'', ''//[v1]/recipe'')] []]
   = Inl (ValueError ''IPvFuture address is invalid'')"
proof -
  have "urljoin ''https://x.test/'' ''//[v1]/recipe'' = Inl (ValueError ''IPvFuture address is invalid'')"
    by code_simp
  moreover have "py_contains ''recipe'' ''//[v1]/recipe''" by simp
  ultimately have "\<exists>pre h post. filter (py_contains ''recipe'')
        (hrefs (soup_select a_href [Elem ''a'' [(''href'', ''//[v1]/recipe'')] []])) = pre @ h # post
      \<and> list_all (\<lambda>x. \<exists>l. urljoin ''https://x.test/'' x = Inr l) pre
      \<and> urljoin ''https://x.test/'' h = Inl (ValueError ''IPvFuture address is invalid'')"
    by (intro exI [of _ "[] :: string list"]) (simp add: hrefs_def soup_select_def a_href_def attr_get_def
        attr_lookup_def)
  then show ?thesis by (simp only: extract_recipe_links_doc_error)
qed

text \<open>
  C35: an anchor \<open>//[h]/...\<close> containing \<open>recipe\<close> whose bracketed host
  \<open>h\<close> is neither an IPvFuture literal nor an IPv6 address, placed after
  anchors that all join, ends the extraction with the \<open>ValueError\<close> of
  CPython's host check: the links before it are lost with it.
\<close>

theorem extract_recipe_links_bracketed_host:
  assumes start: "start \<noteq> []" "urlparse start [] = Inr b"
    and first: "filter (py_contains ''recipe'') (hrefs (soup_select a_href soup))
                  = pre @ (''//['' @ h @ '']'' @ rest) # post"
    and pre: "list_all (\<lambda>x. \<exists>l. urljoin start x = Inr l) pre"
    and h: "list_all (\<lambda>c. \<not> netloc_delim c \<and> \<not> url_unsafe c \<and> c \<noteq> CHR ''['' \<and> c \<noteq> CHR '']'') h"
    and rest: "list_all (\<lambda>c. \<not> url_unsafe c) rest" "rest = [] \<or> netloc_delim (hd rest)"
    and chk: "check_bracketed_host h = Inl e"
  shows "extract_recipe_links_doc start soup = Inl e"
proof -
  have "urlsplit (''//['' @ h @ '']'' @ rest) (up_scheme b) = Inl e"
    using urlsplit_bracketed_host [OF h rest, of "up_scheme b"] chk by simp
  then have "urljoin start (''//['' @ h @ '']'' @ rest) = Inl e"
    using start by (intro urljoin_split_error) simp_all
  with first pre have "collect_links start (soup_select a_href soup) = Inl e"
    by (auto simp: collect_links_Inl)
  then show ?thesis by (simp add: extract_recipe_links_doc_def)
qed

theorem extract_recipe_links_bracketed_host_witness:
  "extract_recipe_links_doc ''https://x.test/''
     [Elem ''a'' [(''href'', ''/recipe/1'')] [], Elem ''a'' [(''href'', ''//[recipe]/'')] []]
   = Inl (ValueError ([CHR 0x27] @ ''recipe'' @ [CHR 0x27] @ '' does not appear to be an IPv4 or IPv6 address''))"
proof (rule extract_recipe_links_bracketed_host)
  show "urlparse ''https://x.test/'' [] = Inr \<lparr>up_scheme = ''https'', up_netloc = ''x.test'', up_path = ''/'',
      up_params = [], up_query = [], up_fragment = []\<rparr>"
    by code_simp
  show "filter (py_contains ''recipe'') (hrefs (soup_select a_href
      [Elem ''a'' [(''href'', ''/recipe/1'')] [], Elem ''a'' [(''href'', ''//[recipe]/'')] []]))
      = [''/recipe/1''] @ (''//['' @ ''recipe'' @ '']'' @ ''/'') # []"
    by (simp add: hrefs_def soup_select_def a_href_def attr_get_def attr_lookup_def)
  have "urljoin ''https://x.test/'' ''/recipe/1'' = Inr ''https://x.test/recipe/1''" by code_simp
  then show "list_all (\<lambda>x. \<exists>l. urljoin ''https://x.test/'' x = Inr l) [''/recipe/1'']" by simp
  show "check_bracketed_host ''recipe'' =
      Inl (ValueError ([CHR 0x27] @ ''recipe'' @ [CHR 0x27] @ '' does not appear to be an IPv4 or IPv6 address''))"
    by (simp add: ip_eval Let_def py_repr_def repr_char_def py_printable_def)
qed (simp_all add: netloc_delim_def url_unsafe_def)

end
