(* ===== verification/Normalize.thy ===== *)
theory Normalize
  imports PyStr
begin

text \<open>
  \<open>normalize_ingredients\<close> of \<open>src/scrape_recipes.py\<close> (lines 104--112):
  \<^verbatim>\<open>
    seen = set(); result = []
    for ing in ingredients:
        norm = ing.lower().strip()
        if norm not in seen:
            seen.add(norm); result.append(ing)
    return result
  \<close>
  The loop is \<open>normalize_loop\<close>, with \<open>seen\<close> and \<open>result\<close> as its
  accumulators.  It is the Prelude's \<open>dedup_from\<close> for the key
  \<open>ingredient_key\<close>, so it equals the positional reference
  \<open>first_occurrences\<close>; from that come the spec's promises (section 8): the
  output is a subsequence of the input, its keys are distinct, every key of the
  input is kept, each kept line is the first with its key, and normalising
  twice changes nothing.  The key is \<open>lower()\<close> then \<open>strip()\<close>, not
  \<open>casefold()\<close>: lines that differ only by a character whose case folding
  is not its lower case (German sharp s) are not merged.
\<close>

definition ingredient_key :: "string \<Rightarrow> string" where
  "ingredient_key ing = py_strip (py_lower ing)"

fun normalize_loop :: "string set \<Rightarrow> string list \<Rightarrow> string list \<Rightarrow> string list" where
  "normalize_loop seen result [] = result"
| "normalize_loop seen result (ing # ings) =
     (let norm = py_strip (py_lower ing)
      in if norm \<notin> seen then normalize_loop (insert norm seen) (result @ [ing]) ings
         else normalize_loop seen result ings)"

definition normalize_ingredients :: "string list \<Rightarrow> string list" where
  "normalize_ingredients ingredients = normalize_loop {} [] ingredients"

lemma normalize_loop_dedup:
  "normalize_loop seen result ings = result @ dedup_from ingredient_key seen ings"
  by (induction seen result ings rule: normalize_loop.induct) (simp_all add: ingredient_key_def)

lemma normalize_ingredients_dedup_from:
  "normalize_ingredients xs = dedup_from ingredient_key {} xs"
  by (simp add: normalize_ingredients_def normalize_loop_dedup)

text \<open>
  C1: the loop computes the reference: the ingredient at position \<open>i\<close> is
  kept exactly when no earlier ingredient has the same lower-cased, stripped
  text.
\<close>

theorem normalize_ingredients_reference:
  "normalize_ingredients xs = first_occurrences ingredient_key xs"
  by (simp add: normalize_ingredients_dedup_from dedup_from_first_occurrences)

text \<open>
  C2: the output is a subsequence of the input (order kept, nothing invented),
  no two output lines share a key, and every key of the input has a line in the
  output.
\<close>

theorem normalize_ingredients_dedup:
  "subseq (normalize_ingredients xs) xs
   \<and> distinct (map ingredient_key (normalize_ingredients xs))
   \<and> ingredient_key ` set (normalize_ingredients xs) = ingredient_key ` set xs"
  by (simp add: normalize_ingredients_dedup_from subseq_dedup_from distinct_dedup_from
      keys_dedup_from)

text \<open>
  C3: each line kept is the first line of the input with its key, in its
  original casing and spacing.
\<close>

theorem normalize_ingredients_first:
  "y \<in> set (normalize_ingredients xs) \<Longrightarrow>
     find (\<lambda>x. ingredient_key x = ingredient_key y) xs = Some y"
  by (simp add: normalize_ingredients_dedup_from dedup_from_find)

theorem normalize_ingredients_first_witness:
  "''Salt'' \<in> set (normalize_ingredients [''Salt'', '' salt '', ''Pepper''])
   \<and> find (\<lambda>x. ingredient_key x = ingredient_key ''Salt'') [''Salt'', '' salt '', ''Pepper'']
       = Some ''Salt''"
proof -
  have "normalize_ingredients [''Salt'', '' salt '', ''Pepper''] = [''Salt'', ''Pepper'']"
    by (simp add: normalize_ingredients_def py_strip_def py_lower_def py_eval)
  then have "''Salt'' \<in> set (normalize_ingredients [''Salt'', '' salt '', ''Pepper''])"
    by simp
  with normalize_ingredients_first show ?thesis by blast
qed

text \<open>
  Normalising an already normalised list changes nothing.
\<close>

theorem normalize_ingredients_idempotent:
  "normalize_ingredients (normalize_ingredients xs) = normalize_ingredients xs"
  by (simp add: normalize_ingredients_dedup_from dedup_from_idem)

lemma sharp_s_key: "CHR 0xDF \<in> set (ingredient_key s) \<longleftrightarrow> CHR 0xDF \<in> set s"
proof -
  have "\<not> py_isspace (CHR 0xDF)" by (simp add: py_isspace_def)
  then have eq: "filter (\<lambda>d. d = CHR 0xDF) (py_strip (py_lower s)) = filter (\<lambda>d. d = CHR 0xDF) (py_lower s)"
    by (intro filter_py_strip) auto
  have "CHR 0xDF \<in> set (py_strip (py_lower s)) \<longleftrightarrow> CHR 0xDF \<in> set (py_lower s)"
    using arg_cong [where f = set, OF eq] by auto
  moreover have "CHR 0xDF \<in> set (py_lower s) \<longleftrightarrow> (\<exists>c\<in>set s. py_lower_char c = CHR 0xDF)"
    unfolding py_lower_def set_map image_iff by (metis (no_types))
  ultimately show ?thesis by (simp add: ingredient_key_def py_lower_char_sharp_s)
qed

text \<open>
  C28: the key is \<open>lower()\<close>, not a case folding: a line with a sharp s
  (code point 223) and the same line with every sharp s spelt \<open>ss\<close> have
  different keys, so both are kept, although the spec describes the key as
  case-folded (under which they would be one ingredient).
\<close>

theorem normalize_ingredients_not_casefold:
  "CHR 0xDF \<in> set s \<Longrightarrow>
     normalize_ingredients [s, concat (map (\<lambda>c. if c = CHR 0xDF then ''ss'' else [c]) s)]
       = [s, concat (map (\<lambda>c. if c = CHR 0xDF then ''ss'' else [c]) s)]"
proof -
  assume sharp: "CHR 0xDF \<in> set s"
  let ?t = "concat (map (\<lambda>c. if c = CHR 0xDF then ''ss'' else [c]) s)"
  have "CHR 0xDF \<notin> set ?t" by auto
  with sharp have "ingredient_key s \<noteq> ingredient_key ?t" by (metis sharp_s_key)
  then show ?thesis by (simp add: normalize_ingredients_dedup_from)
qed

theorem normalize_ingredients_not_casefold_witness:
  "normalize_ingredients [''Stra'' @ [CHR 0xDF] @ ''e'', ''Strasse''] = [''Stra'' @ [CHR 0xDF] @ ''e'', ''Strasse'']"
  using normalize_ingredients_not_casefold [of "''Stra'' @ [CHR 0xDF] @ ''e''"] by simp

end
