(* ===== verification/Slugify.thy ===== *)
theory Slugify
  imports PyStr
begin

text \<open>
  \<open>slugify\<close> of \<open>src/scrape_recipes.py\<close> (lines 35--38) turns a recipe name into
  the stem of the three per-recipe file names:
  \<^verbatim>\<open>
    value = re.sub(r"[^\w\s-]", "", value).strip().lower()
    return re.sub(r"[\s-]+", "-", value)
  \<close>
  The first substitution deletes every character outside \<open>\w\<close>, \<open>\s\<close> and
  the hyphen (\<open>re_sub_punct\<close>); the second replaces every maximal run of
  whitespace and hyphens by one hyphen (\<open>re_sub_seps\<close>: \<open>re.sub\<close> scans left
  to right and the \<open>+\<close> is greedy, so each run is matched whole).
  The lemmas show what a slug is (\<open>is_slug\<close>: lower-case word characters and
  hyphens, never two hyphens in a row), that \<open>slugify\<close> always returns one,
  that its fixpoints are exactly the slugs (so it is idempotent), that it keeps
  the word characters of the name in order, lower-cased, and that it does
  not remove a hyphen at either end.
\<close>

definition slug_keep :: "char \<Rightarrow> bool" where
  "slug_keep c \<longleftrightarrow> py_isword c \<or> py_isspace c \<or> c = CHR ''-''"

definition re_sub_punct :: "string \<Rightarrow> string" where
  "re_sub_punct s = filter slug_keep s"

definition slug_sep :: "char \<Rightarrow> bool" where
  "slug_sep c \<longleftrightarrow> py_isspace c \<or> c = CHR ''-''"

function re_sub_seps :: "string \<Rightarrow> string" where
  "re_sub_seps [] = []"
| "re_sub_seps (c # cs) =
     (if slug_sep c then CHR ''-'' # re_sub_seps (dropWhile slug_sep cs)
      else c # re_sub_seps cs)"
  by pat_completeness auto
termination
  by (relation "measure length") (auto simp: le_imp_less_Suc length_dropWhile_le)

definition slugify :: "string \<Rightarrow> string" where
  "slugify value = re_sub_seps (py_lower (py_strip (re_sub_punct value)))"

fun no_double_hyphen :: "string \<Rightarrow> bool" where
  "no_double_hyphen (a # b # r) \<longleftrightarrow>
     \<not> (a = CHR ''-'' \<and> b = CHR ''-'') \<and> no_double_hyphen (b # r)"
| "no_double_hyphen _ \<longleftrightarrow> True"

definition slug_char :: "char \<Rightarrow> bool" where
  "slug_char c \<longleftrightarrow> (py_isword c \<and> \<not> py_isupper c) \<or> c = CHR ''-''"

definition is_slug :: "string \<Rightarrow> bool" where
  "is_slug s \<longleftrightarrow> list_all slug_char s \<and> no_double_hyphen s"

subsection \<open>The separator substitution\<close>

lemma re_sub_seps_Nil_iff [simp]: "re_sub_seps s = [] \<longleftrightarrow> s = []"
  by (cases s) auto

lemma hd_re_sub_seps:
  "s \<noteq> [] \<Longrightarrow> hd (re_sub_seps s) = (if slug_sep (hd s) then CHR ''-'' else hd s)"
  by (cases s) auto

lemma no_double_hyphen_Cons:
  "no_double_hyphen (c # s) \<longleftrightarrow>
     (s = [] \<or> \<not> (c = CHR ''-'' \<and> hd s = CHR ''-'')) \<and> no_double_hyphen s"
  by (cases s) auto

lemma no_double_hyphen_re_sub_seps: "no_double_hyphen (re_sub_seps s)"
proof (induction s rule: re_sub_seps.induct)
  case (2 c cs)
  show ?case
  proof (cases "slug_sep c")
    case True
    let ?r = "dropWhile slug_sep cs"
    have "?r = [] \<or> hd (re_sub_seps ?r) \<noteq> CHR ''-''"
    proof (cases "?r = []")
      case False
      then have "\<not> slug_sep (hd ?r)" by (rule hd_dropWhile)
      with False show ?thesis by (simp add: hd_re_sub_seps slug_sep_def)
    qed simp
    with True "2.IH"(1) show ?thesis by (simp add: no_double_hyphen_Cons)
  next
    case False
    then have "hd (re_sub_seps cs) = CHR ''-'' \<Longrightarrow> cs \<noteq> [] \<Longrightarrow> c \<noteq> CHR ''-''"
      by (auto simp: slug_sep_def)
    with False "2.IH"(2) show ?thesis by (auto simp: no_double_hyphen_Cons)
  qed
qed simp

lemma set_re_sub_seps:
  "set (re_sub_seps s) \<subseteq> {c \<in> set s. \<not> slug_sep c} \<union> {CHR ''-''}"
proof (induction s rule: re_sub_seps.induct)
  case (2 c cs)
  have "set (dropWhile slug_sep cs) \<subseteq> set cs" by (rule set_dropWhileD [THEN subsetI])
  with 2 show ?case by auto
qed simp

lemma filter_dropWhile_sep:
  "(\<And>c. P c \<Longrightarrow> \<not> slug_sep c) \<Longrightarrow> filter P (dropWhile slug_sep s) = filter P s"
  by (induction s) auto

lemma filter_re_sub_seps:
  assumes "\<And>c. P c \<Longrightarrow> \<not> slug_sep c" and "\<not> P CHR ''-''"
  shows "filter P (re_sub_seps s) = filter P s"
  using assms by (induction s rule: re_sub_seps.induct) (auto simp: filter_dropWhile_sep)

lemma slug_char_sep: "slug_char d \<Longrightarrow> slug_sep d \<longleftrightarrow> d = CHR ''-''"
  by (auto simp: slug_char_def slug_sep_def dest: py_isword_not_space)

lemma re_sub_seps_slug:
  "is_slug s \<Longrightarrow> re_sub_seps s = s"
proof (induction s rule: re_sub_seps.induct)
  case (2 c cs)
  from "2.prems" have c: "slug_char c" and all: "list_all slug_char cs"
    and nd: "cs = [] \<or> \<not> (c = CHR ''-'' \<and> hd cs = CHR ''-'')" and cs: "is_slug cs"
    by (simp_all add: is_slug_def no_double_hyphen_Cons)
  show ?case
  proof (cases "slug_sep c")
    case True
    with c have hy: "c = CHR ''-''" by (simp add: slug_char_sep)
    have "dropWhile slug_sep cs = cs"
    proof (cases cs)
      case (Cons d ds)
      with all nd hy have "\<not> slug_sep d" by (simp add: slug_char_sep)
      with Cons show ?thesis by simp
    qed simp
    with True hy "2.IH"(1) cs show ?thesis by simp
  next
    case False
    with "2.IH"(2) cs show ?thesis by simp
  qed
qed simp

lemma last_dropWhile: "dropWhile P xs \<noteq> [] \<Longrightarrow> last (dropWhile P xs) = last xs"
  by (induction xs) auto

lemma last_re_sub_seps:
  "s \<noteq> [] \<Longrightarrow> slug_sep (last s) \<Longrightarrow> last (re_sub_seps s) = CHR ''-''"
proof (induction s rule: re_sub_seps.induct)
  case (2 c cs)
  show ?case
  proof (cases "slug_sep c")
    case True
    show ?thesis
    proof (cases "dropWhile slug_sep cs = []")
      case False
      moreover have "cs \<noteq> []" using False by auto
      ultimately show ?thesis
        using True "2.IH"(1) "2.prems"(2) by (simp add: last_dropWhile)
    qed (use True in simp)
  next
    case False
    with "2.prems" have "cs \<noteq> []" by auto
    with False "2.IH"(2) "2.prems"(2) show ?thesis by simp
  qed
qed simp

lemma no_double_hyphen_sublist: "no_double_hyphen s \<longleftrightarrow> \<not> sublist ''--'' s"
proof (induction s rule: no_double_hyphen.induct)
  case (1 a b r)
  have "prefix ''--'' (a # b # r) \<longleftrightarrow> a = CHR ''-'' \<and> b = CHR ''-''"
    by auto
  with 1 show ?case by (simp add: sublist_Cons_right)
qed (simp_all add: sublist_Cons_right)

subsection \<open>The whole of \<open>slugify\<close>\<close>

lemma set_slugify_input:
  "c \<in> set (py_lower (py_strip (re_sub_punct s))) \<Longrightarrow> \<not> slug_sep c \<Longrightarrow>
     py_isword c \<and> \<not> py_isupper c"
proof -
  assume c: "c \<in> set (py_lower (py_strip (re_sub_punct s)))" and ns: "\<not> slug_sep c"
  then obtain d where d: "d \<in> set (re_sub_punct s)" and cd: "c = py_lower_char d"
    using set_py_strip by (auto simp: py_lower_def)
  from ns cd have "\<not> py_isspace d" and "d \<noteq> CHR ''-''"
    by (auto simp: slug_sep_def)
  with d have "py_isword d" by (auto simp: re_sub_punct_def slug_keep_def)
  with cd show ?thesis by simp
qed

lemma filter_word_slugify_input:
  "filter py_isword (py_lower (py_strip (re_sub_punct s))) = py_lower (filter py_isword s)"
proof -
  have "filter py_isword (py_strip (re_sub_punct s)) = filter py_isword (re_sub_punct s)"
    by (rule filter_py_strip) (rule py_isword_not_space)
  also have "\<dots> = filter py_isword s"
    by (auto simp: re_sub_punct_def slug_keep_def intro: filter_cong)
  finally show ?thesis
    by (simp add: py_lower_def filter_map comp_def)
qed

lemma is_slug_slugify: "is_slug (slugify s)"
proof -
  let ?t = "py_lower (py_strip (re_sub_punct s))"
  have "\<forall>c\<in>set (re_sub_seps ?t). slug_char c"
  proof
    fix c assume "c \<in> set (re_sub_seps ?t)"
    then have "c = CHR ''-'' \<or> (c \<in> set ?t \<and> \<not> slug_sep c)"
      using set_re_sub_seps [of ?t] by blast
    then show "slug_char c"
      by (auto simp: slug_char_def dest: set_slugify_input)
  qed
  then show ?thesis
    by (simp add: is_slug_def slugify_def list_all_iff no_double_hyphen_re_sub_seps)
qed

lemma slugify_slug: "is_slug s \<Longrightarrow> slugify s = s"
proof -
  assume sl: "is_slug s"
  then have ch: "\<forall>c\<in>set s. slug_char c" by (simp add: is_slug_def list_all_iff)
  then have "re_sub_punct s = s"
    by (auto simp: re_sub_punct_def slug_keep_def slug_char_def filter_id_conv)
  moreover have "py_strip s = s"
    using ch by (auto simp: slug_char_def intro!: py_strip_no_space dest: py_isword_not_space)
  moreover have "py_lower s = s"
    unfolding py_lower_def
  proof (rule map_idI)
    fix c assume "c \<in> set s"
    with ch show "py_lower_char c = c" by (auto simp: slug_char_def py_lower_char_id)
  qed
  ultimately show ?thesis
    using re_sub_seps_slug [OF sl] by (simp add: slugify_def)
qed

subsection \<open>Properties of \<open>slugify\<close>\<close>

text \<open>
  C9: \<open>slugify\<close> is idempotent: slugifying a slug changes nothing, so a file
  stem computed twice is the same stem.
\<close>

theorem slugify_idempotent: "slugify (slugify s) = slugify s"
  by (rule slugify_slug) (rule is_slug_slugify)

text \<open>
  C10: the strings that \<open>slugify\<close> leaves unchanged are exactly the slugs:
  lower-case word characters and hyphens, with no two hyphens in a row.
\<close>

theorem slugify_fixpoints: "slugify s = s \<longleftrightarrow> is_slug s"
  using is_slug_slugify [of s] slugify_slug [of s] by metis

text \<open>
  C11: every character of a slug is a lower-case \<open>\w\<close> character or a hyphen,
  and \<open>"--" in slug\<close> is false for every name.
\<close>

theorem slugify_charset:
  "list_all slug_char (slugify s) \<and> \<not> py_contains ''--'' (slugify s)"
  using is_slug_slugify [of s]
  by (simp add: is_slug_def py_contains_sublist no_double_hyphen_sublist)

text \<open>
  C12: \<open>slugify\<close> keeps exactly the word characters of the name, in their
  order, lower-cased; everything else it drops or turns into hyphens.
\<close>

theorem slugify_word_chars: "filter py_isword (slugify s) = py_lower (filter py_isword s)"
proof -
  have "filter py_isword (slugify s) = filter py_isword (py_lower (py_strip (re_sub_punct s)))"
    unfolding slugify_def
    by (rule filter_re_sub_seps) (auto simp: slug_sep_def dest: py_isword_not_space)
  then show ?thesis by (simp add: filter_word_slugify_input)
qed

text \<open>
  C13: a hyphen at either end of the name survives: \<open>strip()\<close> removes only
  whitespace, and the last substitution turns the run into a hyphen rather than
  removing it.  The spec (section 8) promises slugs with no leading or trailing
  hyphen; the code does not deliver that.
\<close>

theorem slugify_keeps_edge_hyphens:
  assumes "s \<noteq> []" and "hd s = CHR ''-''" and "last s = CHR ''-''"
  shows "slugify s \<noteq> [] \<and> hd (slugify s) = CHR ''-'' \<and> last (slugify s) = CHR ''-''"
proof -
  obtain s' where s': "s = CHR ''-'' # s'"
    using assms(1,2) by (cases s) auto
  obtain s'' where s'': "s = s'' @ [CHR ''-'']"
    using assms(1,3) append_butlast_last_id by metis
  have keep: "slug_keep CHR ''-''" by (simp add: slug_keep_def)
  have "re_sub_punct s = CHR ''-'' # re_sub_punct s'"
    using s' keep by (simp add: re_sub_punct_def)
  then have hd: "hd (slugify s) = CHR ''-''"
    by (simp add: slugify_def py_strip_Cons_nonspace py_lower_def slug_sep_def)
  have "re_sub_punct s = re_sub_punct s'' @ [CHR ''-'']"
    using s'' keep by (simp add: re_sub_punct_def)
  then have t: "py_lower (py_strip (re_sub_punct s))
                  = py_lower (dropWhile py_isspace (re_sub_punct s'')) @ [CHR ''-'']"
    by (simp add: py_strip_snoc_nonspace py_lower_def)
  then have "last (slugify s) = CHR ''-''"
    unfolding slugify_def by (simp add: last_re_sub_seps slug_sep_def)
  moreover have "slugify s \<noteq> []"
    unfolding slugify_def using t by simp
  ultimately show ?thesis using hd by blast
qed

theorem slugify_keeps_edge_hyphens_witness:
  "slugify ''-Pie-'' = ''-pie-'' \<and> hd (slugify ''-Pie-'') = CHR ''-''
     \<and> last (slugify ''-Pie-'') = CHR ''-''"
proof -
  have "hd (slugify ''-Pie-'') = CHR ''-'' \<and> last (slugify ''-Pie-'') = CHR ''-''"
    using slugify_keeps_edge_hyphens [of "''-Pie-''"] by simp
  moreover have "slugify ''-Pie-'' = ''-pie-''"
    by (simp add: slugify_def re_sub_punct_def slug_keep_def py_strip_def py_lower_def
        slug_sep_def py_eval)
  ultimately show ?thesis by blast
qed

end
