(* ===== verification/Csv.thy ===== *)
theory Csv
  imports PyStr
begin

text \<open>
  The CSV export of \<open>main\<close> (\<open>src/scrape_recipes.py\<close>, lines 123--167) goes
  through Python's \<open>csv.writer\<close> with the default dialect: comma delimiter,
  double-quote quote character, minimal quoting, doubled quotes inside quoted
  fields, rows ended by CR LF.  A field is quoted exactly when it contains a
  comma, a quote, CR or LF; a row made of one empty field is written as two
  quotes, so that it is not read back as an empty row.  \<open>csv_writerow\<close> is
  that writer (library semantics, checked against CPython).  The reader
  \<open>csv_read_rows\<close> is the specification side: RFC 4180 records, quoted or
  unquoted fields, CR LF after every record.  The round trip says that the
  bytes the export writes read back as exactly the rows it wrote, so the
  comma-joined ingredient list, whatever commas or quotes it holds, stays one
  cell.
\<close>

abbreviation csv_dq :: char where "csv_dq \<equiv> CHR 0x22"
abbreviation csv_cr :: char where "csv_cr \<equiv> CHR 0x0D"
abbreviation csv_lf :: char where "csv_lf \<equiv> CHR 0x0A"
abbreviation csv_comma :: char where "csv_comma \<equiv> CHR '',''"

definition csv_special :: "char \<Rightarrow> bool" where
  "csv_special c \<longleftrightarrow> c = csv_comma \<or> c = csv_dq \<or> c = csv_cr \<or> c = csv_lf"

definition csv_needs_quote :: "string \<Rightarrow> bool" where
  "csv_needs_quote f \<longleftrightarrow> list_ex csv_special f"

definition csv_escape :: "string \<Rightarrow> string" where
  "csv_escape f = concat (map (\<lambda>c. if c = csv_dq then [csv_dq, csv_dq] else [c]) f)"

definition csv_field :: "string \<Rightarrow> string" where
  "csv_field f = (if csv_needs_quote f then csv_dq # csv_escape f @ [csv_dq] else f)"

definition csv_writerow :: "string list \<Rightarrow> string" where
  "csv_writerow fields =
     (if fields = [[]] then [csv_dq, csv_dq] else py_join '','' (map csv_field fields))
     @ [csv_cr, csv_lf]"

subsection \<open>The reader\<close>

fun csv_unquoted :: "string \<Rightarrow> string \<times> string" where
  "csv_unquoted [] = ([], [])"
| "csv_unquoted (c # s) =
     (if c = csv_comma \<or> c = csv_cr \<or> c = csv_lf then ([], c # s)
      else (let (f, r) = csv_unquoted s in (c # f, r)))"

text \<open>After the opening quote: a doubled quote is a quote, a single one ends the field.\<close>

fun csv_quoted :: "string \<Rightarrow> (string \<times> string) option" where
  "csv_quoted [] = None"
| "csv_quoted (c # s) =
     (if c = csv_dq then
        (case s of
           d # s' \<Rightarrow> if d = csv_dq then map_option (\<lambda>(f, r). (csv_dq # f, r)) (csv_quoted s')
                     else Some ([], s)
         | [] \<Rightarrow> Some ([], []))
      else map_option (\<lambda>(f, r). (c # f, r)) (csv_quoted s))"

definition csv_read_field :: "string \<Rightarrow> (string \<times> string) option" where
  "csv_read_field s =
     (case s of
        c # s' \<Rightarrow> if c = csv_dq then csv_quoted s' else Some (csv_unquoted s)
      | [] \<Rightarrow> Some ([], []))"

lemma csv_unquoted_length: "csv_unquoted s = (f, r) \<Longrightarrow> length r \<le> length s"
  by (induction s arbitrary: f r) (auto split: if_splits prod.splits)

lemma map_option_Cons_fst:
  "map_option (\<lambda>(f, r). (c # f, r)) x = Some (f', r') \<Longrightarrow> \<exists>f''. x = Some (f'', r')"
  by (cases x) auto

lemma csv_quoted_length: "csv_quoted s = Some (f, r) \<Longrightarrow> length r \<le> length s"
proof (induction s arbitrary: f rule: csv_quoted.induct)
  case (2 c s)
  show ?case
  proof (cases "c = csv_dq")
    case dq: True
    show ?thesis
    proof (cases s)
      case (Cons d s')
      show ?thesis
      proof (cases "d = csv_dq")
        case True
        with "2.prems" dq Cons obtain f' where "csv_quoted s' = Some (f', r)"
          by (auto dest: map_option_Cons_fst)
        with "2.IH"(1) [OF dq Cons True] Cons show ?thesis by simp
      next
        case False
        with "2.prems" dq Cons show ?thesis by simp
      qed
    qed (use "2.prems" dq in simp)
  next
    case False
    with "2.prems" obtain f' where "csv_quoted s = Some (f', r)"
      by (auto dest: map_option_Cons_fst)
    with "2.IH"(2) [OF False] show ?thesis by simp
  qed
qed simp

lemma csv_read_field_length:
  assumes "csv_read_field s = Some (f, r)"
  shows "length r \<le> length s"
proof (cases s)
  case (Cons c s')
  show ?thesis
  proof (cases "c = csv_dq")
    case True
    with assms Cons have "csv_quoted s' = Some (f, r)" by (simp add: csv_read_field_def)
    with Cons show ?thesis by (auto dest: csv_quoted_length)
  next
    case False
    with assms Cons have "csv_unquoted (c # s') = (f, r)"
      by (simp add: csv_read_field_def del: csv_unquoted.simps)
    with Cons show ?thesis by (simp only: csv_unquoted_length)
  qed
qed (use assms in \<open>simp add: csv_read_field_def\<close>)

text \<open>One record: fields separated by commas, ended by CR LF.\<close>

function csv_fields :: "string \<Rightarrow> (string list \<times> string) option" where
  "csv_fields s =
     (case csv_read_field s of
        None \<Rightarrow> None
      | Some (f, r) \<Rightarrow>
          (case r of
             c # r' \<Rightarrow>
               if c = csv_comma then map_option (\<lambda>(fs, rest). (f # fs, rest)) (csv_fields r')
               else if c = csv_cr \<and> r' \<noteq> [] \<and> hd r' = csv_lf then Some ([f], tl r')
               else None
           | [] \<Rightarrow> None))"
  by pat_completeness auto
termination
proof (relation "measure length")
  show "wf (measure length)" by simp
next
  fix s fr f r c r'
  assume "csv_read_field s = Some fr" and "(f, r) = fr" and "r = c # r'" and "c = csv_comma"
  then have "length r \<le> length s" by (metis csv_read_field_length)
  with \<open>r = c # r'\<close> show "(r', s) \<in> measure length" by simp
qed

declare csv_fields.simps [simp del]

lemma csv_fields_length: "csv_fields s = Some (fs, rest) \<Longrightarrow> length rest < length s"
proof (induction s arbitrary: fs rule: csv_fields.induct)
  case (1 s)
  from "1.prems" obtain f r where fr: "csv_read_field s = Some (f, r)"
    by (auto simp: csv_fields.simps [of s] split: option.splits)
  then have le: "length r \<le> length s" by (rule csv_read_field_length)
  show ?case
  proof (cases r)
    case Nil
    with "1.prems" fr show ?thesis by (simp add: csv_fields.simps [of s])
  next
    case (Cons c r')
    show ?thesis
    proof (cases "c = csv_comma")
      case True
      with "1.prems" fr Cons obtain fs' where "csv_fields r' = Some (fs', rest)"
        by (auto simp: csv_fields.simps [of s])
      with "1.IH" [OF fr refl Cons True] le Cons show ?thesis by simp
    next
      case False
      with "1.prems" fr Cons le show ?thesis
        by (auto simp: csv_fields.simps [of s] split: if_splits)
    qed
  qed
qed

function csv_read_rows :: "string \<Rightarrow> string list list option" where
  "csv_read_rows s =
     (if s = [] then Some []
      else (case csv_fields s of
              None \<Rightarrow> None
            | Some (fs, r) \<Rightarrow> map_option (Cons fs) (csv_read_rows r)))"
  by pat_completeness auto
termination
  by (relation "measure length") (auto dest: csv_fields_length)

declare csv_read_rows.simps [simp del]

subsection \<open>Reading back what the writer wrote\<close>

lemma csv_unquoted_field:
  "\<not> csv_needs_quote f \<Longrightarrow> t = [] \<or> hd t = csv_comma \<or> hd t = csv_cr \<Longrightarrow>
     csv_unquoted (f @ t) = (f, t)"
proof (induction f)
  case Nil
  then show ?case by (cases t) auto
next
  case (Cons c f)
  then have "\<not> csv_special c" and "\<not> csv_needs_quote f"
    by (simp_all add: csv_needs_quote_def)
  with Cons.IH Cons.prems(2) show ?case by (simp add: csv_special_def)
qed

lemma csv_quoted_field:
  "t = [] \<or> hd t \<noteq> csv_dq \<Longrightarrow> csv_quoted (csv_escape f @ csv_dq # t) = Some (f, t)"
proof (induction f)
  case Nil
  then show ?case by (cases t) (auto simp: csv_escape_def)
next
  case (Cons c f)
  then show ?case by (simp add: csv_escape_def)
qed

lemma csv_read_field_writer:
  assumes "t = [] \<or> hd t = csv_comma \<or> hd t = csv_cr"
  shows "csv_read_field (csv_field f @ t) = Some (f, t)"
proof (cases "csv_needs_quote f")
  case True
  have "t = [] \<or> hd t \<noteq> csv_dq" using assms by auto
  with True show ?thesis
    by (simp add: csv_field_def csv_read_field_def csv_quoted_field)
next
  case False
  show ?thesis
  proof (cases f)
    case Nil
    with assms show ?thesis
      by (cases t) (auto simp: csv_field_def csv_read_field_def csv_needs_quote_def)
  next
    case (Cons c f')
    with False have "c \<noteq> csv_dq" by (simp add: csv_needs_quote_def csv_special_def)
    with Cons False assms show ?thesis
      using csv_unquoted_field [of f t]
      by (simp add: csv_field_def csv_read_field_def del: csv_unquoted.simps)
  qed
qed

lemma csv_fields_join:
  "fs \<noteq> [] \<Longrightarrow>
     csv_fields (py_join '','' (map csv_field fs) @ csv_cr # csv_lf # rest) = Some (fs, rest)"
proof (induction fs rule: induct_list012)
  case (2 x)
  have "csv_read_field (csv_field x @ csv_cr # csv_lf # rest) = Some (x, csv_cr # csv_lf # rest)"
    by (rule csv_read_field_writer) simp
  then show ?case by (simp add: csv_fields.simps)
next
  case (3 x y ys)
  have "csv_read_field (csv_field x @ csv_comma # py_join '','' (map csv_field (y # ys))
            @ csv_cr # csv_lf # rest)
        = Some (x, csv_comma # py_join '','' (map csv_field (y # ys)) @ csv_cr # csv_lf # rest)"
    by (rule csv_read_field_writer) simp
  with "3.IH"(2) show ?case by (simp add: csv_fields.simps [of "csv_field x @ _"])
qed simp

lemma csv_fields_writerow:
  "fs \<noteq> [] \<Longrightarrow> csv_fields (csv_writerow fs @ rest) = Some (fs, rest)"
proof (cases "fs = [[]]")
  case True
  have "csv_read_field (csv_dq # csv_dq # csv_cr # csv_lf # rest) = Some ([], csv_cr # csv_lf # rest)"
    using csv_quoted_field [of "csv_cr # csv_lf # rest" "[]"]
    by (simp add: csv_read_field_def csv_escape_def)
  with True show ?thesis by (simp add: csv_writerow_def csv_fields.simps)
next
  case False
  moreover assume "fs \<noteq> []"
  ultimately show ?thesis by (simp add: csv_writerow_def csv_fields_join)
qed

lemma csv_writerow_not_Nil [simp]: "csv_writerow fs \<noteq> []"
  by (simp add: csv_writerow_def)

text \<open>
  The export reads back: the concatenation of the rows \<open>csv.writer\<close>
  wrote (header and data rows alike) parses as exactly those rows, whatever
  commas, quotes or line breaks their cells contain.
\<close>

theorem csv_roundtrip:
  "list_all (\<lambda>r. r \<noteq> []) rows \<Longrightarrow> csv_read_rows (concat (map csv_writerow rows)) = Some rows"
proof (induction rows)
  case Nil
  then show ?case by (simp add: csv_read_rows.simps)
next
  case (Cons r rows)
  then have "csv_fields (csv_writerow r @ concat (map csv_writerow rows))
               = Some (r, concat (map csv_writerow rows))"
    by (simp add: csv_fields_writerow)
  with Cons show ?case by (simp add: csv_read_rows.simps [of "csv_writerow r @ _"])
qed

theorem csv_roundtrip_witness:
  "csv_read_rows (concat (map csv_writerow [[''Soup'', ''salt, pepper''], [(''say '' @ [csv_dq] @ ''hi'' @ [csv_dq])], [[]]]))
     = Some [[''Soup'', ''salt, pepper''], [(''say '' @ [csv_dq] @ ''hi'' @ [csv_dq])], [[]]]"
  using csv_roundtrip [of "[[''Soup'', ''salt, pepper''], [(''say '' @ [csv_dq] @ ''hi'' @ [csv_dq])], [[]]]"] by simp

end
