(* ===== verification/Files.thy ===== *)
theory Files
  imports PyStr
begin

text \<open>
  The part of the operating system the two scripts change: the files (path to
  content), the directories, and the lines printed to standard output, kept
  as events of a type each script chooses.  \<open>os.path.join\<close>,
  \<open>os.makedirs(exist_ok=True)\<close> / \<open>Path.mkdir(parents=True, exist_ok=True)\<close>,
  \<open>open(p, "w")\<close> followed by writes, appending to a file kept open, and
  reading a text file line by line (\<open>for line in f\<close>, universal newlines) are
  modelled after CPython.  Their errors are the ones a conflicting file
  system produces: \<open>makedirs('')\<close> raises \<open>FileNotFoundError\<close>, a file
  where a directory must be created raises \<open>FileExistsError\<close> (the path
  itself) or \<open>NotADirectoryError\<close> (one of its ancestors), and opening a
  directory raises \<open>IsADirectoryError\<close>; all are \<open>OSError\<close>s.  Paths are
  strings, compared as strings.  The directory a script writes into is always
  one it created just before, so a missing parent does not arise; permissions
  and a full disk are not modelled.  A file's content is the Python string
  written, so the encoding step is not modelled either.
\<close>

record 'ev fs =
  fs_files :: "path \<rightharpoonup> string"
  fs_dirs :: "path set"
  fs_out :: "'ev list"

text \<open>The file system before a run: no files, no directories, nothing printed.\<close>

definition empty_fs :: "'ev fs" where
  "empty_fs = \<lparr>fs_files = Map.empty, fs_dirs = {}, fs_out = []\<rparr>"

abbreviation nl :: char where "nl \<equiv> CHR 0x0A"
abbreviation cr :: char where "cr \<equiv> CHR 0x0D"

text \<open>\<open>os.path.join(a, b)\<close> for two components.\<close>

definition path_join :: "path \<Rightarrow> path \<Rightarrow> path" where
  "path_join a b =
     (if b \<noteq> [] \<and> hd b = CHR ''/'' then b
      else if a = [] \<or> last a = CHR ''/'' then a @ b
      else a @ ''/'' @ b)"

text \<open>The ancestors of a path that \<open>os.makedirs\<close> creates: every prefix
  that ends before a slash, the root excluded.\<close>

definition dir_prefixes :: "path \<Rightarrow> path list" where
  "dir_prefixes p =
     filter (\<lambda>q. q \<noteq> []) (map (\<lambda>i. take i p) (filter (\<lambda>i. p ! i = CHR ''/'') [0..<length p]))"

definition mkdirs_state :: "path \<Rightarrow> 'ev fs \<Rightarrow> 'ev fs" where
  "mkdirs_state p w = w\<lparr>fs_dirs := set (dir_prefixes p) \<union> insert p (fs_dirs w)\<rparr>"

text \<open>\<open>os.makedirs(p, exist_ok=True)\<close>: \<open>mkdir\<close> of \<open>''\<close> fails, an
  ancestor that is a file stops the creation below it, and the path itself
  may be a directory already but not a file.\<close>

definition makedirs :: "path \<Rightarrow> 'ev fs \<Rightarrow> 'ev fs result" where
  "makedirs p w =
     (if p = [] then Inl (OSError ''No such file or directory'')
      else if list_ex (\<lambda>q. fs_files w q \<noteq> None) (dir_prefixes p) then Inl (OSError ''Not a directory'')
      else if fs_files w p \<noteq> None then Inl (OSError ''File exists'')
      else Inr (mkdirs_state p w))"

text \<open>\<open>with open(p, "w") as f: ...\<close>: the file is truncated and then holds what was written.\<close>

definition write_file :: "path \<Rightarrow> string \<Rightarrow> 'ev fs \<Rightarrow> 'ev fs" where
  "write_file p s w = w\<lparr>fs_files := (fs_files w)(p \<mapsto> s)\<rparr>"

text \<open>A write to a file that stays open: the text goes after what is there.\<close>

text \<open>\<open>open(p, "w")\<close> and the writes of its \<open>with\<close> block: a directory
  cannot be opened.\<close>

definition open_write :: "path \<Rightarrow> string \<Rightarrow> 'ev fs \<Rightarrow> 'ev fs result" where
  "open_write p s w = (if p \<in> fs_dirs w then Inl (OSError ''Is a directory'') else Inr (write_file p s w))"

text \<open>Running the next statements after one that may raise: the exception
  ends the sequence with the state before the statement.\<close>

definition then_fs :: "('s \<Rightarrow> 's result) \<Rightarrow> ('s \<Rightarrow> 's \<times> py_error option) \<Rightarrow> 's \<Rightarrow> 's \<times> py_error option" where
  "then_fs f k w = (case f w of Inl e \<Rightarrow> (w, Some e) | Inr w' \<Rightarrow> k w')"

text \<open>Directories and files never share a path.\<close>

definition wf_fs :: "'ev fs \<Rightarrow> bool" where
  "wf_fs w \<longleftrightarrow> (\<forall>p\<in>fs_dirs w. fs_files w p = None)"

definition append_file :: "path \<Rightarrow> string \<Rightarrow> 'ev fs \<Rightarrow> 'ev fs" where
  "append_file p s w =
     w\<lparr>fs_files := (fs_files w)(p \<mapsto> (case fs_files w p of None \<Rightarrow> s | Some t \<Rightarrow> t @ s))\<rparr>"

definition print_ev :: "'ev \<Rightarrow> 'ev fs \<Rightarrow> 'ev fs" where
  "print_ev e w = w\<lparr>fs_out := fs_out w @ [e]\<rparr>"

text \<open>\<open>for x in xs: f.write(x + "\n")\<close>.\<close>

definition lines_text :: "string list \<Rightarrow> string" where
  "lines_text xs = concat (map (\<lambda>x. x @ [nl]) xs)"

text \<open>
  \<open>for line in f\<close> on a file opened in text mode: lines end at \<open>\n\<close>,
  \<open>\r\n\<close> or \<open>\r\<close>.  The line is given without its end; the scripts strip
  every line, and the end is whitespace, so nothing depends on it.
\<close>

definition line_end :: "char \<Rightarrow> bool" where
  "line_end c \<longleftrightarrow> c = nl \<or> c = cr"

function read_lines :: "string \<Rightarrow> string list" where
  "read_lines s =
     (if s = [] then []
      else takeWhile (\<lambda>c. \<not> line_end c) s #
        (case dropWhile (\<lambda>c. \<not> line_end c) s of
           [] \<Rightarrow> []
         | c # r \<Rightarrow> read_lines (if c = cr \<and> r \<noteq> [] \<and> hd r = nl then tl r else r)))"
  by pat_completeness auto
termination
proof (relation "measure length")
  fix s c r
  assume "dropWhile (\<lambda>c. \<not> line_end c) s = c # r"
  then have "length (c # r) \<le> length s" by (metis length_dropWhile_le)
  then show "((if c = cr \<and> r \<noteq> [] \<and> hd r = nl then tl r else r), s) \<in> measure length"
    by auto
qed simp

declare read_lines.simps [simp del]

subsection \<open>Facts\<close>

lemma suffix_path_join: "suffix b (path_join a b)"
  by (auto simp: path_join_def suffix_def)

lemma last_path_join: "b \<noteq> [] \<Longrightarrow> last (path_join a b) = last b"
  by (auto simp: path_join_def)

lemma fs_files_write_file [simp]:
  "fs_files (write_file p s w) = (fs_files w)(p \<mapsto> s)"
  by (simp add: write_file_def)

lemma fs_files_mkdirs_state [simp]: "fs_files (mkdirs_state p w) = fs_files w"
  by (simp add: mkdirs_state_def)

lemma fs_out_mkdirs_state [simp]: "fs_out (mkdirs_state p w) = fs_out w"
  by (simp add: mkdirs_state_def)

lemma fs_dirs_mkdirs_state [simp]:
  "fs_dirs (mkdirs_state p w) = set (dir_prefixes p) \<union> insert p (fs_dirs w)"
  by (simp add: mkdirs_state_def)

lemma makedirs_Inr: "makedirs p w = Inr w' \<longleftrightarrow>
    p \<noteq> [] \<and> (\<forall>q\<in>set (dir_prefixes p). fs_files w q = None) \<and> fs_files w p = None \<and> w' = mkdirs_state p w"
  by (auto simp: makedirs_def list_ex_iff)

lemma open_write_Inr: "open_write p s w = Inr w' \<longleftrightarrow> p \<notin> fs_dirs w \<and> w' = write_file p s w"
  by (auto simp: open_write_def)

lemma makedirs_Inl: "makedirs p w = Inl e \<Longrightarrow> \<exists>m. e = OSError m"
  by (auto simp: makedirs_def split: if_splits)

lemma open_write_Inl: "open_write p s w = Inl e \<Longrightarrow> e = OSError ''Is a directory''"
  by (auto simp: open_write_def split: if_splits)

lemma then_fs_simps [simp]:
  "f w = Inl e \<Longrightarrow> then_fs f k w = (w, Some e)"
  "f w = Inr w' \<Longrightarrow> then_fs f k w = k w'"
  by (simp_all add: then_fs_def)

lemma dir_prefixes_shorter: "q \<in> set (dir_prefixes p) \<Longrightarrow> length q < length p"
  by (auto simp: dir_prefixes_def)

lemma fs_dirs_write_file [simp]: "fs_dirs (write_file p s w) = fs_dirs w"
  by (simp add: write_file_def)

lemma fs_dirs_append_file [simp]: "fs_dirs (append_file p s w) = fs_dirs w"
  by (simp add: append_file_def)

lemma fs_dirs_print_ev [simp]: "fs_dirs (print_ev e w) = fs_dirs w"
  by (simp add: print_ev_def)

lemma wf_fs_makedirs: "makedirs p w = Inr w' \<Longrightarrow> wf_fs w \<Longrightarrow> wf_fs w'"
  by (auto simp: makedirs_Inr wf_fs_def)

lemma wf_fs_open_write: "open_write p s w = Inr w' \<Longrightarrow> wf_fs w \<Longrightarrow> wf_fs w'"
  by (auto simp: open_write_Inr wf_fs_def)

lemma wf_fs_append_file: "p \<notin> fs_dirs w \<Longrightarrow> wf_fs w \<Longrightarrow> wf_fs (append_file p s w)"
  by (auto simp: wf_fs_def append_file_def)

lemma wf_fs_print_ev [simp]: "wf_fs (print_ev e w) = wf_fs w"
  by (simp add: wf_fs_def print_ev_def)

lemma fs_files_print_ev [simp]: "fs_files (print_ev e w) = fs_files w"
  by (simp add: print_ev_def)

lemma fs_out_write_file [simp]: "fs_out (write_file p s w) = fs_out w"
  by (simp add: write_file_def)

lemma fs_out_append_file [simp]: "fs_out (append_file p s w) = fs_out w"
  by (simp add: append_file_def)

lemma fs_out_print_ev [simp]: "fs_out (print_ev e w) = fs_out w @ [e]"
  by (simp add: print_ev_def)

lemma fs_files_append_file_other [simp]:
  "q \<noteq> p \<Longrightarrow> fs_files (append_file p s w) q = fs_files w q"
  by (simp add: append_file_def)

lemma fs_files_append_file_same [simp]:
  "fs_files w p = Some t \<Longrightarrow> fs_files (append_file p s w) p = Some (t @ s)"
  by (simp add: append_file_def)

lemma then_fs_inv:
  "P w \<Longrightarrow> (\<And>w'. f w = Inr w' \<Longrightarrow> P (fst (k w'))) \<Longrightarrow> P (fst (then_fs f k w))"
  by (simp add: then_fs_def split: sum.split)

lemma makedirs_files: "makedirs p w = Inr w' \<Longrightarrow> fs_files w' = fs_files w"
  by (simp add: makedirs_Inr)

lemma open_write_keeps_file: "open_write p s w = Inr w' \<Longrightarrow> fs_files w q \<noteq> None \<Longrightarrow> fs_files w' q \<noteq> None"
  by (simp add: open_write_Inr)

lemma read_lines_lines_text:
  "list_all (\<lambda>x. \<not> list_ex line_end x) xs \<Longrightarrow> read_lines (lines_text xs) = xs"
proof (induction xs)
  case Nil
  then show ?case by (simp add: lines_text_def read_lines.simps)
next
  case (Cons x xs)
  then have x: "\<forall>c\<in>set x. \<not> line_end c" by (simp add: list_ex_iff)
  then have "takeWhile (\<lambda>c. \<not> line_end c) (x @ nl # lines_text xs) = x"
    "dropWhile (\<lambda>c. \<not> line_end c) (x @ nl # lines_text xs) = nl # lines_text xs"
    by (simp_all add: takeWhile_append2 dropWhile_append2 line_end_def)
  with Cons show ?case
    by (simp add: lines_text_def read_lines.simps [of "x @ _"])
qed

end
