(* ===== verification/Pipeline.thy ===== *)
theory Pipeline
  imports Parser Links Normalize Slugify Csv Files
begin

text \<open>
  \<open>translate\<close> and \<open>main\<close> of \<open>src/scrape_recipes.py\<close> (lines 41--47 and
  115--168): the run that turns a start URL into \<open>recipes.csv\<close> and the
  per-recipe text files.  The environment of a run is the record
  \<open>scrape_env\<close>: the value of \<open>DEEPL_API_KEY\<close>, whether \<open>import deepl\<close>
  succeeded, the translation service (\<open>translate_text(text,
  target_lang="RU").text\<close>, or the exception it raises) and the web (the
  answer to each attempt of a GET of each URL).  The state is the file system
  of \<open>Files\<close> with the lines \<open>main\<close> prints as \<open>scrape_event\<close>s.  Each link
  is one step of \<open>scrape_loop\<close>: a failed parse is printed and skipped, a
  failed translation ends the run with its exception, anything else is
  exported: three text files named from the slug, then one CSV row appended
  to the file opened at the start.  Every \<open>os.makedirs\<close> and \<open>open\<close> of
  \<open>main\<close> may raise an \<open>OSError\<close>, which ends the run with the files
  written so far; \<open>scrape_ok\<close> names the file systems on which none does.
\<close>

subsection \<open>Translator\<close>

type_synonym translator = "string \<Rightarrow> string result"

definition translate :: "string \<Rightarrow> translator option \<Rightarrow> string result" where
  "translate text translator =
     (if text = [] then Inr text
      else case translator of None \<Rightarrow> Inr text | Some t \<Rightarrow> t text)"

text \<open>\<open>[translate(i, translator) for i in xs]\<close>: the first failure propagates.\<close>

fun translate_list :: "translator option \<Rightarrow> string list \<Rightarrow> string list result" where
  "translate_list tr [] = Inr []"
| "translate_list tr (x # xs) =
     bind_result (translate x tr) (\<lambda>y. bind_result (translate_list tr xs) (\<lambda>ys. Inr (y # ys)))"

text \<open>Lines 141--147, field by field in the order of the source.\<close>

definition translate_recipe :: "translator option \<Rightarrow> recipe \<Rightarrow> recipe result" where
  "translate_recipe tr d =
     bind_result (translate (r_name d) tr) (\<lambda>name.
     bind_result (translate (r_type d) tr) (\<lambda>typ.
     bind_result (translate_list tr (r_ingredients d)) (\<lambda>ings.
     bind_result (translate (r_prep_time d) tr) (\<lambda>prep.
     bind_result (translate (r_cook_time d) tr) (\<lambda>cook.
     bind_result (translate (r_total_time d) tr) (\<lambda>total.
     bind_result (translate_list tr (r_steps d)) (\<lambda>steps.
       Inr (d\<lparr>r_name := name, r_type := typ, r_ingredients := ings, r_prep_time := prep,
              r_cook_time := cook, r_total_time := total, r_steps := steps\<rparr>))))))))"

text \<open>Lines 139--147: normalise the ingredients, then translate when a
  translator is configured (\<open>if translator:\<close>).\<close>

definition prepare_recipe :: "translator option \<Rightarrow> recipe \<Rightarrow> recipe result" where
  "prepare_recipe tr data =
     (let data1 = data\<lparr>r_ingredients := normalize_ingredients (r_ingredients data)\<rparr>
      in if tr = None then Inr data1 else translate_recipe tr data1)"

subsection \<open>Exporter\<close>

text \<open>
  The header row of lines 125--132.  Its Cyrillic names lie outside the
  Latin-1 range of the model's characters; they are written here as their
  UTF-8 bytes, as the file holds them.  None of these bytes is a comma, a
  quote or a line break.
\<close>

definition csv_header :: "string list" where
  "csv_header =
     [[CHR 0xD0, CHR 0x9D, CHR 0xD0, CHR 0xB0, CHR 0xD0, CHR 0xB7, CHR 0xD0, CHR 0xB2,
       CHR 0xD0, CHR 0xB0, CHR 0xD0, CHR 0xBD, CHR 0xD0, CHR 0xB8, CHR 0xD0, CHR 0xB5],
      [CHR 0xD0, CHR 0xA2, CHR 0xD0, CHR 0xB8, CHR 0xD0, CHR 0xBF],
      [CHR 0xD0, CHR 0x98, CHR 0xD0, CHR 0xBD, CHR 0xD0, CHR 0xB3, CHR 0xD1, CHR 0x80,
       CHR 0xD0, CHR 0xB5, CHR 0xD0, CHR 0xB4, CHR 0xD0, CHR 0xB8, CHR 0xD0, CHR 0xB5,
       CHR 0xD0, CHR 0xBD, CHR 0xD1, CHR 0x82, CHR 0xD1, CHR 0x8B],
      [CHR 0xD0, CHR 0x92, CHR 0xD1, CHR 0x80, CHR 0xD0, CHR 0xB5, CHR 0xD0, CHR 0xBC,
       CHR 0xD1, CHR 0x8F, CHR 0x20, CHR 0xD0, CHR 0xBD, CHR 0xD0, CHR 0xB0, CHR 0x20,
       CHR 0xD0, CHR 0xBF, CHR 0xD0, CHR 0xBE, CHR 0xD0, CHR 0xB4, CHR 0xD0, CHR 0xB3,
       CHR 0xD0, CHR 0xBE, CHR 0xD1, CHR 0x82, CHR 0xD0, CHR 0xBE, CHR 0xD0, CHR 0xB2,
       CHR 0xD0, CHR 0xBA, CHR 0xD1, CHR 0x83],
      [CHR 0xD0, CHR 0x92, CHR 0xD1, CHR 0x80, CHR 0xD0, CHR 0xB5, CHR 0xD0, CHR 0xBC,
       CHR 0xD1, CHR 0x8F, CHR 0x20, CHR 0xD0, CHR 0xBD, CHR 0xD0, CHR 0xB0, CHR 0x20,
       CHR 0xD0, CHR 0xB3, CHR 0xD0, CHR 0xBE, CHR 0xD1, CHR 0x82, CHR 0xD0, CHR 0xBE,
       CHR 0xD0, CHR 0xB2, CHR 0xD0, CHR 0xBA, CHR 0xD1, CHR 0x83],
      [CHR 0xD0, CHR 0x92, CHR 0xD1, CHR 0x81, CHR 0xD0, CHR 0xB5, CHR 0xD0, CHR 0xB3,
       CHR 0xD0, CHR 0xBE, CHR 0x20, CHR 0xD0, CHR 0xB2, CHR 0xD1, CHR 0x80, CHR 0xD0,
       CHR 0xB5, CHR 0xD0, CHR 0xBC, CHR 0xD0, CHR 0xB5, CHR 0xD0, CHR 0xBD, CHR 0xD0,
       CHR 0xB8]]"

text \<open>The data row of lines 160--167.\<close>

definition recipe_row :: "recipe \<Rightarrow> string list" where
  "recipe_row d =
     [r_name d, r_type d, py_join '', '' (r_ingredients d), r_prep_time d, r_cook_time d,
      r_total_time d]"

text \<open>\<open>os.path.join(text_dir, f"{slug}{suffix}")\<close> with \<open>text_dir =
  os.path.join(output_dir, "text")\<close>.\<close>

definition text_path :: "path \<Rightarrow> string \<Rightarrow> string \<Rightarrow> path" where
  "text_path out slug sfx = path_join (path_join out ''text'') (slug @ sfx)"

text \<open>Lines 148--167: \<open>os.makedirs(text_dir, exist_ok=True)\<close>, the three
  text files, then the row, for one recipe; each of the first four may raise
  an \<open>OSError\<close>, which ends the export with the files written so far.\<close>

definition export_recipe :: "path \<Rightarrow> path \<Rightarrow> recipe \<Rightarrow> 'ev fs \<Rightarrow> 'ev fs \<times> py_error option" where
  "export_recipe out csv_path data =
     (let slug = slugify (r_name data)
      in then_fs (makedirs (path_join out ''text''))
          (then_fs (open_write (text_path out slug ''_photos.txt'') (lines_text (r_photos data)))
          (then_fs (open_write (text_path out slug ''_ingredients.txt'') (lines_text (r_ingredients data)))
          (then_fs (open_write (text_path out slug ''_steps.txt'') (lines_text (r_steps data)))
             (\<lambda>w4. (append_file csv_path (csv_writerow (recipe_row data)) w4, None))))))"

text \<open>The files after an export that raised nothing.\<close>

definition export_writes :: "path \<Rightarrow> path \<Rightarrow> recipe \<Rightarrow> 'ev fs \<Rightarrow> 'ev fs" where
  "export_writes out csv_path data w =
     (let slug = slugify (r_name data)
      in append_file csv_path (csv_writerow (recipe_row data))
           (write_file (text_path out slug ''_steps.txt'') (lines_text (r_steps data))
           (write_file (text_path out slug ''_ingredients.txt'') (lines_text (r_ingredients data))
           (write_file (text_path out slug ''_photos.txt'') (lines_text (r_photos data))
           (mkdirs_state (path_join out ''text'') w)))))"

subsection \<open>The run\<close>

text \<open>What \<open>main\<close> prints: line 137 and line 168.\<close>

datatype scrape_event = ParseFailed url py_error | SavedRecipes path

record scrape_env =
  env_api_key :: "string option"
  env_deepl :: bool
  env_translate :: translator
  env_net :: "url \<Rightarrow> nat \<Rightarrow> document answer"

text \<open>Lines 117--120: \<open>if api_key and deepl:\<close>.\<close>

definition select_translator :: "scrape_env \<Rightarrow> translator option" where
  "select_translator env =
     (case env_api_key env of
        None \<Rightarrow> None
      | Some k \<Rightarrow> if k \<noteq> [] \<and> env_deepl env then Some (env_translate env) else None)"

text \<open>One iteration of the loop of lines 133--167: a failed parse is
  printed, a failed translation or export raises.\<close>

definition process_link ::
  "(url \<Rightarrow> nat \<Rightarrow> document answer) \<Rightarrow> translator option \<Rightarrow> path \<Rightarrow> path \<Rightarrow> url
     \<Rightarrow> scrape_event fs \<Rightarrow> scrape_event fs \<times> py_error option" where
  "process_link net tr out csv_path url w =
     (case parse_recipe net url of
        Inl exc \<Rightarrow> (print_ev (ParseFailed url exc) w, None)
      | Inr data \<Rightarrow>
          (case prepare_recipe tr data of
             Inl e \<Rightarrow> (w, Some e)
           | Inr data' \<Rightarrow> export_recipe out csv_path data' w))"

text \<open>The loop: an exception that escapes an iteration ends \<open>main\<close>, with
  the files as they are at that moment.\<close>

fun scrape_loop ::
  "(url \<Rightarrow> nat \<Rightarrow> document answer) \<Rightarrow> translator option \<Rightarrow> path \<Rightarrow> path \<Rightarrow> url list
     \<Rightarrow> scrape_event fs \<Rightarrow> scrape_event fs \<times> py_error option" where
  "scrape_loop net tr out csv_path [] w = (w, None)"
| "scrape_loop net tr out csv_path (u # us) w =
     (case process_link net tr out csv_path u w of
        (w', None) \<Rightarrow> scrape_loop net tr out csv_path us w'
      | (w', Some e) \<Rightarrow> (w', Some e))"

text \<open>Lines 114--168: \<open>os.makedirs(output_dir, exist_ok=True)\<close>, the
  translator, the links, \<open>open(csv_path, "w")\<close> with the header, the loop,
  the final line.\<close>

definition scrape_main ::
  "scrape_env \<Rightarrow> url \<Rightarrow> path \<Rightarrow> scrape_event fs \<Rightarrow> scrape_event fs \<times> py_error option" where
  "scrape_main env start out =
     then_fs (makedirs out) (\<lambda>w1.
       (let tr = select_translator env
        in case extract_recipe_links (env_net env) start of
             Inl e \<Rightarrow> (w1, Some e)
           | Inr links \<Rightarrow>
               (let csv_path = path_join out ''recipes.csv''
                in then_fs (open_write csv_path (csv_writerow csv_header)) (\<lambda>w2.
                     case scrape_loop (env_net env) tr out csv_path links w2 of
                       (w3, None) \<Rightarrow> (print_ev (SavedRecipes csv_path) w3, None)
                     | (w3, Some e) \<Rightarrow> (w3, Some e)) w1)))"

text \<open>
  The rows a run appends, one per link whose parse and translation succeed,
  in the order of the links.
\<close>

definition exported_rows ::
  "(url \<Rightarrow> nat \<Rightarrow> document answer) \<Rightarrow> translator option \<Rightarrow> url list \<Rightarrow> string list list" where
  "exported_rows net tr links =
     concat (map (\<lambda>u. case parse_recipe net u of
                        Inl _ \<Rightarrow> []
                      | Inr d \<Rightarrow> (case prepare_recipe tr d of Inl _ \<Rightarrow> [] | Inr d' \<Rightarrow> [recipe_row d']))
                 links)"

text \<open>The lines printed for the links whose parse failed, in order.\<close>

definition parse_failures :: "(url \<Rightarrow> nat \<Rightarrow> document answer) \<Rightarrow> url list \<Rightarrow> scrape_event list" where
  "parse_failures net links =
     concat (map (\<lambda>u. case parse_recipe net u of Inl e \<Rightarrow> [ParseFailed u e] | Inr _ \<Rightarrow> []) links)"

text \<open>The files a run may write: the CSV and the three text files of a slug.\<close>

definition output_files :: "path \<Rightarrow> path set" where
  "output_files out =
     insert (path_join out ''recipes.csv'')
       {text_path out slug sfx | slug sfx. is_slug slug \<and> sfx \<in> {''_photos.txt'', ''_ingredients.txt'', ''_steps.txt''}}"

text \<open>A file system on which an export cannot raise: no file where
  \<open>out/text\<close> or one of its ancestors must be, no directory where an output
  file must be.\<close>

definition export_ok :: "path \<Rightarrow> 'ev fs \<Rightarrow> bool" where
  "export_ok out w \<longleftrightarrow>
     list_all (\<lambda>q. fs_files w q = None) (path_join out ''text'' # dir_prefixes (path_join out ''text''))
     \<and> (\<forall>p\<in>output_files out. p \<notin> fs_dirs w)"

text \<open>A file system on which no statement of \<open>main\<close> that touches files can
  raise.\<close>

definition scrape_ok :: "path \<Rightarrow> 'ev fs \<Rightarrow> bool" where
  "scrape_ok out w \<longleftrightarrow>
     out \<noteq> [] \<and> list_all (\<lambda>q. fs_files w q = None) (out # dir_prefixes out) \<and> export_ok out w"

text \<open>\<open>main\<close> gets past \<open>open(csv_path, "w")\<close>.\<close>

definition main_opens_csv :: "path \<Rightarrow> 'ev fs \<Rightarrow> bool" where
  "main_opens_csv out w \<longleftrightarrow>
     (case makedirs out w of Inl _ \<Rightarrow> False | Inr w1 \<Rightarrow> path_join out ''recipes.csv'' \<notin> fs_dirs w1)"

subsection \<open>An example run\<close>

text \<open>
  A web of two pages: a start page linking to one recipe and to one other
  page, and the recipe page; every other URL answers 404.  The translation
  service of the environment fails on every call.
\<close>

definition example_net :: "url \<Rightarrow> nat \<Rightarrow> document answer" where
  "example_net u n =
     (if u = ''https://x.test/'' then
        Answer 200 [Elem ''a'' [(''href'', ''/recipe/pie'')] [Text ''Pie''],
                    Elem ''a'' [(''href'', ''/about'')] [Text ''About'']]
      else if u = ''https://x.test/recipe/pie'' then
        Answer 200 [Elem ''h1'' [] [Text ''Apple Pie''],
                    Elem ''ul'' [] [Elem ''li'' [(''class'', ''ingredient'')] [Text ''Apples''],
                                    Elem ''li'' [(''class'', ''ingredient'')] [Text '' apples '']],
                    Elem ''div'' [(''class'', ''steps'')] [Elem ''p'' [] [Text ''Bake'']],
                    Elem ''img'' [(''src'', ''pie.jpg'')] []]
      else Answer 404 [])"

definition example_env :: "string option \<Rightarrow> scrape_env" where
  "example_env key =
     \<lparr>env_api_key = key, env_deepl = True, env_translate = (\<lambda>s. Inl (TranslationError ''quota'')),
      env_net = example_net\<rparr>"

subsection \<open>Export lemmas\<close>

lemma csv_not_text_path:
  "path_join out' ''recipes.csv'' \<noteq> text_path out slug sfx" if "sfx \<noteq> []" "last sfx = CHR ''t''"
proof -
  have "last (text_path out slug sfx) = CHR ''t''"
    using that by (simp add: text_path_def last_path_join)
  moreover have "last (path_join out' ''recipes.csv'') = CHR ''v''"
    by (simp add: last_path_join)
  ultimately show ?thesis by auto
qed

lemma text_path_distinct:
  assumes "\<not> suffix x y" "\<not> suffix y x"
  shows "text_path out slug x \<noteq> text_path out' slug' y"
proof
  assume eq: "text_path out slug x = text_path out' slug' y"
  have sx: "suffix x (slug @ x)" "suffix y (slug' @ y)" by (auto simp: suffix_def)
  have "suffix x (text_path out slug x)"
    unfolding text_path_def by (rule suffix_order.trans [OF sx(1) suffix_path_join])
  moreover have "suffix y (text_path out' slug' y)"
    unfolding text_path_def by (rule suffix_order.trans [OF sx(2) suffix_path_join])
  then have "suffix y (text_path out slug x)" by (simp only: eq)
  ultimately show False using assms suffix_same_cases by blast
qed

lemma length_path_join:
  "b \<noteq> [] \<Longrightarrow> hd b \<noteq> CHR ''/'' \<Longrightarrow>
     length a + length b \<le> length (path_join a b) \<and> length (path_join a b) \<le> length a + length b + 1"
  by (auto simp: path_join_def)

lemma slug_char_not_slash: "slug_char c \<Longrightarrow> c \<noteq> CHR ''/''"
  by (auto simp: slug_char_def py_char_defs)

lemma text_path_longer:
  assumes "is_slug slug" "sfx \<noteq> []" "hd sfx \<noteq> CHR ''/''"
  shows "length (path_join out ''text'') + length sfx \<le> length (text_path out slug sfx)"
proof -
  have "hd (slug @ sfx) \<noteq> CHR ''/''"
    using assms by (cases slug) (auto simp: is_slug_def dest: slug_char_not_slash)
  then show ?thesis
    using length_path_join [of "slug @ sfx" "path_join out ''text''"] assms(2)
    by (simp add: text_path_def)
qed

lemma output_files_longer: "p \<in> output_files out \<Longrightarrow> length (path_join out ''text'') < length p"
proof -
  assume "p \<in> output_files out"
  moreover have "length (path_join out ''text'') < length (path_join out ''recipes.csv'')"
    using length_path_join [of "''text''" out] length_path_join [of "''recipes.csv''" out] by simp
  moreover have "length (path_join out ''text'') < length (text_path out slug sfx)"
    if "is_slug slug" "sfx \<in> {''_photos.txt'', ''_ingredients.txt'', ''_steps.txt''}" for slug sfx
    using text_path_longer [of slug sfx out] that by auto
  ultimately show ?thesis by (auto simp: output_files_def)
qed

lemma text_dirs_not_output:
  "q \<in> set (dir_prefixes (path_join out ''text'')) \<or> q = path_join out ''text'' \<Longrightarrow> q \<notin> output_files out"
  using output_files_longer [of q out] dir_prefixes_shorter [of q "path_join out ''text''"] by auto

lemma text_paths_output:
  "text_path out (slugify n) ''_photos.txt'' \<in> output_files out"
  "text_path out (slugify n) ''_ingredients.txt'' \<in> output_files out"
  "text_path out (slugify n) ''_steps.txt'' \<in> output_files out"
  using is_slug_slugify [of n] by (auto simp: output_files_def)

lemma csv_output: "path_join out ''recipes.csv'' \<in> output_files out"
  by (simp add: output_files_def)

lemma export_recipe_None:
  "export_recipe out csv_path d w = (w', None) \<Longrightarrow> w' = export_writes out csv_path d w"
  by (auto simp: export_recipe_def export_writes_def then_fs_def Let_def makedirs_Inr open_write_Inr
      split: sum.splits)

lemma export_recipe_ok:
  "export_ok out w \<Longrightarrow> export_recipe out csv_path d w = (export_writes out csv_path d w, None)"
proof -
  assume ok: "export_ok out w"
  let ?td = "path_join out ''text''"
  have td: "?td \<noteq> []" using length_path_join [of "''text''" out] by auto
  have mk: "makedirs ?td w = Inr (mkdirs_state ?td w)"
    using ok td by (simp add: makedirs_Inr export_ok_def list_all_iff)
  have "p \<notin> fs_dirs (mkdirs_state ?td w)" if "p \<in> output_files out" for p
    using that ok text_dirs_not_output [of p out] by (auto simp: export_ok_def)
  with text_paths_output [of out "r_name d"] mk show ?thesis
    by (simp add: export_recipe_def export_writes_def Let_def open_write_def)
qed

lemma fs_out_export_writes [simp]: "fs_out (export_writes out csv_path d w) = fs_out w"
  by (simp add: export_writes_def Let_def)

lemma fs_dirs_export_writes:
  "fs_dirs (export_writes out csv_path d w) = fs_dirs (mkdirs_state (path_join out ''text'') w)"
  by (simp add: export_writes_def Let_def)

lemma export_writes_frame:
  "fs_files (export_writes out (path_join out ''recipes.csv'') d w) p \<noteq> fs_files w p \<Longrightarrow>
     p \<in> output_files out"
  using text_paths_output [of out "r_name d"] csv_output [of out]
  by (auto simp: export_writes_def Let_def append_file_def split: if_splits)

lemma export_ok_writes:
  "export_ok out w \<Longrightarrow> export_ok out (export_writes out (path_join out ''recipes.csv'') d w)"
proof -
  assume ok: "export_ok out w"
  have "fs_files (export_writes out (path_join out ''recipes.csv'') d w) q = fs_files w q"
    if "q \<in> set (dir_prefixes (path_join out ''text'')) \<or> q = path_join out ''text''" for q
    using that text_dirs_not_output [of q out] export_writes_frame [of out d w q] by blast
  moreover have "p \<notin> fs_dirs (export_writes out (path_join out ''recipes.csv'') d w)"
    if "p \<in> output_files out" for p
    using that ok text_dirs_not_output [of p out] by (auto simp: export_ok_def fs_dirs_export_writes)
  ultimately show ?thesis using ok by (auto simp: export_ok_def list_all_iff)
qed

lemma export_recipe_Some:
  "export_recipe out csv_path d w = (w', Some e) \<Longrightarrow>
     (\<exists>m. e = OSError m) \<and> fs_out w' = fs_out w
     \<and> (\<forall>p. fs_files w' p \<noteq> fs_files w p \<longrightarrow>
           p = text_path out (slugify (r_name d)) ''_photos.txt''
         \<or> p = text_path out (slugify (r_name d)) ''_ingredients.txt'')"
  by (auto simp: export_recipe_def then_fs_def Let_def makedirs_Inr open_write_Inr
      split: sum.splits if_splits dest: makedirs_Inl open_write_Inl)

lemma export_writes_photos:
  "path_join out ''recipes.csv'' \<noteq> text_path out (slugify (r_name d)) ''_photos.txt'' \<Longrightarrow>
     fs_files (export_writes out (path_join out ''recipes.csv'') d w)
       (text_path out (slugify (r_name d)) ''_photos.txt'') = Some (lines_text (r_photos d))"
proof -
  assume csv: "path_join out ''recipes.csv'' \<noteq> text_path out (slugify (r_name d)) ''_photos.txt''"
  have "text_path out (slugify (r_name d)) ''_photos.txt'' \<noteq> text_path out (slugify (r_name d)) ''_ingredients.txt''"
    "text_path out (slugify (r_name d)) ''_photos.txt'' \<noteq> text_path out (slugify (r_name d)) ''_steps.txt''"
    by (rule text_path_distinct; simp add: suffix_def)+
  with csv show ?thesis by (simp add: export_writes_def Let_def)
qed

lemma export_writes_csv:
  assumes "fs_files w (path_join out' ''recipes.csv'') = Some t"
  shows "fs_files (export_writes out (path_join out' ''recipes.csv'') d w) (path_join out' ''recipes.csv'')
           = Some (t @ csv_writerow (recipe_row d))"
proof -
  have "path_join out' ''recipes.csv'' \<noteq> text_path out slug ''_photos.txt''"
    "path_join out' ''recipes.csv'' \<noteq> text_path out slug ''_ingredients.txt''"
    "path_join out' ''recipes.csv'' \<noteq> text_path out slug ''_steps.txt''" for slug
    by (rule csv_not_text_path; simp)+
  with assms show ?thesis by (simp add: export_writes_def Let_def)
qed

lemma export_recipe_frame:
  "fs_files (fst (export_recipe out (path_join out ''recipes.csv'') d w)) p \<noteq> fs_files w p \<Longrightarrow>
     p \<in> output_files out"
proof -
  assume ch: "fs_files (fst (export_recipe out (path_join out ''recipes.csv'') d w)) p \<noteq> fs_files w p"
  obtain w' r where ex: "export_recipe out (path_join out ''recipes.csv'') d w = (w', r)" by fastforce
  show ?thesis
  proof (cases r)
    case None
    with ex ch show ?thesis by (auto dest: export_recipe_None export_writes_frame)
  next
    case (Some e)
    with ex ch text_paths_output [of out "r_name d"] show ?thesis by (auto dest: export_recipe_Some)
  qed
qed

lemma prepare_recipe_None: "prepare_recipe None d = Inr (d\<lparr>r_ingredients := normalize_ingredients (r_ingredients d)\<rparr>)"
  by (simp add: prepare_recipe_def)

lemma translate_Inl: "translate s tr = Inl e \<Longrightarrow> \<exists>t s'. tr = Some t \<and> t s' = Inl e"
  by (auto simp: translate_def split: if_splits option.splits)

lemma translate_list_Inl: "translate_list tr xs = Inl e \<Longrightarrow> \<exists>t s'. tr = Some t \<and> t s' = Inl e"
  by (induction xs) (auto simp: bind_result_eq_Inl dest: translate_Inl)

lemma translate_recipe_Inl:
  "translate_recipe tr d = Inl e \<Longrightarrow> \<exists>t s. tr = Some t \<and> t s = Inl e"
  unfolding translate_recipe_def bind_result_eq_Inl
  by (elim disjE exE conjE; blast dest: translate_Inl translate_list_Inl)

lemma prepare_recipe_Inl:
  "prepare_recipe tr d = Inl e \<Longrightarrow> \<exists>t s. tr = Some t \<and> t s = Inl e"
  by (auto simp: prepare_recipe_def Let_def split: if_splits dest: translate_recipe_Inl)

lemma export_ok_print_ev [simp]: "export_ok out (print_ev e w) = export_ok out w"
  by (simp add: export_ok_def print_ev_def)

subsection \<open>Loop lemmas\<close>

lemma process_link_None:
  "process_link net tr out csv_path u w = (w', None) \<Longrightarrow>
     (\<exists>exc. parse_recipe net u = Inl exc \<and> w' = print_ev (ParseFailed u exc) w)
     \<or> (\<exists>d d'. parse_recipe net u = Inr d \<and> prepare_recipe tr d = Inr d'
          \<and> w' = export_writes out csv_path d' w)"
  by (auto simp: process_link_def split: sum.splits dest: export_recipe_None)

lemma process_link_export_ok:
  "process_link net tr out (path_join out ''recipes.csv'') u w = (w', None) \<Longrightarrow> export_ok out w \<Longrightarrow>
     export_ok out w'"
  by (auto dest!: process_link_None intro: export_ok_writes)

lemma scrape_loop_csv:
  "fs_files w (path_join out ''recipes.csv'') = Some t \<Longrightarrow>
     scrape_loop net tr out (path_join out ''recipes.csv'') links w = (w', None) \<Longrightarrow>
     fs_files w' (path_join out ''recipes.csv'')
       = Some (t @ concat (map csv_writerow (exported_rows net tr links)))"
proof (induction links arbitrary: w t)
  case Nil
  then show ?case by (simp add: exported_rows_def)
next
  case (Cons u us)
  obtain w1 where p: "process_link net tr out (path_join out ''recipes.csv'') u w = (w1, None)"
    and rest: "scrape_loop net tr out (path_join out ''recipes.csv'') us w1 = (w', None)"
    using Cons.prems(2) by (auto split: prod.splits option.splits)
  from process_link_None [OF p] show ?case
  proof (elim disjE exE conjE)
    fix exc assume "parse_recipe net u = Inl exc" "w1 = print_ev (ParseFailed u exc) w"
    with Cons.IH [OF _ rest] Cons.prems(1) show ?thesis by (simp add: exported_rows_def)
  next
    fix d d' assume "parse_recipe net u = Inr d" "prepare_recipe tr d = Inr d'"
      "w1 = export_writes out (path_join out ''recipes.csv'') d' w"
    with Cons.IH [OF _ rest] export_writes_csv [OF Cons.prems(1)] show ?thesis
      by (simp add: exported_rows_def)
  qed
qed

lemma scrape_loop_log:
  "scrape_loop net tr out csv_path links w = (w', None) \<Longrightarrow>
     fs_out w' = fs_out w @ parse_failures net links"
proof (induction links arbitrary: w)
  case Nil
  then show ?case by (simp add: parse_failures_def)
next
  case (Cons u us)
  then obtain w1 where p: "process_link net tr out csv_path u w = (w1, None)"
    and rest: "scrape_loop net tr out csv_path us w1 = (w', None)"
    by (auto split: prod.splits option.splits)
  from process_link_None [OF p] Cons.IH [OF rest] show ?case
    by (auto simp: parse_failures_def)
qed

lemma scrape_loop_error:
  "scrape_loop net tr out (path_join out ''recipes.csv'') links w = (w', Some e) \<Longrightarrow>
     (\<exists>u d. parse_recipe net u = Inr d \<and> prepare_recipe tr d = Inl e)
     \<or> ((\<exists>m. e = OSError m) \<and> \<not> export_ok out w)"
proof (induction links arbitrary: w)
  case (Cons u us)
  obtain w1 r where p: "process_link net tr out (path_join out ''recipes.csv'') u w = (w1, r)" by fastforce
  show ?case
  proof (cases r)
    case None
    with Cons.prems p have "scrape_loop net tr out (path_join out ''recipes.csv'') us w1 = (w', Some e)" by simp
    with Cons.IH p None show ?thesis by (blast dest: process_link_export_ok)
  next
    case (Some e')
    with Cons.prems p have e: "e' = e" by simp
    show ?thesis
    proof (cases "parse_recipe net u")
      case (Inl exc)
      with p Some show ?thesis by (simp add: process_link_def)
    next
      case (Inr d)
      show ?thesis
      proof (cases "prepare_recipe tr d")
        case (Inl err)
        with p Some Inr e show ?thesis by (auto simp: process_link_def)
      next
        case (Inr d')
        with p Some \<open>parse_recipe net u = Inr d\<close>
        have ex: "export_recipe out (path_join out ''recipes.csv'') d' w = (w1, Some e')"
          by (simp add: process_link_def)
        then have "\<not> export_ok out w" by (auto simp: export_recipe_ok)
        with export_recipe_Some [OF ex] e show ?thesis by blast
      qed
    qed
  qed
qed simp

lemma scrape_loop_no_translator:
  "export_ok out w \<Longrightarrow> \<exists>w'. scrape_loop net None out (path_join out ''recipes.csv'') links w = (w', None)"
proof (induction links arbitrary: w)
  case (Cons u us)
  show ?case
  proof (cases "parse_recipe net u")
    case (Inl exc)
    with Cons show ?thesis by (simp add: process_link_def)
  next
    case (Inr d)
    with Cons.prems have "process_link net None out (path_join out ''recipes.csv'') u w =
        (export_writes out (path_join out ''recipes.csv'') (d\<lparr>r_ingredients := normalize_ingredients (r_ingredients d)\<rparr>) w, None)"
      by (simp add: process_link_def prepare_recipe_None export_recipe_ok)
    with Cons.IH [OF export_ok_writes [OF Cons.prems]] show ?thesis by simp
  qed
qed simp

lemma select_translator_Some: "select_translator env = Some t \<Longrightarrow> t = env_translate env"
  by (auto simp: select_translator_def split: option.splits if_splits)

lemma exported_rows_not_Nil: "list_all (\<lambda>r. r \<noteq> []) (exported_rows net tr links)"
  by (auto simp: exported_rows_def list_all_iff recipe_row_def split: sum.splits)

subsection \<open>The run\<close>

lemma scrape_main_cases:
  "scrape_main env start out w =
     (case makedirs out w of
        Inl e \<Rightarrow> (w, Some e)
      | Inr w1 \<Rightarrow>
          (case extract_recipe_links (env_net env) start of
             Inl e \<Rightarrow> (w1, Some e)
           | Inr links \<Rightarrow>
               (case open_write (path_join out ''recipes.csv'') (csv_writerow csv_header) w1 of
                  Inl e \<Rightarrow> (w1, Some e)
                | Inr w2 \<Rightarrow>
                    (case scrape_loop (env_net env) (select_translator env) out (path_join out ''recipes.csv'') links w2 of
                       (w3, None) \<Rightarrow> (print_ev (SavedRecipes (path_join out ''recipes.csv'')) w3, None)
                     | (w3, Some e) \<Rightarrow> (w3, Some e)))))"
  by (simp add: scrape_main_def then_fs_def Let_def split: sum.split)

lemma scrape_main_Some_cases:
  assumes "scrape_main env start out w = (w', Some e)"
  obtains (mkdir) "makedirs out w = Inl e" "w' = w"
    | (links) w1 where "makedirs out w = Inr w1" "extract_recipe_links (env_net env) start = Inl e" "w' = w1"
    | (csv) w1 links where "makedirs out w = Inr w1" "extract_recipe_links (env_net env) start = Inr links"
        "open_write (path_join out ''recipes.csv'') (csv_writerow csv_header) w1 = Inl e" "w' = w1"
    | (loop) w1 links w2 where "makedirs out w = Inr w1" "extract_recipe_links (env_net env) start = Inr links"
        "open_write (path_join out ''recipes.csv'') (csv_writerow csv_header) w1 = Inr w2"
        "scrape_loop (env_net env) (select_translator env) out (path_join out ''recipes.csv'') links w2 = (w', Some e)"
  using assms unfolding scrape_main_cases
  by (auto split: sum.splits prod.splits option.splits)

lemma scrape_main_None:
  assumes "scrape_main env start out w = (w', None)"
  obtains w1 links w2 w3 where "makedirs out w = Inr w1" "extract_recipe_links (env_net env) start = Inr links"
    "open_write (path_join out ''recipes.csv'') (csv_writerow csv_header) w1 = Inr w2"
    "scrape_loop (env_net env) (select_translator env) out (path_join out ''recipes.csv'') links w2 = (w3, None)"
    "w' = print_ev (SavedRecipes (path_join out ''recipes.csv'')) w3"
  using assms unfolding scrape_main_cases
  by (auto split: sum.splits prod.splits option.splits)

lemma csv_longer_than_out: "length out < length (path_join out ''recipes.csv'')"
  using length_path_join [of "''recipes.csv''" out] by simp

lemma output_files_not_out_dirs:
  "p \<in> output_files out \<Longrightarrow> p \<notin> set (dir_prefixes out) \<and> p \<noteq> out"
proof -
  assume "p \<in> output_files out"
  then have "length (path_join out ''text'') < length p" by (rule output_files_longer)
  moreover have "length out < length (path_join out ''text'')"
    using length_path_join [of "''text''" out] by simp
  ultimately show ?thesis using dir_prefixes_shorter [of p out] by auto
qed

lemma scrape_ok_makedirs: "scrape_ok out w \<Longrightarrow> makedirs out w = Inr (mkdirs_state out w)"
  by (simp add: scrape_ok_def makedirs_Inr list_all_iff)

lemma scrape_ok_csv:
  assumes ok: "scrape_ok out w"
  shows "open_write (path_join out ''recipes.csv'') s (mkdirs_state out w)
           = Inr (write_file (path_join out ''recipes.csv'') s (mkdirs_state out w))"
    and "export_ok out (write_file (path_join out ''recipes.csv'') s (mkdirs_state out w))"
proof -
  from ok have e: "export_ok out w" by (simp add: scrape_ok_def)
  have nd: "p \<notin> fs_dirs (mkdirs_state out w)" if "p \<in> output_files out" for p
    using that e output_files_not_out_dirs [OF that] by (auto simp: export_ok_def)
  then show "open_write (path_join out ''recipes.csv'') s (mkdirs_state out w)
      = Inr (write_file (path_join out ''recipes.csv'') s (mkdirs_state out w))"
    by (simp add: open_write_def csv_output)
  have "path_join out ''recipes.csv'' \<notin> set (path_join out ''text'' # dir_prefixes (path_join out ''text''))"
    using text_dirs_not_output [of "path_join out ''recipes.csv''" out] csv_output [of out] by auto
  with e nd show "export_ok out (write_file (path_join out ''recipes.csv'') s (mkdirs_state out w))"
    by (auto simp: export_ok_def list_all_iff)
qed

lemma scrape_main_csv_Some:
  "makedirs out w = Inr w1 \<Longrightarrow> open_write (path_join out ''recipes.csv'') (csv_writerow csv_header) w1 = Inr w2 \<Longrightarrow>
     fs_files w2 (path_join out ''recipes.csv'') = Some (csv_writerow csv_header)"
  by (simp add: open_write_Inr)

lemma export_recipe_stages:
  "fst (export_recipe out csv_path d w) =
     (case makedirs (path_join out ''text'') w of
        Inl _ \<Rightarrow> w
      | Inr w1 \<Rightarrow>
          (let slug = slugify (r_name d);
               w2 = write_file (text_path out slug ''_photos.txt'') (lines_text (r_photos d)) w1;
               w3 = write_file (text_path out slug ''_ingredients.txt'') (lines_text (r_ingredients d)) w2
           in if text_path out slug ''_photos.txt'' \<in> fs_dirs w1 then w1
              else if text_path out slug ''_ingredients.txt'' \<in> fs_dirs w1 then w2
              else if text_path out slug ''_steps.txt'' \<in> fs_dirs w1 then w3
              else append_file csv_path (csv_writerow (recipe_row d))
                     (write_file (text_path out slug ''_steps.txt'') (lines_text (r_steps d)) w3)))"
  by (simp add: export_recipe_def then_fs_def open_write_def Let_def split: sum.split)

lemma export_recipe_dirs:
  "makedirs (path_join out ''text'') w = Inr w1 \<Longrightarrow> fs_dirs (fst (export_recipe out csv_path d w)) = fs_dirs w1"
  by (simp add: export_recipe_stages Let_def)

lemma export_recipe_makedirs_again:
  assumes mk: "makedirs (path_join out ''text'') w = Inr w1"
  shows "makedirs (path_join out ''text'') (fst (export_recipe out (path_join out ''recipes.csv'') d w))
           = Inr (fst (export_recipe out (path_join out ''recipes.csv'') d w))"
proof -
  let ?w' = "fst (export_recipe out (path_join out ''recipes.csv'') d w)"
  have same: "fs_files ?w' q = fs_files w q"
    if "q \<in> set (dir_prefixes (path_join out ''text'')) \<or> q = path_join out ''text''" for q
    using export_recipe_frame [of out d w q] text_dirs_not_output [OF that] by blast
  have "fs_dirs ?w' = fs_dirs w1" by (rule export_recipe_dirs [OF mk])
  then have "mkdirs_state (path_join out ''text'') ?w' = ?w'"
    using mk by (auto simp: makedirs_Inr mkdirs_state_def)
  with mk same show ?thesis by (auto simp: makedirs_Inr)
qed

text \<open>
  C4: a run that ends normally leaves in \<open>recipes.csv\<close> the header and one
  row per link whose page parsed and whose fields translated, in link order,
  and the file reads back as exactly these rows (the CSV round trip).
\<close>

theorem scrape_main_csv:
  "scrape_main env start out w = (w', None) \<Longrightarrow>
     \<exists>links. extract_recipe_links (env_net env) start = Inr links
       \<and> fs_files w' (path_join out ''recipes.csv'')
           = Some (concat (map csv_writerow (csv_header # exported_rows (env_net env) (select_translator env) links)))
       \<and> csv_read_rows (concat (map csv_writerow (csv_header # exported_rows (env_net env) (select_translator env) links)))
           = Some (csv_header # exported_rows (env_net env) (select_translator env) links)"
proof -
  assume ok: "scrape_main env start out w = (w', None)"
  then obtain w1 links w2 w3 where mk: "makedirs out w = Inr w1"
    and l: "extract_recipe_links (env_net env) start = Inr links"
    and op: "open_write (path_join out ''recipes.csv'') (csv_writerow csv_header) w1 = Inr w2"
    and loop: "scrape_loop (env_net env) (select_translator env) out (path_join out ''recipes.csv'') links w2 = (w3, None)"
    and w': "w' = print_ev (SavedRecipes (path_join out ''recipes.csv'')) w3"
    by (rule scrape_main_None)
  have "list_all (\<lambda>r. r \<noteq> []) (csv_header # exported_rows (env_net env) (select_translator env) links)"
    using exported_rows_not_Nil by (simp add: csv_header_def)
  then have "csv_read_rows (concat (map csv_writerow (csv_header # exported_rows (env_net env) (select_translator env) links)))
      = Some (csv_header # exported_rows (env_net env) (select_translator env) links)"
    by (rule csv_roundtrip)
  with scrape_loop_csv [OF scrape_main_csv_Some [OF mk op] loop] l w' show ?thesis by simp
qed

text \<open>
  C14: a run that ends normally prints one failure line for each link whose
  fetch or parse failed, in link order, and then the line naming the CSV file:
  parse failures are skipped, never fatal.
\<close>

theorem scrape_main_log:
  "scrape_main env start out w = (w', None) \<Longrightarrow>
     \<exists>links. extract_recipe_links (env_net env) start = Inr links
       \<and> fs_out w' = fs_out w @ parse_failures (env_net env) links @ [SavedRecipes (path_join out ''recipes.csv'')]"
proof -
  assume "scrape_main env start out w = (w', None)"
  then obtain w1 links w2 w3 where mk: "makedirs out w = Inr w1"
    and l: "extract_recipe_links (env_net env) start = Inr links"
    and op: "open_write (path_join out ''recipes.csv'') (csv_writerow csv_header) w1 = Inr w2"
    and loop: "scrape_loop (env_net env) (select_translator env) out (path_join out ''recipes.csv'') links w2 = (w3, None)"
    and w': "w' = print_ev (SavedRecipes (path_join out ''recipes.csv'')) w3"
    by (rule scrape_main_None)
  from mk op have "fs_out w2 = fs_out w" by (simp add: makedirs_Inr open_write_Inr)
  with scrape_loop_log [OF loop] l w' show ?thesis by simp
qed

text \<open>
  C5: an exception escapes \<open>main\<close> only from fetching the start page, from
  the translation service (and then only when a translator is configured), or
  as an \<open>OSError\<close> of a file system that already conflicts with the outputs
  (\<open>scrape_ok\<close> fails); a page that fails to parse never ends the run.
\<close>

theorem scrape_main_errors:
  "scrape_main env start out w = (w', Some e) \<Longrightarrow>
     extract_recipe_links (env_net env) start = Inl e
     \<or> (select_translator env = Some (env_translate env) \<and> (\<exists>s. env_translate env s = Inl e))
     \<or> ((\<exists>m. e = OSError m) \<and> \<not> scrape_ok out w)"
proof -
  assume run: "scrape_main env start out w = (w', Some e)"
  show ?thesis
    using run
  proof (cases rule: scrape_main_Some_cases)
    case mkdir
    then show ?thesis using scrape_ok_makedirs [of out w] by (auto dest: makedirs_Inl)
  next
    case (links w1)
    then show ?thesis by simp
  next
    case (csv w1 links)
    then have "\<not> scrape_ok out w"
      using scrape_ok_makedirs [of out w] scrape_ok_csv(1) [of out w "csv_writerow csv_header"] by auto
    with csv show ?thesis by (auto dest: open_write_Inl)
  next
    case (loop w1 links w2)
    from scrape_loop_error [OF loop(4)] show ?thesis
    proof (elim disjE exE conjE)
      fix u d assume "prepare_recipe (select_translator env) d = Inl e"
      then show ?thesis by (auto dest!: prepare_recipe_Inl dest: select_translator_Some)
    next
      fix m assume "e = OSError m" "\<not> export_ok out w2"
      moreover have "scrape_ok out w \<Longrightarrow> export_ok out w2"
        using loop(1,3) scrape_ok_makedirs [of out w] scrape_ok_csv [of out w "csv_writerow csv_header"] by simp
      ultimately show ?thesis by blast
    qed
  qed
qed

text \<open>
  C15: without a translator (no key, an empty key, or no \<open>deepl\<close> module) a
  run whose start page was fetched, on a file system that does not conflict
  with the outputs, always ends normally, and every exported row holds the
  parsed fields unchanged except the normalised ingredients.
\<close>

theorem scrape_main_no_translator:
  "select_translator env = None \<Longrightarrow> extract_recipe_links (env_net env) start = Inr links \<Longrightarrow> scrape_ok out w \<Longrightarrow>
     \<exists>w'. scrape_main env start out w = (w', None)
       \<and> fs_files w' (path_join out ''recipes.csv'')
           = Some (concat (map csv_writerow (csv_header #
               concat (map (\<lambda>u. case parse_recipe (env_net env) u of
                                  Inl _ \<Rightarrow> []
                                | Inr d \<Rightarrow> [recipe_row (d\<lparr>r_ingredients := normalize_ingredients (r_ingredients d)\<rparr>)])
                         links))))"
proof -
  assume tr: "select_translator env = None" and l: "extract_recipe_links (env_net env) start = Inr links"
    and ok: "scrape_ok out w"
  let ?w2 = "write_file (path_join out ''recipes.csv'') (csv_writerow csv_header) (mkdirs_state out w)"
  note st = scrape_ok_makedirs [OF ok] scrape_ok_csv [OF ok, of "csv_writerow csv_header"]
  obtain w3 where loop: "scrape_loop (env_net env) None out (path_join out ''recipes.csv'') links ?w2 = (w3, None)"
    using scrape_loop_no_translator [OF st(3)] by blast
  have "exported_rows (env_net env) None links =
      concat (map (\<lambda>u. case parse_recipe (env_net env) u of
                         Inl _ \<Rightarrow> []
                       | Inr d \<Rightarrow> [recipe_row (d\<lparr>r_ingredients := normalize_ingredients (r_ingredients d)\<rparr>)])
                links)"
    unfolding exported_rows_def prepare_recipe_None by (rule arg_cong [where f = concat]) (auto split: sum.splits)
  moreover have "scrape_main env start out w = (print_ev (SavedRecipes (path_join out ''recipes.csv'')) w3, None)"
    using st l tr loop by (simp add: scrape_main_cases)
  ultimately show ?thesis
    using scrape_loop_csv [OF _ loop] by simp
qed


text \<open>
  C20: two recipes whose names give the same slug write the same three text
  files: after both exports every file other than the CSV is as if only the
  second recipe had been exported (section 9 of the spec), also when an
  export stops at an \<open>OSError\<close>.
\<close>

theorem export_recipe_clobbers:
  "slugify (r_name d1) = slugify (r_name d2) \<Longrightarrow> p \<noteq> path_join out ''recipes.csv'' \<Longrightarrow>
     fs_files (fst (export_recipe out (path_join out ''recipes.csv'') d2
                     (fst (export_recipe out (path_join out ''recipes.csv'') d1 w)))) p
       = fs_files (fst (export_recipe out (path_join out ''recipes.csv'') d2 w)) p"
proof (cases "makedirs (path_join out ''text'') w")
  case (Inl e)
  then show ?thesis by (simp add: export_recipe_stages)
next
  case (Inr w1)
  assume slug: "slugify (r_name d1) = slugify (r_name d2)" and p: "p \<noteq> path_join out ''recipes.csv''"
  define w' where "w' = fst (export_recipe out (path_join out ''recipes.csv'') d1 w)"
  define P1 where "P1 = text_path out (slugify (r_name d2)) ''_photos.txt''"
  define P2 where "P2 = text_path out (slugify (r_name d2)) ''_ingredients.txt''"
  define P3 where "P3 = text_path out (slugify (r_name d2)) ''_steps.txt''"
  have d: "fs_dirs w' = fs_dirs w1" unfolding w'_def by (rule export_recipe_dirs [OF Inr])
  have again: "makedirs (path_join out ''text'') w' = Inr w'"
    unfolding w'_def by (rule export_recipe_makedirs_again [OF Inr])
  have f: "fs_files w' = (if P1 \<in> fs_dirs w1 then fs_files w1
      else if P2 \<in> fs_dirs w1 then (fs_files w1)(P1 \<mapsto> lines_text (r_photos d1))
      else if P3 \<in> fs_dirs w1 then (fs_files w1)(P1 \<mapsto> lines_text (r_photos d1), P2 \<mapsto> lines_text (r_ingredients d1))
      else fs_files (append_file (path_join out ''recipes.csv'') (csv_writerow (recipe_row d1))
             (write_file P3 (lines_text (r_steps d1)) (write_file P2 (lines_text (r_ingredients d1))
               (write_file P1 (lines_text (r_photos d1)) w1)))))"
    unfolding w'_def export_recipe_stages Inr sum.case Let_def slug P1_def P2_def P3_def by simp
  show ?thesis
    unfolding w'_def [symmetric] export_recipe_stages [of out _ d2 w'] export_recipe_stages [of out _ d2 w]
      again Inr sum.case Let_def d P1_def [symmetric] P2_def [symmetric] P3_def [symmetric]
    using p by (simp add: f)
qed


lemma ex_facts:
  "extract_recipe_links example_net ''https://x.test/'' = Inr [''https://x.test/recipe/pie'']"
  "parse_recipe example_net ''https://x.test/recipe/pie'' =
     Inr \<lparr>r_name = ''Apple Pie'', r_type = [], r_ingredients = [''Apples'', ''apples''],
          r_prep_time = [], r_cook_time = [], r_total_time = [], r_steps = [''Bake''],
          r_photos = [''https://x.test/recipe/pie.jpg'']\<rparr>"
  "slugify ''Apple Pie'' = ''apple-pie''"
  "normalize_ingredients [''Apples'', ''apples''] = [''Apples'']"
  by code_simp+

lemma example_run:
  "scrape_main (example_env None) ''https://x.test/'' ''out'' (empty_fs :: scrape_event fs) =
     (\<lparr>fs_files = [''out/recipes.csv'' \<mapsto> concat (map csv_writerow [csv_header, [''Apple Pie'', [], ''Apples'', [], [], []]]),
                   ''out/text/apple-pie_photos.txt'' \<mapsto> ''https://x.test/recipe/pie.jpg'' @ [nl],
                   ''out/text/apple-pie_ingredients.txt'' \<mapsto> ''Apples'' @ [nl],
                   ''out/text/apple-pie_steps.txt'' \<mapsto> ''Bake'' @ [nl]],
       fs_dirs = {''out'', ''out/text''},
       fs_out = [SavedRecipes ''out/recipes.csv'']\<rparr>, None)"
  by (simp add: scrape_main_def ex_facts example_env_def select_translator_def process_link_def
      prepare_recipe_def export_recipe_def text_path_def path_join_def empty_fs_def then_fs_def
      makedirs_def open_write_def mkdirs_state_def dir_prefixes_def upt_rec
      write_file_def append_file_def print_ev_def lines_text_def recipe_row_def
      fun_upd_twist insert_commute Let_def)

lemma example_run_fails:
  "scrape_main (example_env (Some ''k'')) ''https://x.test/'' ''out'' (empty_fs :: scrape_event fs) =
     (fst (scrape_main (example_env (Some ''k'')) ''https://x.test/'' ''out'' (empty_fs :: scrape_event fs)),
      Some (TranslationError ''quota''))"
proof -
  have "snd (scrape_main (example_env (Some ''k'')) ''https://x.test/'' ''out'' (empty_fs :: scrape_event fs))
      = Some (TranslationError ''quota'')"
    by code_simp
  then show ?thesis by (metis prod.collapse)
qed

text \<open>
  The end-to-end example of the spec (section 8): a start page with one
  recipe link and one other link gives a CSV with the header and exactly one
  row, and exactly three text files, named from the recipe's slug.
\<close>

theorem scrape_main_example:
  "let (w', err) = scrape_main (example_env None) ''https://x.test/'' ''out'' (empty_fs :: scrape_event fs)
   in err = None
      \<and> dom (fs_files w') = {''out/recipes.csv'', ''out/text/apple-pie_photos.txt'',
                             ''out/text/apple-pie_ingredients.txt'', ''out/text/apple-pie_steps.txt''}
      \<and> map_option csv_read_rows (fs_files w' ''out/recipes.csv'')
          = Some (Some [csv_header, [''Apple Pie'', [], ''Apples'', [], [], []]])"
proof -
  have "csv_read_rows (concat (map csv_writerow [csv_header, [''Apple Pie'', [], ''Apples'', [], [], []]]))
      = Some [csv_header, [''Apple Pie'', [], ''Apples'', [], [], []]]"
    by (rule csv_roundtrip) (simp add: csv_header_def)
  then show ?thesis by (simp add: example_run insert_commute)
qed

lemma scrape_ok_example: "scrape_ok ''out'' (empty_fs :: 'ev fs)"
  by (simp add: scrape_ok_def export_ok_def empty_fs_def dir_prefixes_def path_join_def upt_rec)

lemma process_link_frame:
  "fs_files (fst (process_link net tr out (path_join out ''recipes.csv'') u w)) p \<noteq> fs_files w p \<Longrightarrow>
     p \<in> output_files out"
  by (auto simp: process_link_def split: sum.splits dest: export_recipe_frame)

lemma scrape_loop_frame:
  "scrape_loop net tr out (path_join out ''recipes.csv'') links w = (w', e) \<Longrightarrow>
     fs_files w' p \<noteq> fs_files w p \<Longrightarrow> p \<in> output_files out"
proof (induction links arbitrary: w)
  case (Cons u us)
  obtain w1 r where pl: "process_link net tr out (path_join out ''recipes.csv'') u w = (w1, r)" by fastforce
  show ?case
  proof (cases "fs_files w1 p = fs_files w p")
    case True
    show ?thesis
    proof (cases r)
      case None
      with Cons.prems pl have "scrape_loop net tr out (path_join out ''recipes.csv'') us w1 = (w', e)" by simp
      from Cons.IH [OF this] Cons.prems(2) True show ?thesis by simp
    next
      case (Some e')
      with Cons.prems pl True show ?thesis by simp
    qed
  next
    case False
    with process_link_frame [of net tr out u w p] pl show ?thesis by simp
  qed
qed simp

text \<open>
  C31: a run changes no file but \<open>recipes.csv\<close> and files directly in
  \<open>out/text\<close> named by a slug and one of the three suffixes, also when it
  stops at an exception: a page cannot make the scraper write anywhere else,
  since a slug has no slash and no dot.
\<close>

theorem scrape_main_writes_only_outputs:
  "scrape_main env start out w = (w', e) \<Longrightarrow> fs_files w' p \<noteq> fs_files w p \<Longrightarrow> p \<in> output_files out"
proof -
  assume run: "scrape_main env start out w = (w', e)" and ch: "fs_files w' p \<noteq> fs_files w p"
  show ?thesis
  proof (cases e)
    case None
    with run have "scrape_main env start out w = (w', None)" by simp
    then obtain w1 links w2 w3 where mk: "makedirs out w = Inr w1"
      and "extract_recipe_links (env_net env) start = Inr links"
      and op: "open_write (path_join out ''recipes.csv'') (csv_writerow csv_header) w1 = Inr w2"
      and loop: "scrape_loop (env_net env) (select_translator env) out (path_join out ''recipes.csv'') links w2 = (w3, None)"
      and w': "w' = print_ev (SavedRecipes (path_join out ''recipes.csv'')) w3"
      by (rule scrape_main_None)
    from mk op have "fs_files w2 = (fs_files w)(path_join out ''recipes.csv'' \<mapsto> csv_writerow csv_header)"
      by (simp add: makedirs_Inr open_write_Inr)
    with ch w' scrape_loop_frame [OF loop, of p] csv_output [of out] show ?thesis
      by (cases "p = path_join out ''recipes.csv''") auto
  next
    case (Some e')
    with run have "scrape_main env start out w = (w', Some e')" by simp
    then show ?thesis
    proof (cases rule: scrape_main_Some_cases)
      case (loop w1 links w2)
      from loop(1,3) have "fs_files w2 = (fs_files w)(path_join out ''recipes.csv'' \<mapsto> csv_writerow csv_header)"
        by (simp add: makedirs_Inr open_write_Inr)
      with ch scrape_loop_frame [OF loop(4), of p] csv_output [of out] show ?thesis
        by (cases "p = path_join out ''recipes.csv''") auto
    qed (use ch in \<open>auto simp: makedirs_Inr\<close>)
  qed
qed

lemma process_link_abort_csv:
  assumes t: "fs_files w (path_join out ''recipes.csv'') = Some t"
    and pl: "process_link net tr out (path_join out ''recipes.csv'') u w = (w', Some e)"
  shows "fs_files w' (path_join out ''recipes.csv'') = Some t"
proof (cases "parse_recipe net u")
  case (Inl exc)
  with pl show ?thesis by (simp add: process_link_def)
next
  case (Inr d)
  show ?thesis
  proof (cases "prepare_recipe tr d")
    case (Inl e')
    with pl Inr t show ?thesis by (simp add: process_link_def)
  next
    case (Inr d')
    with pl \<open>parse_recipe net u = Inr d\<close>
    have "export_recipe out (path_join out ''recipes.csv'') d' w = (w', Some e)" by (simp add: process_link_def)
    from export_recipe_Some [OF this]
    have "fs_files w' (path_join out ''recipes.csv'') \<noteq> fs_files w (path_join out ''recipes.csv'') \<Longrightarrow>
        path_join out ''recipes.csv'' = text_path out (slugify (r_name d')) ''_photos.txt''
      \<or> path_join out ''recipes.csv'' = text_path out (slugify (r_name d')) ''_ingredients.txt''" by blast
    with csv_not_text_path [where out' = out and out = out and sfx = "''_photos.txt''"]
      csv_not_text_path [where out' = out and out = out and sfx = "''_ingredients.txt''"] t
    show ?thesis by auto
  qed
qed

lemma scrape_loop_abort_csv:
  "fs_files w (path_join out ''recipes.csv'') = Some t \<Longrightarrow>
     scrape_loop net tr out (path_join out ''recipes.csv'') links w = (w', Some e) \<Longrightarrow>
     \<exists>rows. prefix rows (exported_rows net tr links)
       \<and> fs_files w' (path_join out ''recipes.csv'') = Some (t @ concat (map csv_writerow rows))"
proof (induction links arbitrary: w t)
  case (Cons u us)
  obtain w1 r where pl: "process_link net tr out (path_join out ''recipes.csv'') u w = (w1, r)" by fastforce
  show ?case
  proof (cases r)
    case (Some e')
    with Cons.prems pl have "w' = w1" "e' = e" by simp_all
    with process_link_abort_csv [OF Cons.prems(1)] pl Some show ?thesis
      by (intro exI [of _ "[]"]) simp
  next
    case None
    with Cons.prems pl have rest: "scrape_loop net tr out (path_join out ''recipes.csv'') us w1 = (w', Some e)" by simp
    from pl None process_link_None consider
        (skip) exc where "parse_recipe net u = Inl exc" "w1 = print_ev (ParseFailed u exc) w"
      | (row) d d' where "parse_recipe net u = Inr d" "prepare_recipe tr d = Inr d'"
          "w1 = export_writes out (path_join out ''recipes.csv'') d' w"
      by blast
    then show ?thesis
    proof cases
      case skip
      with Cons.IH [OF _ rest, of t] Cons.prems(1) show ?thesis by (simp add: exported_rows_def)
    next
      case row
      with export_writes_csv [OF Cons.prems(1)]
      have "fs_files w1 (path_join out ''recipes.csv'') = Some (t @ csv_writerow (recipe_row d'))" by simp
      from Cons.IH [OF this rest] obtain rows where
        "prefix rows (exported_rows net tr us)"
        "fs_files w' (path_join out ''recipes.csv'') =
           Some ((t @ csv_writerow (recipe_row d')) @ concat (map csv_writerow rows))" by blast
      with row show ?thesis
        by (intro exI [of _ "recipe_row d' # rows"]) (simp add: exported_rows_def)
    qed
  qed
qed simp

text \<open>
  C32: a run that gets past opening \<open>recipes.csv\<close> and then ends with an
  exception still leaves a well-formed CSV: the header and the complete rows
  of the links before the failure, a prefix of the rows a run without the
  failure would write; no partial row, also when the failure is an
  \<open>OSError\<close> in the middle of an export.
\<close>

theorem scrape_main_aborted_csv:
  "scrape_main env start out w = (w', Some e) \<Longrightarrow> extract_recipe_links (env_net env) start = Inr links \<Longrightarrow>
     main_opens_csv out w \<Longrightarrow>
     \<exists>rows. prefix rows (exported_rows (env_net env) (select_translator env) links)
       \<and> fs_files w' (path_join out ''recipes.csv'') = Some (concat (map csv_writerow (csv_header # rows)))"
proof -
  assume run: "scrape_main env start out w = (w', Some e)"
    and l: "extract_recipe_links (env_net env) start = Inr links" and opens: "main_opens_csv out w"
  from run show ?thesis
  proof (cases rule: scrape_main_Some_cases)
    case (loop w1 links' w2)
    from loop(1,3) have "fs_files w2 (path_join out ''recipes.csv'') = Some (csv_writerow csv_header)"
      by (simp add: open_write_Inr)
    from scrape_loop_abort_csv [OF this loop(4)] loop(2) l show ?thesis by simp
  qed (use l opens in \<open>auto simp: main_opens_csv_def open_write_def split: sum.splits\<close>)
qed

lemma translate_list_Inr:
  "translate_list tr xs = Inr ys \<Longrightarrow> list_all2 (\<lambda>x y. translate x tr = Inr y) xs ys"
  by (induction xs arbitrary: ys) (auto simp: bind_result_def split: sum.splits)

text \<open>
  C27: with a translator, the exported ingredients are the normalised lines
  each translated, one for one and in order: normalisation comes before the
  translation and nothing is removed after it, so lines with different keys
  that translate to the same text are all exported and the list can hold
  duplicates.
\<close>

theorem prepare_recipe_translated_ingredients:
  "prepare_recipe (Some t) d = Inr d' \<Longrightarrow>
     list_all2 (\<lambda>i i'. translate i (Some t) = Inr i') (normalize_ingredients (r_ingredients d)) (r_ingredients d')"
  by (auto simp: prepare_recipe_def translate_recipe_def bind_result_def Let_def
      split: sum.splits dest!: translate_list_Inr)

text \<open>Three lines, two keys, one translation.\<close>

theorem prepare_recipe_translation_duplicates:
  "prepare_recipe (Some (\<lambda>s. Inr ''sol''))
     \<lparr>r_name = ''Soup'', r_type = [], r_ingredients = [''Salt'', ''Sel'', ''salt''], r_prep_time = [],
      r_cook_time = [], r_total_time = [], r_steps = [], r_photos = []\<rparr>
   = Inr \<lparr>r_name = ''sol'', r_type = [], r_ingredients = [''sol'', ''sol''], r_prep_time = [],
          r_cook_time = [], r_total_time = [], r_steps = [], r_photos = []\<rparr>"
  by code_simp

theorem prepare_recipe_translated_ingredients_witness:
  "list_all2 (\<lambda>i i'. translate i (Some (\<lambda>s. Inr ''sol'')) = Inr i') (normalize_ingredients [''Salt'', ''Sel'', ''salt''])
     [''sol'', ''sol'']"
proof -
  have "prepare_recipe (Some (\<lambda>s. Inr ''sol''))
     \<lparr>r_name = ''Soup'', r_type = [], r_ingredients = [''Salt'', ''Sel'', ''salt''], r_prep_time = [],
      r_cook_time = [], r_total_time = [], r_steps = [], r_photos = []\<rparr>
   = Inr \<lparr>r_name = ''sol'', r_type = [], r_ingredients = [''sol'', ''sol''], r_prep_time = [],
          r_cook_time = [], r_total_time = [], r_steps = [], r_photos = []\<rparr>"
    by code_simp
  from prepare_recipe_translated_ingredients [OF this] show ?thesis by simp
qed

theorem scrape_main_csv_witness:
  "\<exists>links. extract_recipe_links (env_net (example_env None)) ''https://x.test/'' = Inr links
     \<and> fs_files (fst (scrape_main (example_env None) ''https://x.test/'' ''out'' (empty_fs :: scrape_event fs))) (path_join ''out'' ''recipes.csv'')
         = Some (concat (map csv_writerow (csv_header # exported_rows (env_net (example_env None)) (select_translator (example_env None)) links)))
     \<and> csv_read_rows (concat (map csv_writerow (csv_header # exported_rows (env_net (example_env None)) (select_translator (example_env None)) links)))
         = Some (csv_header # exported_rows (env_net (example_env None)) (select_translator (example_env None)) links)"
  using scrape_main_csv [of "example_env None" "''https://x.test/''" "''out''" "empty_fs :: scrape_event fs"]
  by (simp add: example_run)

theorem scrape_main_log_witness:
  "\<exists>links. extract_recipe_links (env_net (example_env None)) ''https://x.test/'' = Inr links
     \<and> fs_out (fst (scrape_main (example_env None) ''https://x.test/'' ''out'' (empty_fs :: scrape_event fs)))
         = fs_out (empty_fs :: scrape_event fs) @ parse_failures (env_net (example_env None)) links
           @ [SavedRecipes (path_join ''out'' ''recipes.csv'')]"
  using scrape_main_log [of "example_env None" "''https://x.test/''" "''out''" "empty_fs :: scrape_event fs"]
  by (simp add: example_run)

theorem scrape_main_errors_witness:
  "extract_recipe_links (env_net (example_env (Some ''k''))) ''https://x.test/'' = Inl (TranslationError ''quota'')
   \<or> (select_translator (example_env (Some ''k'')) = Some (env_translate (example_env (Some ''k'')))
      \<and> (\<exists>s. env_translate (example_env (Some ''k'')) s = Inl (TranslationError ''quota'')))
   \<or> ((\<exists>m. TranslationError ''quota'' = OSError m) \<and> \<not> scrape_ok ''out'' (empty_fs :: scrape_event fs))"
  by (rule scrape_main_errors [OF example_run_fails])

theorem scrape_main_no_translator_witness:
  "\<exists>w'. scrape_main (example_env None) ''https://x.test/'' ''out'' (empty_fs :: scrape_event fs) = (w', None)
     \<and> fs_files w' (path_join ''out'' ''recipes.csv'')
         = Some (concat (map csv_writerow (csv_header #
             concat (map (\<lambda>u. case parse_recipe (env_net (example_env None)) u of
                                Inl _ \<Rightarrow> []
                              | Inr d \<Rightarrow> [recipe_row (d\<lparr>r_ingredients := normalize_ingredients (r_ingredients d)\<rparr>)])
                       [''https://x.test/recipe/pie'']))))"
proof (rule scrape_main_no_translator)
  show "select_translator (example_env None) = None" by (simp add: select_translator_def example_env_def)
  show "extract_recipe_links (env_net (example_env None)) ''https://x.test/'' = Inr [''https://x.test/recipe/pie'']"
    by (simp add: example_env_def ex_facts)
qed (rule scrape_ok_example)

theorem export_recipe_clobbers_witness:
  "fs_files (fst (export_recipe ''out'' (path_join ''out'' ''recipes.csv'')
       \<lparr>r_name = ''pie'', r_type = [], r_ingredients = [''Flour''], r_prep_time = [], r_cook_time = [],
        r_total_time = [], r_steps = [], r_photos = []\<rparr>
       (fst (export_recipe ''out'' (path_join ''out'' ''recipes.csv'')
          \<lparr>r_name = ''Pie!'', r_type = [], r_ingredients = [''Plums''], r_prep_time = [], r_cook_time = [],
           r_total_time = [], r_steps = [], r_photos = []\<rparr> (empty_fs :: scrape_event fs)))))
       ''out/text/pie_ingredients.txt''
   = fs_files (fst (export_recipe ''out'' (path_join ''out'' ''recipes.csv'')
       \<lparr>r_name = ''pie'', r_type = [], r_ingredients = [''Flour''], r_prep_time = [], r_cook_time = [],
        r_total_time = [], r_steps = [], r_photos = []\<rparr> (empty_fs :: scrape_event fs)))
       ''out/text/pie_ingredients.txt''"
proof (rule export_recipe_clobbers)
  show "slugify (r_name \<lparr>r_name = ''Pie!'', r_type = [], r_ingredients = [''Plums''], r_prep_time = [],
      r_cook_time = [], r_total_time = [], r_steps = [], r_photos = []\<rparr>)
    = slugify (r_name \<lparr>r_name = ''pie'', r_type = [], r_ingredients = [''Flour''], r_prep_time = [],
      r_cook_time = [], r_total_time = [], r_steps = [], r_photos = []\<rparr>)"
    by code_simp
qed (simp add: path_join_def)

theorem scrape_main_writes_only_outputs_witness:
  "''out/text/apple-pie_photos.txt'' \<in> output_files ''out''"
proof (rule scrape_main_writes_only_outputs [OF example_run])
  show "fs_files \<lparr>fs_files = [''out/recipes.csv'' \<mapsto> concat (map csv_writerow [csv_header, [''Apple Pie'', [], ''Apples'', [], [], []]]),
                   ''out/text/apple-pie_photos.txt'' \<mapsto> ''https://x.test/recipe/pie.jpg'' @ [nl],
                   ''out/text/apple-pie_ingredients.txt'' \<mapsto> ''Apples'' @ [nl],
                   ''out/text/apple-pie_steps.txt'' \<mapsto> ''Bake'' @ [nl]],
       fs_dirs = {''out'', ''out/text''},
       fs_out = [SavedRecipes ''out/recipes.csv'']\<rparr> ''out/text/apple-pie_photos.txt''
    \<noteq> fs_files (empty_fs :: scrape_event fs) ''out/text/apple-pie_photos.txt''"
    by (simp add: empty_fs_def)
qed

theorem scrape_main_aborted_csv_witness:
  "\<exists>rows. prefix rows (exported_rows (env_net (example_env (Some ''k''))) (select_translator (example_env (Some ''k'')))
                        [''https://x.test/recipe/pie''])
     \<and> fs_files (fst (scrape_main (example_env (Some ''k'')) ''https://x.test/'' ''out'' (empty_fs :: scrape_event fs)))
         (path_join ''out'' ''recipes.csv'') = Some (concat (map csv_writerow (csv_header # rows)))"
proof (rule scrape_main_aborted_csv [OF example_run_fails])
  show "extract_recipe_links (env_net (example_env (Some ''k''))) ''https://x.test/'' = Inr [''https://x.test/recipe/pie'']"
    by (simp add: example_env_def ex_facts)
  show "main_opens_csv ''out'' (empty_fs :: scrape_event fs)"
    by (simp add: main_opens_csv_def makedirs_def mkdirs_state_def empty_fs_def dir_prefixes_def path_join_def upt_rec)
qed

lemma export_recipe_wf:
  assumes "wf_fs w" "fs_files w csv_path \<noteq> None"
  shows "wf_fs (fst (export_recipe out csv_path d w)) \<and> fs_files (fst (export_recipe out csv_path d w)) csv_path \<noteq> None"
  using assms unfolding export_recipe_def Let_def
  by (intro then_fs_inv [where P = "\<lambda>w. wf_fs w \<and> fs_files w csv_path \<noteq> None"])
    (auto simp: wf_fs_def append_file_def makedirs_Inr open_write_Inr split: option.split)

lemma process_link_wf:
  "wf_fs w \<Longrightarrow> fs_files w csv_path \<noteq> None \<Longrightarrow>
     wf_fs (fst (process_link net tr out csv_path u w)) \<and> fs_files (fst (process_link net tr out csv_path u w)) csv_path \<noteq> None"
  using export_recipe_wf [of w csv_path out] by (auto simp: process_link_def split: sum.split)

lemma scrape_loop_wf:
  "scrape_loop net tr out csv_path links w = (w', e) \<Longrightarrow> wf_fs w \<Longrightarrow> fs_files w csv_path \<noteq> None \<Longrightarrow> wf_fs w'"
proof (induction links arbitrary: w)
  case (Cons u us)
  obtain w1 r where pl: "process_link net tr out csv_path u w = (w1, r)" by fastforce
  with process_link_wf [OF Cons.prems(2,3), of net tr out u] have "wf_fs w1" "fs_files w1 csv_path \<noteq> None" by simp_all
  with Cons.prems(1) Cons.IH pl show ?case by (cases r) simp_all
qed simp

text \<open>
  Directories and files never share a path after a run of the scraper
  that started on such a file system, whether it ends normally or not.
\<close>

theorem scrape_main_wf_fs:
  "wf_fs w \<Longrightarrow> scrape_main env start out w = (w', e) \<Longrightarrow> wf_fs w'"
proof -
  assume wf: "wf_fs w" and run: "scrape_main env start out w = (w', e)"
  show ?thesis
  proof (cases e)
    case None
    with run have "scrape_main env start out w = (w', None)" by simp
    then obtain w1 links w2 w3 where mk: "makedirs out w = Inr w1"
      and "extract_recipe_links (env_net env) start = Inr links"
      and op: "open_write (path_join out ''recipes.csv'') (csv_writerow csv_header) w1 = Inr w2"
      and loop: "scrape_loop (env_net env) (select_translator env) out (path_join out ''recipes.csv'') links w2 = (w3, None)"
      and w': "w' = print_ev (SavedRecipes (path_join out ''recipes.csv'')) w3"
      by (rule scrape_main_None)
    have "wf_fs w2" using wf_fs_open_write [OF op wf_fs_makedirs [OF mk wf]] .
    with op scrape_loop_wf [OF loop] w' show ?thesis by (simp add: open_write_Inr)
  next
    case (Some e')
    with run have "scrape_main env start out w = (w', Some e')" by simp
    then show ?thesis
    proof (cases rule: scrape_main_Some_cases)
      case (loop w1 links w2)
      have "wf_fs w2" using wf_fs_open_write [OF loop(3) wf_fs_makedirs [OF loop(1) wf]] .
      with loop(3) scrape_loop_wf [OF loop(4)] show ?thesis by (simp add: open_write_Inr)
    qed (use wf in \<open>auto intro: wf_fs_makedirs\<close>)
  qed
qed

text \<open>
  C36: \<open>os.makedirs(output_dir, exist_ok=True)\<close> runs before anything else:
  an empty output directory, or one whose path or an ancestor's is a file,
  ends \<open>main\<close> with an \<open>OSError\<close> before the start page is fetched,
  and the file system is unchanged.
\<close>

theorem scrape_main_output_dir_error:
  "out = [] \<or> fs_files w out \<noteq> None \<or> list_ex (\<lambda>q. fs_files w q \<noteq> None) (dir_prefixes out) \<Longrightarrow>
     \<exists>m. scrape_main env start out w = (w, Some (OSError m))"
  unfolding scrape_main_cases by (auto simp: makedirs_def)

theorem scrape_main_output_dir_error_witness:
  "\<exists>m. scrape_main (example_env None) ''https://x.test/'' ''out''
         ((empty_fs :: scrape_event fs)\<lparr>fs_files := [''out'' \<mapsto> []]\<rparr>)
       = ((empty_fs :: scrape_event fs)\<lparr>fs_files := [''out'' \<mapsto> []]\<rparr>, Some (OSError m))"
  by (rule scrape_main_output_dir_error) simp

theorem scrape_main_wf_fs_witness:
  "wf_fs (fst (scrape_main (example_env None) ''https://x.test/'' ''out'' (empty_fs :: scrape_event fs)))"
proof (rule scrape_main_wf_fs [OF _ prod.collapse [symmetric]])
  show "wf_fs (empty_fs :: scrape_event fs)" by (simp add: wf_fs_def empty_fs_def)
qed

end
