(* ===== verification/Download.thy ===== *)
theory Download
  imports Url Fetch Files
begin

text \<open>
  \<open>src/download_images.py\<close>: \<open>download_image\<close> (lines 9--23),
  \<open>download_from_txt\<close> (lines 26--31) and \<open>main\<close> (lines 34--38).  Each
  photo URL is fetched once with \<open>requests.get(url, timeout=10)\<close>: the web
  gives one answer per URL, a transport failure (the timeout included) or a
  status and a body.  A failed fetch is printed and skipped.  The file name is
  the last segment of \<open>urlparse(url).path\<close>, or \<open>"image"\<close>.
  \<open>dest_folder.mkdir(parents=True, exist_ok=True)\<close>, \<open>urlparse\<close> and the
  \<open>open\<close> for writing run outside the \<open>try\<close> block, so their exceptions
  end \<open>download_from_txt\<close> and \<open>main\<close>: the \<open>mkdir\<close> is \<open>makedirs\<close> of
  \<open>str(dest_folder)\<close> and fails where a file stands on the path, the
  \<open>open\<close> fails where a directory has the image's path, and the \<open>open\<close> of
  a photos file fails when it is missing or is a directory.  Each procedure returns the file
  system and the exception that escaped it, if any.
\<close>

datatype dl_event = DownloadFailed url py_error | SavedImage url path

text \<open>\<open>os.path.basename\<close>: what follows the last slash.\<close>

definition basename :: "path \<Rightarrow> string" where
  "basename p = rev (takeWhile (\<lambda>c. c \<noteq> CHR ''/'') (rev p))"

text \<open>
  \<open>str(Path(p))\<close>: empty and \<open>.\<close> components are dropped, a leading slash is
  kept, exactly two leading slashes are kept as two, and nothing becomes
  \<open>.\<close>.
\<close>

definition pathlib_str :: "path \<Rightarrow> path" where
  "pathlib_str p =
     (let comps = filter (\<lambda>c. c \<noteq> [] \<and> c \<noteq> ''.'') (py_split_sep CHR ''/'' p);
          root = (if take 1 p = ''/'' then
                    (if take 2 p = ''//'' \<and> take 3 p \<noteq> ''///'' then ''//'' else ''/'')
                  else [])
      in if root = [] \<and> comps = [] then ''.'' else root @ py_join ''/'' comps)"

text \<open>\<open>Path(d) / name\<close> for a name without slashes.\<close>

definition path_div :: "path \<Rightarrow> string \<Rightarrow> path" where
  "path_div d name =
     (let s = pathlib_str d
      in if s = ''.'' then name else if last s = CHR ''/'' then s @ name else s @ ''/'' @ name)"

text \<open>\<open>requests.get(url, timeout=10)\<close> and \<open>raise_for_status()\<close>: no retries.\<close>

definition get_once :: "string answer \<Rightarrow> string result" where
  "get_once a =
     (case a of TransportFailure \<Rightarrow> Inl ConnectionError
      | Answer st body \<Rightarrow> raise_for_status (Response st body))"

text \<open>
  The name \<open>download_image\<close> gives the file: \<open>.\<close> and \<open>..\<close> name a
  directory, which \<open>open(path, "wb")\<close> refuses.
\<close>

definition image_name :: "url_parts \<Rightarrow> string" where
  "image_name parts = (let n = basename (up_path parts) in if n = [] then ''image'' else n)"

definition download_image ::
  "(url \<Rightarrow> string answer) \<Rightarrow> url \<Rightarrow> path \<Rightarrow> dl_event fs \<Rightarrow> dl_event fs \<times> py_error option" where
  "download_image net url dest =
     then_fs (makedirs (pathlib_str dest)) (\<lambda>w1.
       case urlparse url [] of
         Inl e \<Rightarrow> (w1, Some e)
       | Inr parts \<Rightarrow>
           (let name = image_name parts;
                path = path_div dest name
            in case get_once (net url) of
                 Inl exc \<Rightarrow> (print_ev (DownloadFailed url exc) w1, None)
               | Inr content \<Rightarrow>
                   if name = ''.'' \<or> name = ''..'' then (w1, Some (OSError ''Is a directory''))
                   else (case open_write path content w1 of
                           Inl e \<Rightarrow> (w1, Some e)
                         | Inr w2 \<Rightarrow> (print_ev (SavedImage url path) w2, None))))"

text \<open>The loop of lines 28--31 over the lines of the file.\<close>

fun download_lines ::
  "(url \<Rightarrow> string answer) \<Rightarrow> path \<Rightarrow> string list \<Rightarrow> dl_event fs \<Rightarrow> dl_event fs \<times> py_error option" where
  "download_lines net dest [] w = (w, None)"
| "download_lines net dest (line # lines) w =
     (let url = py_strip line
      in if url = [] then download_lines net dest lines w
         else (case download_image net url dest w of
                 (w', None) \<Rightarrow> download_lines net dest lines w'
               | (w', Some e) \<Rightarrow> (w', Some e)))"

definition download_from_txt ::
  "(url \<Rightarrow> string answer) \<Rightarrow> path \<Rightarrow> path \<Rightarrow> dl_event fs \<Rightarrow> dl_event fs \<times> py_error option" where
  "download_from_txt net txt_path dest w =
     (case fs_files w txt_path of
        None \<Rightarrow> (w, Some (OSError (if txt_path \<in> fs_dirs w then ''Is a directory'' else ''No such file or directory'')))
      | Some content \<Rightarrow> download_lines net dest (read_lines content) w)"

text \<open>
  \<open>txt_dir.glob("*_photos.txt")\<close> over the entries of the directory in the
  order the directory lists them, which the caller gives.
\<close>

fun download_main ::
  "(url \<Rightarrow> string answer) \<Rightarrow> path \<Rightarrow> path \<Rightarrow> string list \<Rightarrow> dl_event fs \<Rightarrow> dl_event fs \<times> py_error option" where
  "download_main net txt_dir dest [] w = (w, None)"
| "download_main net txt_dir dest (name # names) w =
     (if py_endswith name ''_photos.txt'' then
        (case download_from_txt net (path_div txt_dir name) dest w of
           (w', None) \<Rightarrow> download_main net txt_dir dest names w'
         | (w', Some e) \<Rightarrow> (w', Some e))
      else download_main net txt_dir dest names w)"

text \<open>The URLs \<open>download_from_txt\<close> fetches, in order: the stripped non-empty lines.\<close>

definition txt_urls :: "string \<Rightarrow> url list" where
  "txt_urls content = filter (\<lambda>u. u \<noteq> []) (map py_strip (read_lines content))"

text \<open>The URL a printed line is about.\<close>

definition dl_event_url :: "dl_event \<Rightarrow> url" where
  "dl_event_url e = (case e of DownloadFailed u _ \<Rightarrow> u | SavedImage u _ \<Rightarrow> u)"

text \<open>The files the downloader may write: one name, without a slash, in \<open>dest\<close>.\<close>

definition image_files :: "path \<Rightarrow> path set" where
  "image_files dest = {path_div dest n | n. n \<noteq> [] \<and> CHR ''/'' \<notin> set n \<and> n \<noteq> ''.'' \<and> n \<noteq> ''..''}"

subsection \<open>Lemmas\<close>

lemma download_image_cases:
  "download_image net url dest w =
     (case makedirs (pathlib_str dest) w of
        Inl e \<Rightarrow> (w, Some e)
      | Inr w1 \<Rightarrow>
          (case urlparse url [] of
             Inl e \<Rightarrow> (w1, Some e)
           | Inr parts \<Rightarrow>
               (case get_once (net url) of
                  Inl exc \<Rightarrow> (print_ev (DownloadFailed url exc) w1, None)
                | Inr content \<Rightarrow>
                    if image_name parts = ''.'' \<or> image_name parts = ''..'' then (w1, Some (OSError ''Is a directory''))
                    else if path_div dest (image_name parts) \<in> fs_dirs w1 then (w1, Some (OSError ''Is a directory''))
                    else (print_ev (SavedImage url (path_div dest (image_name parts)))
                            (write_file (path_div dest (image_name parts)) content w1), None))))"
  by (simp add: download_image_def then_fs_def open_write_def Let_def split: sum.split)

lemma download_image_out:
  "download_image net url dest w = (w', r) \<Longrightarrow> prefix (fs_out w) (fs_out w')"
  by (auto simp: download_image_cases makedirs_Inr split: sum.splits if_splits)

lemma download_image_None:
  "download_image net url dest w = (w', None) \<Longrightarrow> \<exists>ev. fs_out w' = fs_out w @ [ev] \<and> dl_event_url ev = url"
  by (auto simp: download_image_cases makedirs_Inr dl_event_url_def split: sum.splits if_splits)

lemma download_lines_out:
  "download_lines net dest lines w = (w', r) \<Longrightarrow> prefix (fs_out w) (fs_out w')"
proof (induction lines arbitrary: w)
  case (Cons line lines)
  then show ?case
    by (auto simp: Let_def split: if_splits prod.splits option.splits
        dest!: download_image_out intro: prefix_order.trans)
qed simp

lemma download_lines_events:
  "download_lines net dest lines w = (w', None) \<Longrightarrow>
     map dl_event_url (drop (length (fs_out w)) (fs_out w')) = filter (\<lambda>u. u \<noteq> []) (map py_strip lines)"
proof (induction lines arbitrary: w)
  case Nil
  then show ?case by simp
next
  case (Cons line lines)
  show ?case
  proof (cases "py_strip line = []")
    case True
    with Cons show ?thesis by simp
  next
    case False
    with Cons.prems obtain w1 where img: "download_image net (py_strip line) dest w = (w1, None)"
      and rest: "download_lines net dest lines w1 = (w', None)"
      by (auto simp: Let_def split: prod.splits option.splits)
    from download_image_None [OF img] obtain ev where
      ev: "fs_out w1 = fs_out w @ [ev]" "dl_event_url ev = py_strip line" by blast
    from download_lines_out [OF rest] obtain zs where zs: "fs_out w' = fs_out w1 @ zs"
      by (auto simp: prefix_def)
    from Cons.IH [OF rest] ev zs False show ?thesis by simp
  qed
qed

subsection \<open>Properties\<close>

text \<open>
  C21: reading a photos file, the downloader prints exactly one line (saved or
  failed) for each non-blank line of the file, for the stripped URL on it, in
  file order: no URL is skipped and none is fetched twice.
\<close>

theorem download_from_txt_events:
  "download_from_txt net txt dest w = (w', None) \<Longrightarrow>
     \<exists>content. fs_files w txt = Some content
       \<and> map dl_event_url (drop (length (fs_out w)) (fs_out w')) = txt_urls content"
  by (auto simp: download_from_txt_def txt_urls_def split: option.splits dest: download_lines_events)

theorem download_from_txt_events_witness:
  "\<exists>content. fs_files (empty_fs\<lparr>fs_files := [''t/p_photos.txt'' \<mapsto> '' http://x.test/a.jpg'' @ [nl, nl]]\<rparr> :: dl_event fs) ''t/p_photos.txt'' = Some content
     \<and> map dl_event_url (drop (length (fs_out (empty_fs\<lparr>fs_files := [''t/p_photos.txt'' \<mapsto> '' http://x.test/a.jpg'' @ [nl, nl]]\<rparr> :: dl_event fs)))
         (fs_out (fst (download_from_txt (\<lambda>u. TransportFailure) ''t/p_photos.txt'' ''images''
           (empty_fs\<lparr>fs_files := [''t/p_photos.txt'' \<mapsto> '' http://x.test/a.jpg'' @ [nl, nl]]\<rparr>)))))
       = txt_urls content"
proof -
  have "snd (download_from_txt (\<lambda>u. TransportFailure) ''t/p_photos.txt'' ''images''
      (empty_fs\<lparr>fs_files := [''t/p_photos.txt'' \<mapsto> '' http://x.test/a.jpg'' @ [nl, nl]]\<rparr> :: dl_event fs)) = None"
    by code_simp
  then show ?thesis by (metis prod.collapse download_from_txt_events)
qed

text \<open>
  C22: \<open>urlparse\<close> runs before the \<open>try\<close> block: a line whose URL has an
  unbalanced bracket in its network location ends \<open>download_from_txt\<close>
  with \<open>ValueError\<close> (after the destination directory is created), and no
  later line of the file is downloaded.
\<close>

theorem download_lines_value_error:
  "py_strip line \<noteq> [] \<Longrightarrow> urlparse (py_strip line) [] = Inl e \<Longrightarrow>
     download_lines net dest (line # lines) w =
       (case makedirs (pathlib_str dest) w of Inl e' \<Rightarrow> (w, Some e') | Inr w1 \<Rightarrow> (w1, Some e))"
  by (simp add: download_image_cases split: sum.split)

theorem download_lines_value_error_witness:
  "download_lines (\<lambda>u. Answer 200 ''img'') ''images'' [''http://[x.test/a.jpg'', ''http://x.test/b.jpg''] (empty_fs :: dl_event fs)
     = (case makedirs (pathlib_str ''images'') empty_fs of Inl e' \<Rightarrow> (empty_fs, Some e')
        | Inr w1 \<Rightarrow> (w1, Some (ValueError ''Invalid IPv6 URL'')))"
proof -
  have a: "py_strip ''http://[x.test/a.jpg'' \<noteq> []" by code_simp
  have b: "urlparse (py_strip ''http://[x.test/a.jpg'') [] = Inl (ValueError ''Invalid IPv6 URL'')"
    by code_simp
  show ?thesis by (rule download_lines_value_error [OF a b])
qed

lemma download_image_Some:
  "download_image net url dest w = (w', Some e) \<Longrightarrow> urlparse url [] = Inl e \<or> (\<exists>m. e = OSError m)"
  by (auto simp: download_image_cases split: sum.splits if_splits dest: makedirs_Inl)

lemma download_lines_Some:
  "download_lines net dest lines w = (w', Some e) \<Longrightarrow> (\<exists>u. urlparse u [] = Inl e) \<or> (\<exists>m. e = OSError m)"
proof (induction lines arbitrary: w)
  case (Cons line lines)
  obtain w1 r where img: "download_image net (py_strip line) dest w = (w1, r)" by fastforce
  show ?case
  proof (cases "py_strip line = [] \<or> r = None")
    case True
    with Cons.prems img have "download_lines net dest lines (if py_strip line = [] then w else w1) = (w', Some e)"
      by (auto simp: Let_def)
    then show ?thesis by (rule Cons.IH)
  next
    case False
    with Cons.prems img have "download_image net (py_strip line) dest w = (w', Some e)"
      by (auto simp: Let_def)
    then show ?thesis by (auto dest: download_image_Some)
  qed
qed simp

lemma download_from_txt_Some:
  "download_from_txt net txt dest w = (w', Some e) \<Longrightarrow> (\<exists>u. urlparse u [] = Inl e) \<or> (\<exists>m. e = OSError m)"
  by (auto simp: download_from_txt_def split: option.splits dest: download_lines_Some)

text \<open>
  C23: a failed download (a transport failure, a timeout or an HTTP error
  status) never ends the downloader: an exception escapes \<open>main\<close> only from
  \<open>urlparse\<close> on a URL of a photos file, or as an \<open>OSError\<close> of the file
  system (a photos file or the destination that cannot be opened or created).
\<close>

theorem download_main_errors:
  "download_main net txt_dir dest names w = (w', Some e) \<Longrightarrow>
     (\<exists>u. urlparse u [] = Inl e) \<or> (\<exists>m. e = OSError m)"
proof (induction names arbitrary: w)
  case (Cons name names)
  obtain w1 r where f: "download_from_txt net (path_div txt_dir name) dest w = (w1, r)" by fastforce
  show ?case
  proof (cases "py_endswith name ''_photos.txt'' \<and> r \<noteq> None")
    case True
    with Cons.prems f have "download_from_txt net (path_div txt_dir name) dest w = (w', Some e)" by auto
    then show ?thesis by (rule download_from_txt_Some)
  next
    case False
    with Cons f show ?thesis by (auto split: if_splits)
  qed
qed simp

theorem download_main_errors_witness:
  "(\<exists>u. urlparse u [] = Inl (OSError ''Is a directory'')) \<or> (\<exists>m. OSError ''Is a directory'' = OSError m)"
proof (rule download_main_errors)
  show "download_main (\<lambda>u. Answer 200 ''JPEG'') ''t'' ''images'' [''a_photos.txt'']
      ((empty_fs :: dl_event fs)\<lparr>fs_dirs := {''t/a_photos.txt''}\<rparr>)
    = ((empty_fs :: dl_event fs)\<lparr>fs_dirs := {''t/a_photos.txt''}\<rparr>, Some (OSError ''Is a directory''))"
    by (simp add: download_from_txt_def py_endswith_def path_div_def pathlib_str_def empty_fs_def Let_def
        py_split_sep.simps py_join.simps)
qed

text \<open>
  \<open>main\<close> reads exactly the directory entries whose names end in
  \<open>_photos.txt\<close>, in the order of the listing; every other entry is ignored.
\<close>

theorem download_main_glob:
  "download_main net txt_dir dest names w =
     download_main net txt_dir dest (filter (\<lambda>n. py_endswith n ''_photos.txt'') names) w"
  by (induction names arbitrary: w) (auto split: prod.splits option.splits)

lemma image_name_split:
  assumes "up_path p = pre @ n" "pre = [] \<or> last pre = CHR ''/''" "CHR ''/'' \<notin> set n"
  shows "image_name p = (if n = [] then ''image'' else n)"
proof -
  have "takeWhile (\<lambda>c. c \<noteq> CHR ''/'') (rev pre) = []"
    using assms(2) by (cases pre rule: rev_cases) auto
  moreover have "takeWhile (\<lambda>c. c \<noteq> CHR ''/'') (rev n @ rev pre)
      = rev n @ takeWhile (\<lambda>c. c \<noteq> CHR ''/'') (rev pre)"
    by (rule takeWhile_append2) (use assms(3) in auto)
  ultimately have "basename (pre @ n) = n" by (simp add: basename_def)
  with assms(1) show ?thesis by (simp add: image_name_def)
qed

lemma download_image_None_files:
  "download_image net url dest w = (w', None) \<Longrightarrow> urlparse url [] = Inr p \<Longrightarrow>
     fs_files w' = (case get_once (net url) of
                      Inl _ \<Rightarrow> fs_files w
                    | Inr b \<Rightarrow> (fs_files w)(path_div dest (image_name p) \<mapsto> b))"
  by (auto simp: download_image_cases makedirs_Inr split: sum.splits if_splits)

text \<open>
  C25: for a URL that parses, once the destination directory exists, the
  files after \<open>download_image\<close> are the ones before with, when the fetch
  succeeded and the file can be opened for writing, the body stored under
  \<open>dest/n\<close>, where \<open>n\<close> is what follows the last slash of the URL's path,
  or \<open>dest/image\<close> when that is empty; the name \<open>.\<close> or \<open>..\<close>, a
  directory at that path, or a failed fetch leaves the files as they were.
\<close>

theorem download_image_files:
  "urlparse url [] = Inr parts \<Longrightarrow> makedirs (pathlib_str dest) w = Inr w1 \<Longrightarrow>
   up_path parts = pre @ n \<Longrightarrow> pre = [] \<or> last pre = CHR ''/'' \<Longrightarrow> CHR ''/'' \<notin> set n \<Longrightarrow>
     fs_files (fst (download_image net url dest w)) =
       (case get_once (net url) of
          Inl _ \<Rightarrow> fs_files w
        | Inr body \<Rightarrow>
            (let name = (if n = [] then ''image'' else n)
             in if name = ''.'' \<or> name = ''..'' \<or> path_div dest name \<in> fs_dirs w1 then fs_files w
                else (fs_files w)(path_div dest name \<mapsto> body)))"
proof -
  assume u: "urlparse url [] = Inr parts" and mk: "makedirs (pathlib_str dest) w = Inr w1"
    and p: "up_path parts = pre @ n" "pre = [] \<or> last pre = CHR ''/''" "CHR ''/'' \<notin> set n"
  from mk have "fs_files w1 = fs_files w" by (simp add: makedirs_Inr)
  with u mk image_name_split [OF p] show ?thesis
    by (simp add: download_image_cases Let_def split: sum.split)
qed

theorem download_image_files_witness:
  "fs_files (fst (download_image (\<lambda>u. Answer 200 ''PNG'') ''http://x.test/img/a.png?s=1'' ''images/''
      (empty_fs :: dl_event fs)))
   = (case get_once ((\<lambda>u. Answer 200 ''PNG'') ''http://x.test/img/a.png?s=1'') of
        Inl _ \<Rightarrow> fs_files (empty_fs :: dl_event fs)
      | Inr body \<Rightarrow>
          (let name = (if ''a.png'' = [] then ''image'' else ''a.png'')
           in if name = ''.'' \<or> name = ''..''
                 \<or> path_div ''images/'' name \<in> fs_dirs (mkdirs_state ''images'' (empty_fs :: dl_event fs))
              then fs_files (empty_fs :: dl_event fs)
              else (fs_files (empty_fs :: dl_event fs))(path_div ''images/'' name \<mapsto> body)))"
proof (rule download_image_files)
  show "urlparse ''http://x.test/img/a.png?s=1'' [] =
    Inr \<lparr>up_scheme = ''http'', up_netloc = ''x.test'', up_path = ''/img/a.png'',
         up_params = [], up_query = ''s=1'', up_fragment = []\<rparr>"
    by code_simp
  have "pathlib_str ''images/'' = ''images''" by code_simp
  then show "makedirs (pathlib_str ''images/'') (empty_fs :: dl_event fs) = Inr (mkdirs_state ''images'' empty_fs)"
    by (simp add: makedirs_def dir_prefixes_def upt_rec empty_fs_def)
  show "up_path \<lparr>up_scheme = ''http'', up_netloc = ''x.test'', up_path = ''/img/a.png'',
         up_params = [], up_query = ''s=1'', up_fragment = []\<rparr> = ''/img/'' @ ''a.png''" by simp
qed simp_all

text \<open>
  C26: images are named by the last segment of the URL path alone: two
  photo URLs whose paths end in the same name, whatever their hosts and
  directories, are stored in one file, \<open>dest/name\<close>, the only file the two
  downloads change, which keeps the body downloaded last.
\<close>

theorem download_basename_collision:
  "download_lines net dest [u1, u2] w = (w', None) \<Longrightarrow>
   u1 \<noteq> [] \<Longrightarrow> py_strip u1 = u1 \<Longrightarrow> u2 \<noteq> [] \<Longrightarrow> py_strip u2 = u2 \<Longrightarrow>
   urlparse u1 [] = Inr p1 \<Longrightarrow> up_path p1 = pre1 @ n \<Longrightarrow> pre1 = [] \<or> last pre1 = CHR ''/'' \<Longrightarrow>
   urlparse u2 [] = Inr p2 \<Longrightarrow> up_path p2 = pre2 @ n \<Longrightarrow> pre2 = [] \<or> last pre2 = CHR ''/'' \<Longrightarrow>
   n \<noteq> [] \<Longrightarrow> CHR ''/'' \<notin> set n \<Longrightarrow> get_once (net u2) = Inr b \<Longrightarrow>
     fs_files w' (path_div dest n) = Some b \<and> (\<forall>p. fs_files w' p \<noteq> fs_files w p \<longrightarrow> p = path_div dest n)"
proof -
  assume run: "download_lines net dest [u1, u2] w = (w', None)"
    and s1: "u1 \<noteq> []" "py_strip u1 = u1" and s2: "u2 \<noteq> []" "py_strip u2 = u2"
    and q1: "urlparse u1 [] = Inr p1" "up_path p1 = pre1 @ n" "pre1 = [] \<or> last pre1 = CHR ''/''"
    and q2: "urlparse u2 [] = Inr p2" "up_path p2 = pre2 @ n" "pre2 = [] \<or> last pre2 = CHR ''/''"
    and n: "n \<noteq> []" "CHR ''/'' \<notin> set n" and b: "get_once (net u2) = Inr b"
  from run s1 s2 obtain w1 where d1: "download_image net u1 dest w = (w1, None)"
    and d2: "download_image net u2 dest w1 = (w', None)"
    by (auto simp: Let_def split: prod.splits option.splits)
  have i1: "image_name p1 = n" using image_name_split [OF q1(2,3) n(2)] n(1) by simp
  have i2: "image_name p2 = n" using image_name_split [OF q2(2,3) n(2)] n(1) by simp
  from download_image_None_files [OF d2 q2(1)] b i2
  have f2: "fs_files w' = (fs_files w1)(path_div dest n \<mapsto> b)" by simp
  from download_image_None_files [OF d1 q1(1)] i1
  have "fs_files w1 p = fs_files w p" if "p \<noteq> path_div dest n" for p
    using that by (simp split: sum.splits)
  with f2 show ?thesis by auto
qed

theorem download_basename_collision_witness:
  "fs_files (fst (download_lines (\<lambda>u. if u = ''http://a.test/x/photo.jpg'' then Answer 200 ''A'' else Answer 200 ''B'')
                   ''images'' [''http://a.test/x/photo.jpg'', ''http://b.test/y/photo.jpg''] (empty_fs :: dl_event fs)))
     (path_div ''images'' ''photo.jpg'') = Some ''B''
   \<and> {p. fs_files (fst (download_lines (\<lambda>u. if u = ''http://a.test/x/photo.jpg'' then Answer 200 ''A'' else Answer 200 ''B'')
                   ''images'' [''http://a.test/x/photo.jpg'', ''http://b.test/y/photo.jpg''] (empty_fs :: dl_event fs))) p
          \<noteq> fs_files (empty_fs :: dl_event fs) p} \<subseteq> {path_div ''images'' ''photo.jpg''}"
proof -
  have e: "py_strip ''http://a.test/x/photo.jpg'' = ''http://a.test/x/photo.jpg''"
    "py_strip ''http://b.test/y/photo.jpg'' = ''http://b.test/y/photo.jpg''"
    "urlparse ''http://a.test/x/photo.jpg'' [] = Inr \<lparr>up_scheme = ''http'', up_netloc = ''a.test'', up_path = ''/x/photo.jpg'', up_params = [], up_query = [], up_fragment = []\<rparr>"
    "urlparse ''http://b.test/y/photo.jpg'' [] = Inr \<lparr>up_scheme = ''http'', up_netloc = ''b.test'', up_path = ''/y/photo.jpg'', up_params = [], up_query = [], up_fragment = []\<rparr>"
    "path_div ''images'' ''photo.jpg'' = ''images/photo.jpg''"
    "pathlib_str ''images'' = ''images''"
    "image_name \<lparr>up_scheme = ''http'', up_netloc = ''a.test'', up_path = ''/x/photo.jpg'', up_params = [], up_query = [], up_fragment = []\<rparr> = ''photo.jpg''"
    "image_name \<lparr>up_scheme = ''http'', up_netloc = ''b.test'', up_path = ''/y/photo.jpg'', up_params = [], up_query = [], up_fragment = []\<rparr> = ''photo.jpg''"
    by code_simp+
  then have "snd (download_lines (\<lambda>u. if u = ''http://a.test/x/photo.jpg'' then Answer 200 ''A'' else Answer 200 ''B'') ''images'' [''http://a.test/x/photo.jpg'', ''http://b.test/y/photo.jpg''] (empty_fs :: dl_event fs)) = None"
    by (simp add: download_image_cases get_once_def raise_for_status_def empty_fs_def makedirs_def
        mkdirs_state_def dir_prefixes_def upt_rec write_file_def print_ev_def Let_def)
  then have run: "download_lines (\<lambda>u. if u = ''http://a.test/x/photo.jpg'' then Answer 200 ''A'' else Answer 200 ''B'') ''images'' [''http://a.test/x/photo.jpg'', ''http://b.test/y/photo.jpg''] (empty_fs :: dl_event fs) = (fst (download_lines (\<lambda>u. if u = ''http://a.test/x/photo.jpg'' then Answer 200 ''A'' else Answer 200 ''B'') ''images'' [''http://a.test/x/photo.jpg'', ''http://b.test/y/photo.jpg''] (empty_fs :: dl_event fs)), None)" by (metis prod.collapse)
  have g: "get_once ((\<lambda>u. if u = ''http://a.test/x/photo.jpg'' then Answer 200 ''A'' else Answer 200 ''B'') ''http://b.test/y/photo.jpg'') = Inr ''B''"
    by (simp add: get_once_def raise_for_status_def)
  show ?thesis
    using download_basename_collision [OF run, of "\<lparr>up_scheme = ''http'', up_netloc = ''a.test'', up_path = ''/x/photo.jpg'', up_params = [], up_query = [], up_fragment = []\<rparr>" "''/x/''" "''photo.jpg''" "\<lparr>up_scheme = ''http'', up_netloc = ''b.test'', up_path = ''/y/photo.jpg'', up_params = [], up_query = [], up_fragment = []\<rparr>" "''/y/''" "''B''"] e g
    by auto
qed

subsection \<open>Where the downloader writes\<close>

lemma image_name_shape: "image_name parts \<noteq> [] \<and> CHR ''/'' \<notin> set (image_name parts)"
proof -
  have "CHR ''/'' \<notin> set (basename p)" for p
    by (auto simp: basename_def dest: set_takeWhileD)
  then show ?thesis by (simp add: image_name_def Let_def)
qed

lemma download_image_frame:
  "download_image net url dest w = (w', e) \<Longrightarrow> fs_files w' p \<noteq> fs_files w p \<Longrightarrow> p \<in> image_files dest"
  using image_name_shape
  by (auto simp: download_image_cases makedirs_Inr image_files_def split: sum.splits if_splits)

lemma download_lines_frame:
  "download_lines net dest lines w = (w', e) \<Longrightarrow> fs_files w' p \<noteq> fs_files w p \<Longrightarrow> p \<in> image_files dest"
proof (induction lines arbitrary: w)
  case (Cons line lines)
  show ?case
  proof (cases "py_strip line = []")
    case True
    with Cons show ?thesis by simp
  next
    case False
    obtain w1 e1 where img: "download_image net (py_strip line) dest w = (w1, e1)" by fastforce
    show ?thesis
    proof (cases e1)
      case None
      with Cons.prems False img have rest: "download_lines net dest lines w1 = (w', e)" by simp
      show ?thesis
      proof (cases "fs_files w1 p = fs_files w p")
        case True
        with Cons.IH [OF rest] Cons.prems(2) show ?thesis by simp
      next
        case False
        with img show ?thesis by (rule download_image_frame)
      qed
    next
      case (Some x)
      with Cons.prems False img have "w' = w1" by simp
      with Cons.prems(2) img show ?thesis by (blast intro: download_image_frame)
    qed
  qed
qed simp

lemma download_from_txt_frame:
  "download_from_txt net txt dest w = (w', e) \<Longrightarrow> fs_files w' p \<noteq> fs_files w p \<Longrightarrow> p \<in> image_files dest"
  by (auto simp: download_from_txt_def split: option.splits dest: download_lines_frame)

text \<open>
  C33: the downloader changes no file outside the destination directory: every
  file it writes is \<open>dest/name\<close> for a non-empty name without a slash
  that is not \<open>.\<close> or \<open>..\<close>, whatever the photos files contain.
\<close>

theorem download_main_writes_only_images:
  "download_main net txt_dir dest names w = (w', e) \<Longrightarrow> fs_files w' p \<noteq> fs_files w p \<Longrightarrow>
     p \<in> image_files dest"
proof (induction names arbitrary: w)
  case (Cons name names)
  show ?case
  proof (cases "py_endswith name ''_photos.txt''")
    case False
    with Cons show ?thesis by simp
  next
    case True
    obtain w1 e1 where f: "download_from_txt net (path_div txt_dir name) dest w = (w1, e1)" by fastforce
    show ?thesis
    proof (cases "fs_files w1 p = fs_files w p")
      case False
      with f show ?thesis by (rule download_from_txt_frame)
    next
      case same: True
      show ?thesis
      proof (cases e1)
        case None
        with Cons.prems True f have "download_main net txt_dir dest names w1 = (w', e)" by simp
        from Cons.IH [OF this] Cons.prems(2) same show ?thesis by simp
      next
        case (Some x)
        with Cons.prems True f same show ?thesis by simp
      qed
    qed
  qed
qed simp

theorem download_main_writes_only_images_witness:
  "''images/p.jpg'' \<in> image_files ''images''"
proof (rule download_main_writes_only_images [OF prod.collapse [symmetric]])
  show "fs_files (fst (download_main (\<lambda>u. Answer 200 ''JPEG'') ''t'' ''images'' [''a_photos.txt'']
           ((empty_fs :: dl_event fs)\<lparr>fs_files := [''t/a_photos.txt'' \<mapsto> ''http://x.test/p.jpg'' @ [nl]]\<rparr>)))
          ''images/p.jpg''
        \<noteq> fs_files ((empty_fs :: dl_event fs)\<lparr>fs_files := [''t/a_photos.txt'' \<mapsto> ''http://x.test/p.jpg'' @ [nl]]\<rparr>)
          ''images/p.jpg''"
    by code_simp
qed

lemma download_image_wf:
  "wf_fs w \<Longrightarrow> wf_fs (fst (download_image net url dest w))"
  by (auto simp: download_image_def Let_def then_fs_def split: sum.split
      intro: wf_fs_makedirs wf_fs_open_write)

lemma download_lines_wf:
  "wf_fs w \<Longrightarrow> download_lines net dest lines w = (w', e) \<Longrightarrow> wf_fs w'"
proof (induction lines arbitrary: w)
  case (Cons line lines)
  obtain w1 r where img: "download_image net (py_strip line) dest w = (w1, r)" by fastforce
  with download_image_wf [OF Cons.prems(1), of net "py_strip line" dest] have "wf_fs w1" by simp
  with Cons img show ?case by (cases r) (auto simp: Let_def split: if_splits)
qed simp

lemma download_from_txt_wf:
  "wf_fs w \<Longrightarrow> download_from_txt net txt dest w = (w', e) \<Longrightarrow> wf_fs w'"
  by (auto simp: download_from_txt_def split: option.splits intro: download_lines_wf)

text \<open>
  Directories and files never share a path after a run of the
  downloader that started on such a file system, whether it ends normally or
  not.
\<close>

theorem download_main_wf_fs:
  "wf_fs w \<Longrightarrow> download_main net txt_dir dest names w = (w', e) \<Longrightarrow> wf_fs w'"
proof (induction names arbitrary: w)
  case (Cons name names)
  obtain w1 r where f: "download_from_txt net (path_div txt_dir name) dest w = (w1, r)" by fastforce
  with download_from_txt_wf [OF Cons.prems(1)] have "wf_fs w1" by blast
  with Cons f show ?case by (cases r) (auto split: if_splits)
qed simp

theorem download_main_wf_fs_witness:
  "wf_fs (fst (download_main (\<lambda>u. Answer 200 ''JPEG'') ''t'' ''images'' [''a_photos.txt'']
     ((empty_fs :: dl_event fs)\<lparr>fs_files := [''t/a_photos.txt'' \<mapsto> ''http://x.test/p.jpg'' @ [nl]]\<rparr>)))"
proof (rule download_main_wf_fs [OF _ prod.collapse [symmetric]])
  show "wf_fs ((empty_fs :: dl_event fs)\<lparr>fs_files := [''t/a_photos.txt'' \<mapsto> ''http://x.test/p.jpg'' @ [nl]]\<rparr>)"
    by (simp add: wf_fs_def empty_fs_def)
qed

end
