(* ===== verification/Cli.thy ===== *)
theory Cli
  imports Pipeline Download
begin

text \<open>
  The two entry points (\<open>if __name__ == "__main__":\<close>):
  \<open>src/scrape_recipes.py\<close> lines 171--177 and \<open>src/download_images.py\<close>
  lines 41--47.  With fewer than one argument after the program name each
  prints its usage line and exits with status 1 (\<open>CliUsage\<close>); otherwise it
  runs \<open>main\<close> with the first argument and the second or its default.  The
  directory listing that \<open>glob\<close> reads is given with the downloader's
  environment.
\<close>

datatype 'a cli_run = CliUsage | CliRun 'a

definition scrape_cli ::
  "string list \<Rightarrow> scrape_env \<Rightarrow> scrape_event fs \<Rightarrow> (scrape_event fs \<times> py_error option) cli_run" where
  "scrape_cli argv env w =
     (if length argv < 2 then CliUsage
      else CliRun (scrape_main env (argv ! 1) (if 2 < length argv then argv ! 2 else ''output'') w))"

definition download_cli ::
  "string list \<Rightarrow> (url \<Rightarrow> string answer) \<Rightarrow> string list \<Rightarrow> dl_event fs
     \<Rightarrow> (dl_event fs \<times> py_error option) cli_run" where
  "download_cli argv net listing w =
     (if length argv < 2 then CliUsage
      else CliRun (download_main net (argv ! 1) (if 2 < length argv then argv ! 2 else ''images'') listing w))"

end
