(* ===== verification/Retry.thy ===== *)
theory Retry
  imports Fetch "HOL-Library.While_Combinator"
begin

text \<open>
  The retry loop of the session of \<open>src/scrape_recipes.py\<close> (lines 23--26) as
  urllib3 writes it: \<open>HTTPConnectionPool.urlopen\<close> sends the request; on a
  transport error, or on a status of \<open>status_forcelist\<close>, it calls
  \<open>Retry.increment\<close>, which returns a new \<open>Retry\<close> with \<open>total\<close> one less and
  one more entry in \<open>history\<close> and raises \<open>MaxRetryError\<close> once \<open>total\<close> is
  below zero (\<open>is_exhausted\<close>); otherwise it sleeps \<open>get_backoff_time()\<close> of
  the new object and sends again.  The loop is kept as a loop
  (\<open>while_option\<close>) over the state of one call: the current \<open>Retry\<close>, the
  attempt number, the sleeps so far and the outcome once there is one.
  \<open>Retry-After\<close> headers are taken to be absent.  The theory proves that the
  loop always stops and that it computes the recursive \<open>retry_loop\<close> of
  \<open>Fetch\<close>, so every fact proved there holds of urllib3's loop.
\<close>

record retry =
  rt_total :: int
  rt_history :: nat

text \<open>\<open>Retry(total=3, ...)\<close> before the first request.\<close>

definition retry_init :: retry where
  "retry_init = \<lparr>rt_total = int retry_total, rt_history = 0\<rparr>"

text \<open>\<open>Retry.increment\<close>: \<open>total - 1\<close> and the attempt appended to \<open>history\<close>.\<close>

definition retry_increment :: "retry \<Rightarrow> retry" where
  "retry_increment r = \<lparr>rt_total = rt_total r - 1, rt_history = Suc (rt_history r)\<rparr>"

definition is_exhausted :: "retry \<Rightarrow> bool" where
  "is_exhausted r \<longleftrightarrow> rt_total r < 0"

text \<open>\<open>Retry.get_backoff_time\<close>: no redirects, so every entry of the history counts.\<close>

definition get_backoff_time :: "retry \<Rightarrow> nat" where
  "get_backoff_time r =
     (if rt_history r \<le> 1 then 0 else min 120 (backoff_factor * 2 ^ (rt_history r - 1)))"

record 'b call =
  c_retries :: retry
  c_attempt :: nat
  c_sleeps :: "nat list"
  c_outcome :: "'b response result option"

text \<open>
  One pass of \<open>urlopen\<close>: the answer to attempt \<open>c_attempt\<close> either ends the
  call or, through \<open>increment\<close>, leads to a sleep and the next attempt.
\<close>

definition retry_or_raise :: "py_error \<Rightarrow> 'b call \<Rightarrow> 'b call" where
  "retry_or_raise err s =
     (let r' = retry_increment (c_retries s)
      in if is_exhausted r' then s\<lparr>c_retries := r', c_outcome := Some (Inl err)\<rparr>
         else s\<lparr>c_retries := r', c_attempt := Suc (c_attempt s),
                c_sleeps := c_sleeps s @ [get_backoff_time r']\<rparr>)"

definition urlopen_step :: "(nat \<Rightarrow> 'b answer) \<Rightarrow> 'b call \<Rightarrow> 'b call" where
  "urlopen_step srv s =
     (case srv (c_attempt s) of
        TransportFailure \<Rightarrow> retry_or_raise ConnectionError s
      | Answer st b \<Rightarrow>
          if st \<in> set status_forcelist then retry_or_raise (RetryError st) s
          else s\<lparr>c_outcome := Some (Inr (Response st b))\<rparr>)"

definition call_init :: "'b call" where
  "call_init = \<lparr>c_retries = retry_init, c_attempt = 0, c_sleeps = [], c_outcome = None\<rparr>"

definition urlopen :: "(nat \<Rightarrow> 'b answer) \<Rightarrow> 'b call option" where
  "urlopen srv = while_option (\<lambda>s. c_outcome s = None) (urlopen_step srv) call_init"

text \<open>What \<open>session.get\<close> returns or raises, and the sleeps it took.\<close>

definition urlopen_result :: "(nat \<Rightarrow> 'b answer) \<Rightarrow> ('b response result \<times> nat list) option" where
  "urlopen_result srv =
     map_option (\<lambda>s. ((case c_outcome s of Some x \<Rightarrow> x | None \<Rightarrow> Inl ConnectionError), c_sleeps s))
       (urlopen srv)"

text \<open>
  The invariant of the loop: the budget never falls below \<open>-1\<close>, a running
  call has budget left, and the attempts made plus the budget left (never
  counted below zero) are the configured \<open>total\<close>.
\<close>

definition call_inv :: "'b call \<Rightarrow> bool" where
  "call_inv s \<longleftrightarrow>
     -1 \<le> rt_total (c_retries s)
     \<and> (c_outcome s = None \<longrightarrow> 0 \<le> rt_total (c_retries s))
     \<and> int (c_attempt s) + max 0 (rt_total (c_retries s)) = int retry_total"

text \<open>What decreases: the budget, and the outcome being still open.\<close>

definition call_measure :: "'b call \<Rightarrow> nat" where
  "call_measure s = 2 * nat (rt_total (c_retries s) + 1) + (if c_outcome s = None then 1 else 0)"

subsection \<open>The loop ends and computes \<open>retry_loop\<close>\<close>

lemma retry_or_raise_inv:
  assumes "call_inv s" "c_outcome s = None"
  shows "call_inv (retry_or_raise e s) \<and> call_measure (retry_or_raise e s) < call_measure s"
proof (cases "rt_total (c_retries s) = 0")
  case True
  with assms show ?thesis
    by (simp add: retry_or_raise_def call_inv_def call_measure_def retry_increment_def
        is_exhausted_def Let_def)
next
  case False
  with assms have "0 < rt_total (c_retries s)" by (simp add: call_inv_def)
  with assms show ?thesis
    by (simp add: retry_or_raise_def call_inv_def call_measure_def retry_increment_def
        is_exhausted_def Let_def max_def)
qed

lemma urlopen_step_inv:
  assumes "call_inv s" "c_outcome s = None"
  shows "call_inv (urlopen_step srv s) \<and> call_measure (urlopen_step srv s) < call_measure s"
proof (cases "srv (c_attempt s)")
  case (Answer st b)
  with assms retry_or_raise_inv [OF assms] show ?thesis
    by (cases "st \<in> set status_forcelist") (auto simp: urlopen_step_def call_inv_def call_measure_def max_def)
next
  case TransportFailure
  with retry_or_raise_inv [OF assms] show ?thesis by (simp add: urlopen_step_def)
qed

lemma call_init_inv: "call_inv call_init"
  by (simp add: call_inv_def call_init_def retry_init_def)

text \<open>
  C29: urllib3's retry loop always ends with an outcome, after at most four
  attempts (numbered 0 to 3), whatever the server answers.
\<close>

theorem urlopen_terminates:
  "\<exists>s. urlopen srv = Some s \<and> c_outcome s \<noteq> None \<and> c_attempt s \<le> 3"
proof -
  have "\<exists>s. while_option (\<lambda>s. c_outcome s = None) (urlopen_step srv) call_init = Some s"
    by (rule measure_while_option_Some [where P = call_inv and f = call_measure])
      (auto simp: call_init_inv dest: urlopen_step_inv)
  then obtain s where s: "while_option (\<lambda>s. c_outcome s = None) (urlopen_step srv) call_init = Some s" ..
  have "call_inv s"
    by (rule while_option_rule [where P = call_inv, OF _ s call_init_inv]) (simp add: urlopen_step_inv)
  moreover from s have "c_outcome s \<noteq> None" by (rule while_option_stop)
  ultimately show ?thesis
    using s by (auto simp: call_inv_def urlopen_def max_def retry_total_def split: if_splits)
qed

lemma while_call_running:
  "c_outcome s = None \<Longrightarrow>
     while_option (\<lambda>s. c_outcome s = None) f s = while_option (\<lambda>s. c_outcome s = None) f (f s)"
  by (simp add: while_option_unfold [of _ _ s])

lemma while_call_done:
  "c_outcome s \<noteq> None \<Longrightarrow> while_option (\<lambda>s. c_outcome s = None) f s = Some s"
  by (subst while_option_unfold) (simp del: not_None_eq)

lemma retry_or_raise_exhausted:
  "rt_total (c_retries s) = 0 \<Longrightarrow>
     c_outcome (retry_or_raise e s) = Some (Inl e) \<and> c_sleeps (retry_or_raise e s) = c_sleeps s"
  by (simp add: retry_or_raise_def retry_increment_def is_exhausted_def Let_def)

lemma retry_or_raise_continue:
  "rt_total (c_retries s) = int (Suc r) \<Longrightarrow>
     retry_or_raise e s =
       s\<lparr>c_retries := \<lparr>rt_total = int r, rt_history = Suc (rt_history (c_retries s))\<rparr>,
         c_attempt := Suc (c_attempt s),
         c_sleeps := c_sleeps s @ [backoff_time (Suc (rt_history (c_retries s)))]\<rparr>"
  by (simp add: retry_or_raise_def retry_increment_def is_exhausted_def Let_def
      get_backoff_time_def backoff_time_def)

lemma urlopen_loop:
  assumes "c_outcome s = None" "rt_total (c_retries s) = int r" "rt_history (c_retries s) = c_attempt s"
  shows "\<exists>s'. while_option (\<lambda>s. c_outcome s = None) (urlopen_step srv) s = Some s'
           \<and> c_outcome s' = Some (fst (retry_loop r (c_attempt s) srv))
           \<and> c_sleeps s' = c_sleeps s @ snd (retry_loop r (c_attempt s) srv)"
  using assms
proof (induction r arbitrary: s)
  case 0
  then have ex: "c_outcome (retry_or_raise e s) = Some (Inl e) \<and> c_sleeps (retry_or_raise e s) = c_sleeps s" for e
    by (simp add: retry_or_raise_exhausted)
  show ?case
    using "0.prems"(1) ex
    by (auto simp: while_call_running urlopen_step_def while_call_done split: answer.splits)
next
  case (Suc r)
  let ?t = "\<lambda>e. retry_or_raise e s"
  have t: "c_outcome (?t e) = None" "rt_total (c_retries (?t e)) = int r"
    "rt_history (c_retries (?t e)) = c_attempt (?t e)" "c_attempt (?t e) = Suc (c_attempt s)"
    "c_sleeps (?t e) = c_sleeps s @ [backoff_time (Suc (c_attempt s))]" for e
    using Suc.prems by (simp_all add: retry_or_raise_continue)
  show ?case
  proof (cases "srv (c_attempt s)")
    case TransportFailure
    with Suc.IH [OF t(1-3)] t(4,5) Suc.prems(1) show ?thesis
      by (auto simp: while_call_running urlopen_step_def split: prod.splits)
  next
    case (Answer st b)
    with Suc.IH [OF t(1-3)] t(4,5) Suc.prems(1) show ?thesis
      by (auto simp: while_call_running while_call_done urlopen_step_def split: prod.splits)
  qed
qed

text \<open>
  urllib3's loop, with its \<open>Retry\<close> object, \<open>increment\<close> and
  \<open>is_exhausted\<close>, returns what the recursive model \<open>session_get\<close>
  returns, with the same sleeps.
\<close>

theorem urlopen_refines_session_get: "urlopen_result srv = Some (session_get srv)"
proof -
  have "c_outcome (call_init :: 'b call) = None" "rt_total (c_retries (call_init :: 'b call)) = int retry_total"
    "rt_history (c_retries (call_init :: 'b call)) = c_attempt (call_init :: 'b call)"
    by (simp_all add: call_init_def retry_init_def)
  from urlopen_loop [OF this, of srv] show ?thesis
    by (auto simp: urlopen_result_def urlopen_def session_get_def call_init_def)
qed

lemma retry_loop_agree:
  "\<forall>i. k \<le> i \<and> i \<le> k + r \<longrightarrow> srv i = srv' i \<Longrightarrow> retry_loop r k srv = retry_loop r k srv'"
proof (induction r arbitrary: k)
  case 0
  then have "srv k = srv' k" by simp
  then show ?case by simp
next
  case (Suc r)
  then have "srv k = srv' k" and "\<forall>i. Suc k \<le> i \<and> i \<le> Suc k + r \<longrightarrow> srv i = srv' i" by auto
  with Suc.IH [of "Suc k"] show ?case by (simp split: answer.splits)
qed

text \<open>
  C30: a fetch never makes a fifth request: two servers that give the same
  answers to the first four attempts (numbered 0 to 3) give the same result
  and the same sleeps.
\<close>

theorem session_get_bounded_requests:
  "\<forall>i<4. srv i = srv' i \<Longrightarrow> session_get srv = session_get srv'"
  unfolding session_get_def by (rule retry_loop_agree) (simp add: retry_total_def)

theorem session_get_bounded_requests_witness:
  "session_get (\<lambda>_. Answer 503 ()) = session_get (\<lambda>i. if i < 4 then Answer 503 () else Answer 200 ())"
  by (rule session_get_bounded_requests) (simp add: retry_total_def)

end
