(* ===== verification/Spec2Isabelle.thy ===== *)
theory Spec2Isabelle
  imports Cli Retry
begin

text \<open>
  \<^bold>\<open>A verification library for the recipe scraper.\<close>

  The repository has two Python scripts.  \<open>src/scrape_recipes.py\<close> fetches a
  start page, extracts the links that contain \<open>"recipe"\<close>
  (\<open>extract_recipe_links\<close>), parses each recipe page (\<open>parse_recipe\<close>),
  deduplicates its ingredients (\<open>normalize_ingredients\<close>), optionally
  translates every field through DeepL (\<open>translate\<close>), and exports it
  (\<open>main\<close>): one row of \<open>recipes.csv\<close> and three text files named by
  \<open>slugify(name)\<close>.  \<open>src/download_images.py\<close> reads the \<open>*_photos.txt\<close>
  files the first script wrote and downloads every URL in them.  The scripts
  share nothing but those files.

  \<^bold>\<open>Theories, bottom up.\<close>
  \<^item> \<open>Prelude\<close>: the exceptions (\<open>py_error\<close>), the result type
    \<open>'a result = py_error + 'a\<close> and its \<open>bind_result\<close>, and
    \<open>dedup_from\<close>, the keep-the-first-of-every-key loop shared by
    \<open>normalize_ingredients\<close> and \<open>dict.fromkeys\<close>, with its lemmas.
  \<^item> \<open>PyStr\<close>: \<open>str.lower\<close>, \<open>str.strip\<close>, \<open>str.split\<close>, \<open>\s\<close>,
    \<open>\w\<close> and friends on Latin-1 code points (HOL's \<open>char\<close> has 256
    values), with CPython's tables.
  \<^item> \<open>Slugify\<close>: \<open>slugify\<close> (lines 35--38) as its two regex
    substitutions; \<open>Normalize\<close>: \<open>normalize_ingredients\<close> (104--112) as
    its loop over a \<open>seen\<close> set.
  \<^item> \<open>Csv\<close>: the \<open>csv.writer\<close> row format and an RFC 4180 reader.
  \<^item> \<open>IpAddress\<close>: the \<open>ipaddress\<close> parsers (\<open>IPv4Address\<close>,
    \<open>IPv6Address\<close> with \<open>::\<close>, scope id and IPv4 suffix, \<open>ip_address\<close>
    with the \<open>repr\<close> in its message) and \<open>urllib.parse._check_bracketed_host\<close>,
    with the bounds of the parsed values and the print/parse round trips of the
    hextets; \<open>PyStr\<close> also holds \<open>repr\<close> of a string.
  \<^item> \<open>Url\<close>: CPython 3.11's \<open>urlsplit\<close>, \<open>urlparse\<close>, \<open>urlunparse\<close> and
    \<open>urljoin\<close>, with the \<open>ValueError\<close> of an unbalanced bracket and of a
    bracketed host that is not an IP literal.
  \<^item> \<open>Fetch\<close>: the module-level \<open>session\<close> (lines 13--26) with urllib3's
    \<open>Retry(total=3, backoff_factor=1, status_forcelist=...)\<close> as
    \<open>retry_loop\<close>, and \<open>fetch\<close> = \<open>session.get\<close> + \<open>raise_for_status\<close>.  A
    server is a function from the attempt number to its answer.
  \<^item> \<open>Retry\<close>: the same loop as urllib3 writes it, \<open>HTTPConnectionPool.urlopen\<close>
    over a \<open>Retry\<close> object (\<open>increment\<close>, \<open>is_exhausted\<close>,
    \<open>get_backoff_time\<close>), kept as a \<open>while_option\<close> loop; it is proved to
    stop and to compute \<open>retry_loop\<close>.
  \<^item> \<open>Html\<close>: the parsed page as a tree and the BeautifulSoup/soupsieve queries
    the code uses; \<open>Parser\<close>: \<open>parse_recipe\<close> (63--101); \<open>Links\<close>:
    \<open>extract_recipe_links\<close> (50--60).
  \<^item> \<open>Files\<close>: the file system (files, directories, printed lines) and the
    \<open>os\<close>/\<open>io\<close> operations on it: \<open>makedirs\<close> (\<open>os.makedirs\<close> and
    \<open>Path.mkdir\<close> with \<open>exist_ok\<close>) and \<open>open_write\<close> return the
    \<open>OSError\<close> CPython raises on a conflicting file system, \<open>then_fs\<close>
    runs the statements after one that may raise, and \<open>wf_fs\<close> says that
    no path is both a file and a directory.
  \<^item> \<open>Pipeline\<close>: \<open>translate\<close> (41--47) and \<open>main\<close> (115--168) as
    \<open>scrape_main\<close> over an environment record (API key, \<open>deepl\<close> import,
    translation service, web) and the file system; \<open>scrape_loop\<close> is the loop
    over links, \<open>process_link\<close> one iteration, \<open>export_recipe\<close> lines
    148--167.
  \<^item> \<open>Download\<close>: \<open>download_image\<close>, \<open>download_from_txt\<close> and \<open>main\<close>
    of \<open>src/download_images.py\<close>; \<open>Cli\<close>: both \<open>__main__\<close> blocks.
  \<^item> This theory: the properties that span the two scripts.

  \<^bold>\<open>How the code's effects are modelled.\<close>  Every exception is a value:
  fallible functions return \<open>'a result\<close>, and the procedures that change
  files return the new file system with the exception that escaped, if any,
  so that what was written before an exception stays visible; the
  statements of a block that may raise are chained with \<open>then_fs\<close>.  Loops are
  structural recursion over the list they iterate; every function of the model
  is total and executable, so the concrete theorems are proved by evaluation
  (\<open>code_simp\<close>) or by \<open>simp\<close>.  The retry loop is bounded by
  \<open>retry_total\<close> = 3 (four attempts); the one loop kept as a loop,
  urllib3's, is a \<open>while_option\<close> whose termination is proved with the
  measure \<open>call_measure\<close> (twice the budget left plus one while the call is
  open); no fuel is needed anywhere.

  \<^bold>\<open>What the lemmas show.\<close>  The normaliser equals a positional
  reference and keeps the first line of each key (C1--C3); a run's CSV reads
  back as header plus one row per recipe that parsed and translated (C4); only
  the start page's fetch, the translation service and a file system that
  conflicts with the outputs (\<open>scrape_ok\<close> fails) can end a run (C5);
  the links are the joined recipe hrefs without repetition (C6); the fetch
  refines a retry-free specification (C7); the parse fails exactly without
  an \<open>h1\<close> or on an unjoinable photo (C8); slugs are idempotent and
  characterised (C9--C13); a run's log (C14) and its translation-free path
  (C15); the photo rule stated on the lower-cased source (C16) and the
  recursion equations of \<open>div.steps p\<close> (C17); the retry budget and backoff
  (C18, C19); slug clobbering (C20); the downloader prints one line per URL
  (C21), lets \<open>urlparse\<close>'s \<open>ValueError\<close> escape (C22) but no failed
  download (C23), reads back what the exporter wrote (C24), names files by
  the last path segment or \<open>image\<close> (C25) so that equal names collide (C26);
  the ingredients are normalised and then translated one for one (C27) with
  a key that is not a case folding (C28); urllib3's loop ends within four
  attempts (C29) and a fetch never makes a fifth request (C30); the scraper
  writes only the CSV and slug-named files in \<open>out/text\<close> (C31), a run
  aborted after the CSV was opened leaves header plus complete rows, also
  after an \<open>OSError\<close> in the middle of an export (C32), and the downloader
  writes only single names inside its destination (C33); link extraction
  fails exactly at the first recipe \<open>href\<close> that cannot be joined (C34),
  which a bracketed host that is not an IP literal is (C35); an output
  directory that cannot be created ends the scraper before any fetch (C36).
  Beside the claims, the theories keep the spec's worked examples as
  evaluations, the agreement of urllib3's loop with the recursive model, and
  the invariant that no path is both a file and a directory, which both
  scripts keep.

  \<^bold>\<open>Not modelled.\<close>  Turning HTML text into a tree (the tree is the input):
  \<open>html.parser\<close>'s tokenizer and BeautifulSoup's tree builder are a library of
  their own whose only contract the scripts rely on is the tree they return;
  the network and DeepL beyond the answers they give; \<open>Retry-After\<close>
  headers (taken to be absent, so the backoff alone decides the sleeps);
  redirects; timeouts as time (a timeout is a transport failure); sleeping
  (the sleeps are returned as a list); the \<open>OSError\<close>s of permissions,
  full disks and symbolic links (the code handles them no differently from
  the conflicts that are modelled), and text encodings (the CSV header's
  Cyrillic names are given as their UTF-8 bytes); code points above
  255; the NFKC check of \<open>urlsplit\<close>, which raises for no string of
  Latin-1 characters; the order of \<open>glob\<close> (the listing is an input).
\<close>

subsection \<open>Properties across components\<close>

text \<open>
  C24: the photos file the exporter writes for a recipe is read back by the
  downloader as exactly the recipe's photo URLs, in order, when every URL is
  non-empty, has no surrounding whitespace and no line break.
\<close>

theorem photos_file_roundtrip:
  assumes "list_all (\<lambda>p. p \<noteq> [] \<and> py_strip p = p \<and> \<not> list_ex line_end p) (r_photos d)"
    and "export_recipe out (path_join out ''recipes.csv'') d w = (w', None)"
  shows "\<exists>content. fs_files w' (text_path out (slugify (r_name d)) ''_photos.txt'') = Some content
           \<and> txt_urls content = r_photos d"
proof -
  have "path_join out ''recipes.csv'' \<noteq> text_path out (slugify (r_name d)) ''_photos.txt''"
    by (rule csv_not_text_path) simp_all
  then have "fs_files (export_writes out (path_join out ''recipes.csv'') d w)
      (text_path out (slugify (r_name d)) ''_photos.txt'') = Some (lines_text (r_photos d))"
    by (rule export_writes_photos)
  moreover have "w' = export_writes out (path_join out ''recipes.csv'') d w"
    using assms(2) by (rule export_recipe_None)
  moreover have "map py_strip (r_photos d) = r_photos d"
    using assms by (intro map_idI) (auto simp: list_all_iff)
  with assms have "txt_urls (lines_text (r_photos d)) = r_photos d"
    by (simp add: txt_urls_def read_lines_lines_text list_all_iff filter_id_conv)
  ultimately show ?thesis by auto
qed

theorem photos_file_roundtrip_witness:
  "\<exists>content. fs_files (export_writes ''out'' (path_join ''out'' ''recipes.csv'')
        \<lparr>r_name = ''Pie'', r_type = [], r_ingredients = [], r_prep_time = [], r_cook_time = [],
         r_total_time = [], r_steps = [], r_photos = [''https://x.test/a.jpg'', ''https://x.test/b.png'']\<rparr>
        (empty_fs :: scrape_event fs))
      (text_path ''out'' (slugify (r_name
        \<lparr>r_name = ''Pie'', r_type = [], r_ingredients = [], r_prep_time = [], r_cook_time = [],
         r_total_time = [], r_steps = [], r_photos = [''https://x.test/a.jpg'', ''https://x.test/b.png'']\<rparr>))
        ''_photos.txt'') = Some content
    \<and> txt_urls content = r_photos
        \<lparr>r_name = ''Pie'', r_type = [], r_ingredients = [], r_prep_time = [], r_cook_time = [],
         r_total_time = [], r_steps = [], r_photos = [''https://x.test/a.jpg'', ''https://x.test/b.png'']\<rparr>"
proof (rule photos_file_roundtrip)
  show "list_all (\<lambda>p. p \<noteq> [] \<and> py_strip p = p \<and> \<not> list_ex line_end p)
    (r_photos \<lparr>r_name = ''Pie'', r_type = [], r_ingredients = [], r_prep_time = [], r_cook_time = [],
         r_total_time = [], r_steps = [], r_photos = [''https://x.test/a.jpg'', ''https://x.test/b.png'']\<rparr>)"
    by code_simp
  have "scrape_ok ''out'' (empty_fs :: scrape_event fs)" by (rule scrape_ok_example)
  then have "export_ok ''out'' (empty_fs :: scrape_event fs)" by (simp add: scrape_ok_def)
  then show "export_recipe ''out'' (path_join ''out'' ''recipes.csv'')
      \<lparr>r_name = ''Pie'', r_type = [], r_ingredients = [], r_prep_time = [], r_cook_time = [],
       r_total_time = [], r_steps = [], r_photos = [''https://x.test/a.jpg'', ''https://x.test/b.png'']\<rparr>
      (empty_fs :: scrape_event fs)
    = (export_writes ''out'' (path_join ''out'' ''recipes.csv'')
      \<lparr>r_name = ''Pie'', r_type = [], r_ingredients = [], r_prep_time = [], r_cook_time = [],
       r_total_time = [], r_steps = [], r_photos = [''https://x.test/a.jpg'', ''https://x.test/b.png'']\<rparr>
      (empty_fs :: scrape_event fs), None)"
    by (rule export_recipe_ok)
qed

text \<open>
  The two scripts together on the example web of \<open>Pipeline\<close>: the
  scraper writes the recipe's photos file, the downloader run on the text
  directory reads it (and only it), fetches the one photo and stores it under
  its file name.
\<close>

theorem scrape_then_download_example:
  "let (w1, e1) = scrape_main (example_env None) ''https://x.test/'' ''out'' (empty_fs :: scrape_event fs);
       (w2, e2) = download_main (\<lambda>u. if u = ''https://x.test/recipe/pie.jpg'' then Answer 200 ''JPEG''
                                       else Answer 404 [])
                    ''out/text'' ''images''
                    [''apple-pie_ingredients.txt'', ''apple-pie_photos.txt'', ''apple-pie_steps.txt'']
                    ((empty_fs :: dl_event fs)\<lparr>fs_files := fs_files w1\<rparr>)
   in e1 = None \<and> e2 = None \<and> fs_files w2 ''images/pie.jpg'' = Some ''JPEG''
      \<and> fs_out w2 = [SavedImage ''https://x.test/recipe/pie.jpg'' ''images/pie.jpg'']"
  unfolding example_run by code_simp

text \<open>
  The command lines: without an argument each script prints its usage
  and exits with status 1; the output directories default to \<open>output\<close> and
  \<open>images\<close>.
\<close>

theorem cli_defaults:
  "scrape_cli [prog] env w = CliUsage \<and> download_cli [prog] net listing v = CliUsage
   \<and> scrape_cli [prog, start] env w = CliRun (scrape_main env start ''output'' w)
   \<and> download_cli [prog, txt_dir] net listing v = CliRun (download_main net txt_dir ''images'' listing v)
   \<and> scrape_cli [prog, start, out] env w = CliRun (scrape_main env start out w)
   \<and> download_cli [prog, txt_dir, dest] net listing v = CliRun (download_main net txt_dir dest listing v)"
  by (simp add: scrape_cli_def download_cli_def)

end
